(* ===== verification/Bridge_Prelude.thy ===== *)
theory Bridge_Prelude
  imports Main "HOL-Library.Word" "HOL-Library.AList"
begin

text \<open>
  Shared vocabulary of the development: bytes and byte strings, Python slicing, big-endian
  registers, decimal and hexadecimal formatting, string prefixes and suffixes, and Python
  dictionaries as association lists in insertion order. The collections \<open>wire_simps\<close>
  (slices and registers), \<open>text_simps\<close> (formatting) and \<open>dict_simps\<close> (dictionaries) carry
  the facts that the component theories hand to the simplifier.
\<close>

unbundle bit_operations_syntax

named_theorems wire_simps "slices, registers and frames"
named_theorems text_simps "formatted text"
named_theorems dict_simps "dictionary lookups"

type_synonym byte = "8 word"
type_synonym bytes = "byte list"

section \<open>Slices\<close>

text \<open>Python's \<open>xs[i:j]\<close> for non-negative \<open>i\<close> and \<open>j\<close>.\<close>

definition pyslice :: "nat \<Rightarrow> nat \<Rightarrow> 'a list \<Rightarrow> 'a list" where
  "pyslice i j xs = take (j - i) (drop i xs)"

text \<open>\<open>xs[:-2]\<close> and \<open>xs[-2:]\<close>.\<close>

definition but2 :: "'a list \<Rightarrow> 'a list" where
  "but2 xs = take (length xs - 2) xs"

definition last2 :: "'a list \<Rightarrow> 'a list" where
  "last2 xs = drop (length xs - 2) xs"

lemma but2_append [wire_simps]: "length ys = 2 \<Longrightarrow> but2 (xs @ ys) = xs"
  by (simp add: but2_def)

lemma last2_append [wire_simps]: "length ys = 2 \<Longrightarrow> last2 (xs @ ys) = ys"
  by (simp add: last2_def)

lemma but2_last2: "but2 xs @ last2 xs = xs"
  by (simp add: but2_def last2_def)

lemma length_last2: "2 \<le> length xs \<Longrightarrow> length (last2 xs) = 2"
  by (simp add: last2_def)

lemma length_pyslice [wire_simps]: "length (pyslice i j xs) = min (j - i) (length xs - i)"
  by (simp add: pyslice_def)

lemma slice_append_left [wire_simps]:
  "pyslice (length xs + i) (length xs + j) (xs @ ys) = pyslice i j ys"
  by (simp add: pyslice_def)

lemma slice_0_append [wire_simps]: "length xs = n \<Longrightarrow> pyslice 0 n (xs @ ys) = xs"
  by (auto simp: pyslice_def)

lemma slice_prefix: "j \<le> length xs \<Longrightarrow> pyslice i j (xs @ ys) = pyslice i j xs"
  by (simp add: pyslice_def)

lemma list_two: "length xs = 2 \<Longrightarrow> \<exists>a b. xs = [a, b]"
  by (metis (no_types, opaque_lifting) One_nat_def Suc_1 length_0_conv length_Suc_conv)

lemma take_3: "3 \<le> length xs \<Longrightarrow> take 3 xs = [xs ! 0, xs ! 1, xs ! 2]"
  by (cases xs; cases "tl xs"; cases "tl (tl xs)") auto

section \<open>Registers\<close>

text \<open>\<open>(body[i] << 8) | body[i + 1]\<close>.\<close>

definition be16 :: "byte \<Rightarrow> byte \<Rightarrow> int" where
  "be16 hi lo = (push_bit 8 (uint hi)) OR (uint lo)"

definition hi8 :: "int \<Rightarrow> byte" where
  "hi8 v = word_of_int (drop_bit 8 v AND 0xFF)"

definition lo8 :: "int \<Rightarrow> byte" where
  "lo8 v = word_of_int (v AND 0xFF)"

lemma uint_byte_lt: "uint (b :: byte) < 256" and uint_byte_ge: "0 \<le> uint (b :: byte)"
  using uint_lt2p [of b] by simp_all

lemma be16_arith: "be16 hi lo = 256 * uint hi + uint lo"
proof -
  have "push_bit 8 (uint hi) AND uint lo = 0"
    by (rule bit_eqI) (auto simp: bit_and_iff bit_push_bit_iff bit_uint_iff)
  then have "push_bit 8 (uint hi) OR uint lo = push_bit 8 (uint hi) + uint lo"
    by (rule disjunctive_add_eq_or [symmetric])
  then show ?thesis
    by (simp add: be16_def push_bit_eq_mult)
qed

lemma and_255: "(v :: int) AND 255 = v mod 256"
  using take_bit_eq_mask [of 8 v] by (simp add: mask_eq_exp_minus_1 take_bit_eq_mod)

lemma hi8_lo8_arith:
  "hi8 v = word_of_int (v div 256 mod 256)" "lo8 v = word_of_int (v mod 256)"
  by (simp_all add: hi8_def lo8_def and_255 drop_bit_eq_div)

lemma uint_hi8: "uint (hi8 v) = v div 256 mod 256"
  and uint_lo8: "uint (lo8 v) = v mod 256"
  by (simp_all add: hi8_lo8_arith uint_word_of_int)

lemma be16_hi8_lo8 [wire_simps]: "0 \<le> v \<Longrightarrow> v < 65536 \<Longrightarrow> be16 (hi8 v) (lo8 v) = v"
  by (simp add: be16_arith uint_hi8 uint_lo8)

lemma be16_ge: "0 \<le> be16 a b" and be16_lt: "be16 a b < 65536"
  using uint_byte_lt [of a] uint_byte_lt [of b] uint_byte_ge [of a] uint_byte_ge [of b]
  by (simp_all add: be16_arith)

lemma hi8_be16 [wire_simps]: "hi8 (be16 a b) = a"
  using uint_byte_lt [of a] uint_byte_lt [of b] uint_byte_ge [of a] uint_byte_ge [of b]
  by (simp add: be16_arith hi8_lo8_arith)

lemma lo8_be16 [wire_simps]: "lo8 (be16 a b) = b"
  using uint_byte_lt [of a] uint_byte_lt [of b] uint_byte_ge [of a] uint_byte_ge [of b]
  by (simp add: be16_arith hi8_lo8_arith)

text \<open>The comprehension \<open>[(body[i] << 8) | body[i+1] for i in range(0, bc, 2)]\<close>, over a
  body of \<open>bc\<close> bytes (\<open>bc\<close> is even in every call).\<close>

fun regs_of :: "bytes \<Rightarrow> int list" where
  "regs_of (a # b # bs) = be16 a b # regs_of bs"
| "regs_of _ = []"

definition bytes_of :: "int list \<Rightarrow> bytes" where
  "bytes_of rs = concat (map (\<lambda>r. [hi8 r, lo8 r]) rs)"

definition reg_range :: "int list \<Rightarrow> bool" where
  "reg_range rs \<longleftrightarrow> (\<forall>r \<in> set rs. 0 \<le> r \<and> r < 65536)"

lemma bytes_of_simps [wire_simps]:
  "bytes_of [] = []" "bytes_of (r # rs) = hi8 r # lo8 r # bytes_of rs"
  by (simp_all add: bytes_of_def)

lemma length_bytes_of [wire_simps]: "length (bytes_of rs) = 2 * length rs"
  by (induction rs) (simp_all add: wire_simps)

lemma regs_of_bytes_of [wire_simps]: "reg_range rs \<Longrightarrow> regs_of (bytes_of rs) = rs"
  by (induction rs) (auto simp: wire_simps reg_range_def)

lemma length_regs_of [wire_simps]: "length (regs_of bs) = length bs div 2"
  by (induction bs rule: regs_of.induct) simp_all

lemma reg_range_regs_of: "reg_range (regs_of bs)"
  by (induction bs rule: regs_of.induct) (simp_all add: reg_range_def be16_ge be16_lt)

lemma bytes_of_regs_of: "even (length bs) \<Longrightarrow> bytes_of (regs_of bs) = bs"
  by (induction bs rule: regs_of.induct) (simp_all add: wire_simps)

section \<open>Text\<close>

definition digit_char :: "nat \<Rightarrow> char" where
  "digit_char d = char_of (48 + d)"

text \<open>\<open>f"{n}"\<close> of a non-negative integer.\<close>

fun show_nat :: "nat \<Rightarrow> string" where
  "show_nat n = (if n < 10 then [digit_char n] else show_nat (n div 10) @ [digit_char (n mod 10)])"

declare show_nat.simps [simp del]

text \<open>\<open>f"{n:02d}"\<close>.\<close>

definition show2 :: "nat \<Rightarrow> string" where
  "show2 n = (if n < 10 then CHR ''0'' # show_nat n else show_nat n)"

definition show_int :: "int \<Rightarrow> string" where
  "show_int v = (if v < 0 then CHR ''-'' # show_nat (nat (- v)) else show_nat (nat v))"

definition hex_char :: "nat \<Rightarrow> char" where
  "hex_char d = (if d < 10 then char_of (48 + d) else char_of (55 + d))"

text \<open>\<open>f"{r:04X}"\<close> of a 16-bit register.\<close>

definition hex4 :: "int \<Rightarrow> string" where
  "hex4 r = map (\<lambda>k. hex_char (nat (r div 16 ^ k mod 16))) [3, 2, 1, 0]"

definition starts_with :: "string \<Rightarrow> string \<Rightarrow> bool" where
  "starts_with p s \<longleftrightarrow> take (length p) s = p"

definition ends_with :: "string \<Rightarrow> string \<Rightarrow> bool" where
  "ends_with p s \<longleftrightarrow> length p \<le> length s \<and> drop (length s - length p) s = p"

definition is_digit :: "char \<Rightarrow> bool" where
  "is_digit c \<longleftrightarrow> 48 \<le> (of_char c :: nat) \<and> (of_char c :: nat) \<le> 57"

definition nat_of_digits :: "string \<Rightarrow> nat" where
  "nat_of_digits = foldl (\<lambda>n c. 10 * n + (of_char c - 48)) 0"

text \<open>ASCII case, as \<open>str.lower\<close> and \<open>str.upper\<close> change it.\<close>

definition to_upper :: "char \<Rightarrow> char" where
  "to_upper c = (let n = of_char c :: nat in if 97 \<le> n \<and> n \<le> 122 then char_of (n - 32) else c)"

definition to_lower :: "char \<Rightarrow> char" where
  "to_lower c = (let n = of_char c :: nat in if 65 \<le> n \<and> n \<le> 90 then char_of (n + 32) else c)"

lemma starts_with_append [text_simps]: "starts_with p (p @ s)"
  by (simp add: starts_with_def)

lemma starts_with_iff: "starts_with p s \<longleftrightarrow> (\<exists>t. s = p @ t)"
  unfolding starts_with_def by (metis append_eq_conv_conj append_take_drop_id)

lemma digit_char_code: "d < 10 \<Longrightarrow> of_char (digit_char d) = (48 + d :: nat)"
  by (simp add: digit_char_def)

lemma is_digit_digit_char: "d < 10 \<Longrightarrow> is_digit (digit_char d)"
  by (simp add: is_digit_def digit_char_code)

lemma show_nat_digits: "c \<in> set (show_nat n) \<Longrightarrow> is_digit c"
proof (induction n rule: show_nat.induct)
  case (1 n)
  then show ?case
    by (subst (asm) show_nat.simps) (auto simp: is_digit_digit_char split: if_splits)
qed

lemma show_nat_nonempty: "show_nat n \<noteq> []"
  by (subst show_nat.simps) simp

lemma nat_of_digits_show: "nat_of_digits (show_nat n) = n"
proof (induction n rule: show_nat.induct)
  case (1 n)
  then show ?case
    by (subst show_nat.simps) (simp add: nat_of_digits_def digit_char_code)
qed

lemma show_nat_inj [text_simps]: "show_nat m = show_nat n \<longleftrightarrow> m = n"
  using nat_of_digits_show by metis

lemma not_digit_underscore: "\<not> is_digit (CHR ''_'')"
  by (simp add: is_digit_def)

text \<open>Splitting at the first separator that is no digit.\<close>

lemma takeWhile_show_nat:
  "\<not> is_digit c \<Longrightarrow> takeWhile is_digit (show_nat n @ c # s) = show_nat n"
  using takeWhile_append2 [of "show_nat n" is_digit "c # s"] by (simp add: show_nat_digits)

lemma show_nat_sep_inj:
  assumes "\<not> is_digit c"
  shows "show_nat m @ c # s = show_nat n @ c # t \<longleftrightarrow> m = n \<and> s = t"
  using takeWhile_show_nat [OF assms, of m s] takeWhile_show_nat [OF assms, of n t]
  by (metis append_same_eq list.inject same_append_eq show_nat_inj)

section \<open>Dictionaries\<close>

text \<open>A Python dictionary is an association list in insertion order: assigning to a present
  key keeps its place, assigning to a new one appends it.\<close>

type_synonym ('k, 'v) dict = "('k \<times> 'v) list"

abbreviation dget :: "('k, 'v) dict \<Rightarrow> 'k \<Rightarrow> 'v option" where
  "dget d k \<equiv> map_of d k"

abbreviation dset :: "'k \<Rightarrow> 'v \<Rightarrow> ('k, 'v) dict \<Rightarrow> ('k, 'v) dict" where
  "dset k v d \<equiv> AList.update k v d"

definition dkeys :: "('k, 'v) dict \<Rightarrow> 'k list" where
  "dkeys d = map fst d"

text \<open>\<open>d.get(k, default)\<close> and \<open>d.update(e)\<close>.\<close>

definition dget_or :: "('k, 'v) dict \<Rightarrow> 'k \<Rightarrow> 'v \<Rightarrow> 'v" where
  "dget_or d k v = (case dget d k of None \<Rightarrow> v | Some x \<Rightarrow> x)"

definition dupdate :: "('k, 'v) dict \<Rightarrow> ('k, 'v) dict \<Rightarrow> ('k, 'v) dict" where
  "dupdate d e = foldl (\<lambda>acc (k, v). dset k v acc) d e"

lemma dget_dset [dict_simps]: "dget (dset k v d) k' = (if k' = k then Some v else dget d k')"
  by (simp add: update_conv)

lemma distinct_dkeys_dset: "distinct (dkeys d) \<Longrightarrow> distinct (dkeys (dset k v d))"
  by (simp add: dkeys_def distinct_update)

lemma set_dkeys_dset [dict_simps]: "set (dkeys (dset k v d)) = insert k (set (dkeys d))"
  by (auto simp: dkeys_def update_keys)

lemma dget_none_iff: "dget d k = None \<longleftrightarrow> k \<notin> set (dkeys d)"
  by (simp add: map_of_eq_None_iff dkeys_def)

lemma dget_dupdate: "dget (dupdate d e) k = (case dget (rev e) k of None \<Rightarrow> dget d k | Some v \<Rightarrow> Some v)"
proof (induction e rule: rev_induct)
  case (snoc x e)
  then show ?case
    by (cases x) (simp add: dupdate_def dict_simps)
qed (simp add: dupdate_def)

text \<open>\<open>enumerate(xs, start=1)\<close>.\<close>

definition enum1 :: "'a list \<Rightarrow> (nat \<times> 'a) list" where
  "enum1 xs = zip [1..<Suc (length xs)] xs"

lemma enum1_mem: "(i, x) \<in> set (enum1 xs) \<longleftrightarrow> 1 \<le> i \<and> i \<le> length xs \<and> x = xs ! (i - 1)"
  by (auto simp: enum1_def in_set_zip simp del: upt_Suc intro!: exI [of _ "i - 1"])

lemma map_snd_enum1 [simp]: "map snd (enum1 xs) = xs"
  by (simp add: enum1_def del: upt_Suc)

lemma distinct_fst_enum1: "distinct (map fst (enum1 xs))"
  by (simp add: enum1_def del: upt_Suc)

section \<open>Errors\<close>

text \<open>Sequencing of fallible steps: an exception skips the rest.\<close>

fun bindE :: "'e + 'a \<Rightarrow> ('a \<Rightarrow> 'e + 'b) \<Rightarrow> 'e + 'b" where
  "bindE (Inl e) f = Inl e"
| "bindE (Inr x) f = f x"

lemma bindE_Inr_iff: "bindE m f = Inr y \<longleftrightarrow> (\<exists>x. m = Inr x \<and> f x = Inr y)"
  by (cases m) simp_all

end
