(* ===== verification/Crc16.thy ===== *)
theory Crc16
  imports Bridge_Prelude
begin

text \<open>
  The CRC-16/MODBUS checksum of \<open>inverter_bridge/crc.py\<close> and its second implementation in
  \<open>inverter_bridge/bms/octopus_protocol.py\<close>. The Python integer \<open>crc\<close> starts at 0xFFFF and only
  sees XOR with a byte and right shifts, so it stays below \<open>2 ^ 16\<close>: it is a 16-bit word here.
  The lemmas show that the register update is linear and injective, that a frame carries a right
  checksum exactly when its residue is zero, and that an error inside two adjacent bytes is
  always detected.
\<close>

type_synonym crc_reg = "16 word"

section \<open>The two implementations\<close>

definition crc_bit :: "crc_reg \<Rightarrow> crc_reg" where
  "crc_bit c = (if c AND 1 = 1 then drop_bit 1 c XOR 0xA001 else drop_bit 1 c)"

definition crc_byte :: "crc_reg \<Rightarrow> byte \<Rightarrow> crc_reg" where
  "crc_byte c b = (crc_bit ^^ 8) (c XOR ucast b)"

definition crc_run :: "crc_reg \<Rightarrow> bytes \<Rightarrow> crc_reg" where
  "crc_run = foldl crc_byte"

text \<open>\<open>struct.pack("<H", crc)\<close>: the low byte first.\<close>

definition pack_le :: "crc_reg \<Rightarrow> bytes" where
  "pack_le c = [ucast c, ucast (drop_bit 8 c)]"

definition unpack_le :: "bytes \<Rightarrow> crc_reg" where
  "unpack_le bs = push_bit 8 (ucast (bs ! 1)) OR ucast (bs ! 0)"

definition crc16 :: "bytes \<Rightarrow> bytes" where
  "crc16 data = pack_le (crc_run 0xFFFF data)"

text \<open>The BMS module's own loop: the test is written \<open>crc & 0x0001\<close> and the result is the
  register, not the packed bytes.\<close>

fun crc16_modbus_bits :: "nat \<Rightarrow> crc_reg \<Rightarrow> crc_reg" where
  "crc16_modbus_bits 0 crc = crc"
| "crc16_modbus_bits (Suc n) crc =
     (if crc AND 0x0001 \<noteq> 0 then crc16_modbus_bits n (drop_bit 1 crc XOR 0xA001)
      else crc16_modbus_bits n (drop_bit 1 crc))"

fun crc16_modbus_loop :: "crc_reg \<Rightarrow> bytes \<Rightarrow> crc_reg" where
  "crc16_modbus_loop crc [] = crc"
| "crc16_modbus_loop crc (b # bs) = crc16_modbus_loop (crc16_modbus_bits 8 (crc XOR ucast b)) bs"

definition crc16_modbus :: "bytes \<Rightarrow> crc_reg" where
  "crc16_modbus data = crc16_modbus_loop 0xFFFF data"

definition verify_crc :: "bytes \<Rightarrow> bool" where
  "verify_crc frame =
     (if length frame < 4 then False
      else crc16_modbus (but2 frame) = unpack_le (last2 frame))"

text \<open>The check the framing code repeats: \<open>crc16(frame[:-2]) == frame[-2:]\<close>.\<close>

definition crc_ok :: "bytes \<Rightarrow> bool" where
  "crc_ok frame \<longleftrightarrow> crc16 (but2 frame) = last2 frame"

section \<open>The register update is linear and injective\<close>

lemma and_one_word: "(c :: 'a::len word) AND 1 = of_bool (bit c 0)"
  by (simp add: and_one_eq mod_2_eq_odd bit_0)

lemma crc_bit_alt: "crc_bit c = (if bit c 0 then drop_bit 1 c XOR 0xA001 else drop_bit 1 c)"
  by (simp add: crc_bit_def and_one_word)

lemma drop_bit_xor_word: "drop_bit n (a XOR b) = drop_bit n a XOR drop_bit n (b :: 'a::len word)"
  by (rule bit_eqI) (simp add: bit_drop_bit_eq bit_xor_iff)

lemma crc_bit_xor: "crc_bit (a XOR b) = crc_bit a XOR crc_bit b"
  by (simp add: crc_bit_alt drop_bit_xor_word bit_xor_iff xor.assoc xor.left_commute xor.commute)

lemma crc_bit_zero: "crc_bit 0 = 0"
  by (simp add: crc_bit_alt)

lemma crc_bit_eq_0: "crc_bit c = 0 \<longleftrightarrow> c = 0"
proof
  assume z: "crc_bit c = 0"
  have top: "bit (0xA001 :: crc_reg) 15"
    by simp
  have "\<not> bit c 0"
  proof
    assume "bit c 0"
    with z have "drop_bit 1 c XOR 0xA001 = 0"
      by (simp add: crc_bit_alt)
    then have "bit (drop_bit 1 c XOR 0xA001) 15 = False"
      by simp
    with top show False
      using bit_imp_le_length [where w = c and n = 16] by (auto simp: bit_xor_iff bit_drop_bit_eq)
  qed
  with z have low: "\<not> bit c 0" and rest: "drop_bit 1 c = 0"
    by (simp_all add: crc_bit_alt)
  show "c = 0"
  proof (rule bit_eqI)
    fix n
    have "bit (drop_bit 1 c) (n - 1) = False"
      using rest by simp
    then show "bit c n = bit (0 :: crc_reg) n"
      using low by (cases n) (simp_all add: bit_drop_bit_eq)
  qed
qed (simp add: crc_bit_zero)

lemma xor_eq_0: "(a :: 'a::len word) XOR b = 0 \<longleftrightarrow> a = b"
proof
  assume "a XOR b = 0"
  then have "(a XOR b) XOR b = b" by simp
  then show "a = b" by (simp add: xor.assoc)
qed simp

lemma xor_right_cancel: "a XOR c = b XOR c \<longleftrightarrow> a = (b :: 'a::len word)"
proof
  assume "a XOR c = b XOR c"
  then have "(a XOR c) XOR c = (b XOR c) XOR c" by simp
  then show "a = b" by (simp add: xor.assoc)
qed simp

text \<open>A linear map with a trivial kernel is injective; the laws are those of one register
  step, and every composition of steps has them too.\<close>

locale xor_linear =
  fixes f :: "'a::len word \<Rightarrow> 'a word"
  assumes xor_hom: "f (a XOR b) = f a XOR f b"
    and kernel: "f c = 0 \<longleftrightarrow> c = 0"
begin

lemma inj_eq: "f a = f b \<longleftrightarrow> a = b"
  using xor_eq_0 [of "f a" "f b"] kernel [of "a XOR b"] by (simp add: xor_hom xor_eq_0)

lemma zero: "f 0 = 0"
  by (simp add: kernel)

lemma power_hom: "(f ^^ n) (a XOR b) = (f ^^ n) a XOR (f ^^ n) b"
  by (induction n) (simp_all add: xor_hom)

lemma power_kernel: "(f ^^ n) c = 0 \<longleftrightarrow> c = 0"
  by (induction n) (simp_all add: kernel)

end

interpretation crc_step: xor_linear crc_bit
  by unfold_locales (simp_all add: crc_bit_xor crc_bit_eq_0)

interpretation crc_step8: xor_linear "crc_bit ^^ 8"
  by unfold_locales (rule crc_step.power_hom, rule crc_step.power_kernel)

lemma crc_byte_xor: "crc_byte (a XOR b) (x XOR y) = crc_byte a x XOR crc_byte b y"
proof -
  have "(ucast (x XOR y) :: crc_reg) = ucast x XOR ucast y"
    by (rule bit_eqI) (simp add: bit_ucast_iff bit_xor_iff)
  then have "(a XOR b) XOR ucast (x XOR y) = (a XOR ucast x) XOR (b XOR ucast y)"
    by (simp add: xor.assoc xor.left_commute)
  then show ?thesis
    by (simp only: crc_byte_def crc_step8.xor_hom)
qed

lemma crc_byte_inj: "crc_byte a x = crc_byte b x \<longleftrightarrow> a = b"
  by (simp add: crc_byte_def crc_step8.inj_eq xor_right_cancel)

lemma crc_run_simps: "crc_run c [] = c" "crc_run c (b # bs) = crc_run (crc_byte c b) bs"
  by (simp_all add: crc_run_def)

lemma crc_run_append: "crc_run c (xs @ ys) = crc_run (crc_run c xs) ys"
  by (simp add: crc_run_def)

lemma crc_run_inj: "crc_run a xs = crc_run b xs \<longleftrightarrow> a = b"
  by (induction xs arbitrary: a b) (simp_all add: crc_run_simps crc_byte_inj)

lemma crc_run_xor:
  "length xs = length ys \<Longrightarrow>
     crc_run (a XOR b) (map2 (XOR) xs ys) = crc_run a xs XOR crc_run b ys"
  by (induction xs ys arbitrary: a b rule: list_induct2) (simp_all add: crc_run_simps crc_byte_xor)


section \<open>Checksums, residues and equality of the implementations\<close>

lemma crc16_modbus_bits_eq: "crc16_modbus_bits n c = (crc_bit ^^ n) c"
  by (induction n arbitrary: c) (simp_all add: funpow_swap1 crc_bit_def and_one_word)

lemma crc16_modbus_loop_eq: "crc16_modbus_loop c bs = crc_run c bs"
  by (induction bs arbitrary: c)
    (simp_all del: crc16_modbus_bits.simps add: crc16_modbus_bits_eq crc_run_simps crc_byte_def)

lemma crc16_modbus_run: "crc16_modbus data = crc_run 0xFFFF data"
  by (simp add: crc16_modbus_def crc16_modbus_loop_eq)

lemma length_crc16 [simp]: "length (crc16 data) = 2"
  by (simp add: crc16_def pack_le_def)

lemma bit_byte_bound: "bit (b :: byte) n \<Longrightarrow> n < 8"
  using bit_imp_le_length [of b n] by simp

lemma bit_unpack_le:
  "bit (unpack_le [lo, hi]) n = (if n < 8 then bit lo n else n < 16 \<and> bit hi (n - 8))"
  by (auto simp: unpack_le_def bit_or_iff bit_push_bit_iff bit_ucast_iff dest: bit_byte_bound)

lemma unpack_pack_le [simp]: "unpack_le (pack_le c) = c"
  by (rule bit_eqI) (auto simp: pack_le_def bit_unpack_le bit_ucast_iff bit_drop_bit_eq)

lemma pack_unpack_le: "length bs = 2 \<Longrightarrow> pack_le (unpack_le bs) = bs"
proof -
  assume "length bs = 2"
  then obtain lo hi where bs: "bs = [lo, hi]"
    using list_two by blast
  have "(ucast (unpack_le [lo, hi]) :: byte) = lo"
    by (rule bit_eqI) (simp add: bit_ucast_iff bit_unpack_le)
  moreover have "(ucast (drop_bit 8 (unpack_le [lo, hi])) :: byte) = hi"
    by (rule bit_eqI) (simp add: bit_ucast_iff bit_drop_bit_eq bit_unpack_le)
  ultimately show ?thesis
    by (simp add: bs pack_le_def)
qed

lemma unpack_le_inj: "length xs = 2 \<Longrightarrow> length ys = 2 \<Longrightarrow> unpack_le xs = unpack_le ys \<longleftrightarrow> xs = ys"
  by (metis pack_unpack_le)

text \<open>Eight steps on a register whose low byte is clear only shift it.\<close>

lemma crc_bit_shift: "\<not> bit c 0 \<Longrightarrow> crc_bit c = drop_bit 1 c"
  by (simp add: crc_bit_alt)

lemma crc_steps_shift:
  "(\<forall>k < n. \<not> bit c k) \<Longrightarrow> (crc_bit ^^ n) c = drop_bit n c"
proof (induction n)
  case (Suc n)
  then have "(crc_bit ^^ n) c = drop_bit n c" and "\<not> bit c n"
    by simp_all
  then have "\<not> bit ((crc_bit ^^ n) c) 0"
    by (simp add: bit_drop_bit_eq)
  then show ?case
    using \<open>(crc_bit ^^ n) c = drop_bit n c\<close> by (simp add: crc_bit_shift)
qed simp

lemma crc_byte_absorb: "crc_byte c (ucast c) = drop_bit 8 c"
proof -
  have "\<forall>k < 8. \<not> bit (c XOR ucast (ucast c :: byte)) k"
    by (simp add: bit_xor_iff bit_ucast_iff)
  then have "crc_byte c (ucast c) = drop_bit 8 (c XOR ucast (ucast c :: byte))"
    by (simp add: crc_byte_def crc_steps_shift)
  also have "\<dots> = drop_bit 8 c"
    by (rule bit_eqI) (auto simp: bit_drop_bit_eq bit_xor_iff bit_ucast_iff dest: bit_byte_bound)
  finally show ?thesis .
qed

lemma ucast_drop8: "ucast (ucast (drop_bit 8 c) :: byte) = drop_bit 8 (c :: crc_reg)"
  by (rule bit_eqI) (auto simp: bit_ucast_iff bit_drop_bit_eq dest: bit_imp_le_length)

lemma crc_run_pack: "crc_run c (pack_le c) = 0"
proof -
  have "crc_run c (pack_le c) = crc_byte (drop_bit 8 c) (ucast (drop_bit 8 c))"
    by (simp add: pack_le_def crc_run_simps crc_byte_absorb)
  also have "\<dots> = 0"
    by (simp add: crc_byte_def ucast_drop8 crc_step8.zero)
  finally show ?thesis .
qed

lemma crc_run_two_zero:
  assumes "length t = 2"
  shows "crc_run c t = 0 \<longleftrightarrow> t = pack_le c"
proof
  assume z: "crc_run c t = 0"
  define d where "d = unpack_le t"
  have t: "t = pack_le d"
    using assms by (simp add: d_def pack_unpack_le)
  have "crc_run c t = crc_run d t"
    using z crc_run_pack [of d] t by simp
  then have "c = d"
    by (simp only: crc_run_inj)
  then show "t = pack_le c"
    using t by simp
qed (simp add: crc_run_pack)

lemma crc_ok_residue:
  assumes "2 \<le> length frame"
  shows "crc_ok frame \<longleftrightarrow> crc_run 0xFFFF frame = 0"
proof -
  have "crc_run 0xFFFF frame = crc_run (crc_run 0xFFFF (but2 frame)) (last2 frame)"
    by (simp only: but2_last2 crc_run_append [symmetric])
  then show ?thesis
    unfolding crc_ok_def crc16_def
    by (simp only: crc_run_two_zero [OF length_last2 [OF assms]])
      (rule eq_commute)
qed

lemma crc_ok_append [wire_simps]: "crc_ok (data @ crc16 data)"
  by (simp add: crc_ok_def wire_simps)

lemma crc_ok_iff_append: "crc_ok frame \<longleftrightarrow> but2 frame @ crc16 (but2 frame) = frame"
proof -
  have "but2 frame @ crc16 (but2 frame) = frame \<longleftrightarrow>
      but2 frame @ crc16 (but2 frame) = but2 frame @ last2 frame"
    by (simp only: but2_last2)
  then show ?thesis
    by (simp add: crc_ok_def)
qed

lemma verify_crc_iff: "verify_crc frame \<longleftrightarrow> 4 \<le> length frame \<and> crc_ok frame"
proof (cases "length frame < 4")
  case False
  have "c = unpack_le (last2 frame) \<longleftrightarrow> pack_le c = last2 frame" for c
    using False pack_unpack_le [OF length_last2, of frame] by (auto dest: arg_cong [of _ _ unpack_le])
  with False show ?thesis
    by (simp add: verify_crc_def crc_ok_def crc16_def crc16_modbus_run)
qed (simp add: verify_crc_def)

text \<open>Evaluation of checksums on concrete frames by the simplifier.\<close>

lemma crc_byte_unfold:
  "crc_byte c b =
     crc_bit (crc_bit (crc_bit (crc_bit (crc_bit (crc_bit (crc_bit (crc_bit (c XOR ucast b))))))))"
  by (simp add: crc_byte_def eval_nat_numeral)

lemmas crc_eval =
  crc_ok_def but2_def last2_def crc16_def crc_run_simps crc_byte_unfold crc_bit_def pack_le_def

section \<open>Error detection\<close>

text \<open>An error pattern is XORed onto a frame. It is a burst when it is zero outside two
  adjacent bytes.\<close>

definition corrupt :: "bytes \<Rightarrow> bytes \<Rightarrow> bytes" where
  "corrupt frame e = map2 (XOR) frame e"

lemma crc_run_zeros: "crc_run 0 (replicate n 0) = 0"
  by (induction n) (simp_all add: crc_run_simps crc_byte_def crc_step8.zero)

lemma crc_run_two_nonzero: "[x, y] \<noteq> [0, 0] \<Longrightarrow> crc_run 0 [x, y] \<noteq> 0"
  using crc_run_two_zero [of "[x, y]" 0] by (auto simp: pack_le_def)

lemma crc_run_burst:
  assumes "x \<noteq> 0 \<or> y \<noteq> 0"
  shows "crc_run 0 (replicate m 0 @ [x, y] @ replicate n 0) \<noteq> 0"
proof -
  have "crc_run 0 (replicate m 0 @ [x, y] @ replicate n 0)
      = crc_run (crc_run 0 [x, y]) (replicate n 0)"
    by (simp only: crc_run_append crc_run_zeros)
  moreover have "crc_run 0 [x, y] \<noteq> 0"
    using assms crc_run_two_nonzero by simp
  ultimately show ?thesis
    using crc_run_inj [of "crc_run 0 [x, y]" "replicate n 0" 0] by (simp add: crc_run_zeros)
qed

lemma burst_breaks_crc:
  assumes "crc_ok frame" and "length frame = m + 2 + n" and "x \<noteq> 0 \<or> y \<noteq> 0"
  shows "\<not> crc_ok (corrupt frame (replicate m 0 @ [x, y] @ replicate n 0))"
proof -
  let ?e = "replicate m 0 @ [x, y] @ replicate n 0"
  have len: "length frame = length ?e"
    using assms(2) by simp
  then have "crc_run (0xFFFF XOR 0) (corrupt frame ?e) = crc_run 0xFFFF frame XOR crc_run 0 ?e"
    unfolding corrupt_def by (rule crc_run_xor)
  moreover have "crc_run 0xFFFF frame = 0"
    using assms(1,2) by (simp add: crc_ok_residue)
  ultimately have "crc_run 0xFFFF (corrupt frame ?e) \<noteq> 0"
    using crc_run_burst [OF assms(3)] by simp
  then show ?thesis
    using len by (simp add: crc_ok_residue corrupt_def)
qed

text \<open>The two checksum routines of the program agree: the register computed by the BMS
  module's loop, packed low byte first, is the inverter module's CRC on every byte string.\<close>

theorem crc_implementations_agree: "pack_le (crc16_modbus data) = crc16 data"
  by (simp add: crc16_modbus_run crc16_def)

text \<open>C36. Error detection. If a frame passes the check and an error hits any two adjacent
  bytes of it (any non-zero pattern, the checksum bytes included), the damaged frame fails it:
  no such corruption is ever taken for data.\<close>

theorem crc_detects_burst:
  assumes "crc_ok frame" and "length frame = m + 2 + n" and "x \<noteq> 0 \<or> y \<noteq> 0"
  shows "\<not> crc_ok (corrupt frame (replicate m 0 @ [x, y] @ replicate n 0))"
  using assms by (rule burst_breaks_crc)

theorem crc_detects_burst_witness:
  "crc_ok [0x01, 0x83, 0x02, 0xC0, 0xF1]
   \<and> \<not> crc_ok (corrupt [0x01, 0x83, 0x02, 0xC0, 0xF1] (replicate 1 0 @ [0x00, 0x05] @ replicate 2 0))"
proof -
  have ok: "crc_ok [0x01, 0x83, 0x02, 0xC0, 0xF1]"
    by (simp add: crc_eval)
  show ?thesis
    using ok crc_detects_burst [OF ok, of 1 2 "0x00" "0x05"] by simp
qed

end
