(* ===== verification/Modbus.thy ===== *)
theory Modbus
  imports Crc16
begin

text \<open>
  Modbus RTU framing, \<open>inverter_bridge/modbus.py\<close>: the request builder, the response parser with
  every error branch, and the exception class. Python integers are \<open>int\<close>, a byte string is a
  list of 8-bit words. \<open>encode_response\<close> and \<open>encode_exception\<close> say what a slave puts on the
  wire; the parser is shown to accept exactly those encodings.
\<close>

definition FC_READ_HOLDING :: int where
  "FC_READ_HOLDING = 0x03"

definition EXCEPTION_BIT :: int where
  "EXCEPTION_BIT = 0x80"

record modbus_frame =
  mf_slave :: int
  mf_func :: int
  mf_regs :: "int list"

text \<open>The \<open>ValueError\<close>s of the module, one constructor per raise, and \<open>ModbusException\<close> with
  its three fields.\<close>

datatype value_error =
    CountOutOfRange int
  | AddrOutOfRange int
  | SlaveNotAByte int
  | FrameTooShort nat
  | WrongSlave int int
  | CrcMismatchException
  | UnexpectedFunction int
  | ByteCountMismatch int int
  | FrameTruncated nat int
  | CrcMismatchResponse

datatype modbus_error =
    ValueError value_error
  | ModbusException (exc_slave: int) (exc_func: int) (exc_excode: int)

definition EXCODES :: "(int, string) dict" where
  "EXCODES =
     [(0x01, ''illegal_function''),
      (0x02, ''illegal_data_address''),
      (0x03, ''illegal_data_value''),
      (0x04, ''slave_device_failure''),
      (0x05, ''acknowledge''),
      (0x06, ''slave_device_busy'')]"

section \<open>Requests\<close>

definition build_read_holding_request :: "int \<Rightarrow> int \<Rightarrow> int \<Rightarrow> modbus_error + bytes" where
  "build_read_holding_request slave addr count =
     (if \<not> (1 \<le> count \<and> count \<le> 125) then Inl (ValueError (CountOutOfRange count))
      else if \<not> (0 \<le> addr \<and> addr \<le> 0xFFFF) then Inl (ValueError (AddrOutOfRange addr))
      else if \<not> (0 \<le> slave \<and> slave \<le> 255) then Inl (ValueError (SlaveNotAByte slave))
      else
        let req = [word_of_int slave, word_of_int FC_READ_HOLDING,
                   hi8 addr, lo8 addr, hi8 count, lo8 count]
        in Inr (req @ crc16 req))"

section \<open>Responses\<close>

definition parse_response :: "bytes \<Rightarrow> int \<Rightarrow> int \<Rightarrow> modbus_error + modbus_frame" where
  "parse_response buf expected_slave expected_count =
     (if length buf < 5 then Inl (ValueError (FrameTooShort (length buf)))
      else
        let slave = uint (buf ! 0) in
        if slave \<noteq> expected_slave then Inl (ValueError (WrongSlave slave expected_slave))
        else
          let func = uint (buf ! 1) in
          if func AND EXCEPTION_BIT \<noteq> 0 then
            let frame = take 5 buf in
            if crc16 (but2 frame) \<noteq> last2 frame then Inl (ValueError CrcMismatchException)
            else Inl (ModbusException slave (func AND 0x7F) (uint (frame ! 2)))
          else if func \<noteq> FC_READ_HOLDING then Inl (ValueError (UnexpectedFunction func))
          else
            let bc = uint (buf ! 2) in
            if bc \<noteq> 2 * expected_count then
              Inl (ValueError (ByteCountMismatch bc (2 * expected_count)))
            else
              let expected_len = 5 + bc in
              if int (length buf) < expected_len then
                Inl (ValueError (FrameTruncated (length buf) expected_len))
              else
                let frame = take (nat expected_len) buf in
                if crc16 (but2 frame) \<noteq> last2 frame then Inl (ValueError CrcMismatchResponse)
                else
                  let body = pyslice 3 (3 + nat bc) frame in
                  Inr \<lparr>mf_slave = slave, mf_func = func, mf_regs = regs_of body\<rparr>)"

section \<open>What a slave sends\<close>

definition sealed :: "bytes \<Rightarrow> bytes" where
  "sealed body = body @ crc16 body"

definition encode_response :: "int \<Rightarrow> int list \<Rightarrow> bytes" where
  "encode_response slave regs =
     sealed ([word_of_int slave, 0x03, word_of_int (2 * int (length regs))] @ bytes_of regs)"

definition encode_exception :: "int \<Rightarrow> int \<Rightarrow> int \<Rightarrow> bytes" where
  "encode_exception slave func excode =
     sealed [word_of_int slave, word_of_int (128 + func), word_of_int excode]"

definition is_byte :: "int \<Rightarrow> bool" where
  "is_byte v \<longleftrightarrow> 0 \<le> v \<and> v < 256"

lemma is_byte_uint: "is_byte (uint (b :: byte))"
  using uint_byte_lt [of b] uint_byte_ge [of b] by (simp add: is_byte_def)

lemma uint_byte_of_int [wire_simps]: "is_byte v \<Longrightarrow> uint (word_of_int v :: byte) = v"
  by (simp add: is_byte_def uint_word_of_int)

lemma length_sealed [wire_simps]: "length (sealed body) = length body + 2"
  by (simp add: sealed_def)

lemma crc_ok_sealed [wire_simps]: "crc_ok (sealed body)"
  by (simp add: sealed_def crc_ok_append)

lemma sealed_prefix: "j \<le> length body \<Longrightarrow> pyslice i j (sealed body @ rest) = pyslice i j body"
  by (simp add: sealed_def slice_prefix)

lemma sealed_nth: "i < length body \<Longrightarrow> (sealed body @ rest) ! i = body ! i"
  by (simp add: sealed_def nth_append)

lemma crc_ok_is_sealed: "crc_ok frame \<Longrightarrow> frame = sealed (but2 frame)"
  by (simp add: sealed_def crc_ok_iff_append)

lemma length_encode_response [wire_simps]: "length (encode_response s regs) = 5 + 2 * length regs"
  by (simp add: encode_response_def wire_simps)

lemma length_encode_exception [wire_simps]: "length (encode_exception s f x) = 5"
  by (simp add: encode_exception_def wire_simps)

lemma encode_response_nth:
  "(encode_response s regs @ rest) ! 0 = word_of_int s"
  "(encode_response s regs @ rest) ! 1 = 0x03"
  "(encode_response s regs @ rest) ! 2 = word_of_int (2 * int (length regs))"
  unfolding encode_response_def by (subst sealed_nth; simp)+

lemma encode_response_body:
  assumes "reg_range regs"
  shows "regs_of (pyslice 3 (3 + 2 * length regs) (encode_response s regs @ rest)) = regs"
proof -
  let ?h = "[word_of_int s, 0x03, word_of_int (2 * int (length regs))] :: bytes"
  have "pyslice 3 (3 + 2 * length regs) (encode_response s regs @ rest) = bytes_of regs"
    unfolding encode_response_def by (subst sealed_prefix) (simp_all add: wire_simps pyslice_def)
  then show ?thesis
    using assms by (simp add: wire_simps)
qed

lemma encode_exception_nth:
  "(encode_exception s f x @ rest) ! 0 = word_of_int s"
  "(encode_exception s f x @ rest) ! 1 = word_of_int (128 + f)"
  "(encode_exception s f x @ rest) ! 2 = word_of_int x"
  unfolding encode_exception_def by (subst sealed_nth; simp)+

lemma and_exception_bit: "0 \<le> v \<Longrightarrow> v < 256 \<Longrightarrow> v AND EXCEPTION_BIT \<noteq> 0 \<longleftrightarrow> 128 \<le> v"
proof -
  assume v: "0 \<le> v" "v < 256"
  have "v AND 128 \<noteq> 0 \<longleftrightarrow> odd (v div 128)"
    using and_exp_eq_0_iff_not_bit [of v 7] by (simp add: bit_iff_odd)
  moreover have "odd (v div 128) \<longleftrightarrow> 128 \<le> v"
  proof (cases "128 \<le> v")
    case True
    with v have "v div 128 = 1" by linarith
    with True show ?thesis by simp
  next
    case False
    with v have "v div 128 = 0" by simp
    with False show ?thesis by simp
  qed
  ultimately show ?thesis
    by (simp add: EXCEPTION_BIT_def)
qed

lemma and_7f: "(v :: int) AND 0x7F = v mod 128"
  using take_bit_eq_mask [of 7 v] by (simp add: mask_eq_exp_minus_1 take_bit_eq_mod)

section \<open>Parsing inverts encoding\<close>

lemma parse_response_encoded:
  assumes "is_byte s" and "reg_range regs" and "length regs \<le> 127"
  shows "parse_response (encode_response s regs @ rest) s (int (length regs))
     = Inr \<lparr>mf_slave = s, mf_func = FC_READ_HOLDING, mf_regs = regs\<rparr>"
proof -
  have bc: "is_byte (2 * int (length regs))"
    using assms(3) by (simp add: is_byte_def)
  let ?buf = "encode_response s regs @ rest"
  have tk: "take (5 + 2 * length regs) ?buf = encode_response s regs"
    by (simp add: wire_simps)
  have body: "regs_of (pyslice 3 (3 + 2 * length regs) (encode_response s regs)) = regs"
    using encode_response_body [OF assms(2), of s "[]"] by simp
  have ok: "crc16 (but2 (encode_response s regs)) = last2 (encode_response s regs)"
    using crc_ok_sealed unfolding encode_response_def crc_ok_def by blast
  have n: "nat (5 + 2 * int (length regs)) = 5 + 2 * length regs"
    "nat (2 * int (length regs)) = 2 * length regs"
    by simp_all
  have u: "uint (?buf ! 0) = s" "uint (?buf ! Suc 0) = 3" "uint (?buf ! 2) = 2 * int (length regs)"
    using assms(1) bc encode_response_nth [of s regs rest]
    by (simp_all only: uint_byte_of_int One_nat_def) simp
  show ?thesis
    by (simp add: parse_response_def Let_def u length_encode_response tk body ok n
        FC_READ_HOLDING_def EXCEPTION_BIT_def del: take_append)
qed

lemma parse_response_exception:
  assumes "is_byte s" and "0 \<le> f" and "f < 128" and "is_byte x"
  shows "parse_response (encode_exception s f x @ rest) s n = Inl (ModbusException s f x)"
proof -
  have f: "is_byte (128 + f)"
    using assms(2,3) by (simp add: is_byte_def)
  let ?buf = "encode_exception s f x @ rest"
  have tk: "take 5 ?buf = encode_exception s f x"
    by (simp add: wire_simps)
  have ok: "crc16 (but2 (encode_exception s f x)) = last2 (encode_exception s f x)"
    using crc_ok_sealed unfolding encode_exception_def crc_ok_def by blast
  have set: "(128 + f) AND EXCEPTION_BIT \<noteq> 0"
    using assms(2,3) by (simp add: and_exception_bit)
  have low: "(128 + f) AND 0x7F = f"
    using assms(2,3) by (simp only: and_7f) simp
  have x: "uint (encode_exception s f x ! 2) = x"
    using encode_exception_nth(3) [of s f x "[]"] assms(4) by (simp add: wire_simps)
  have u: "uint (?buf ! 0) = s" "uint (?buf ! Suc 0) = 128 + f"
    using assms(1) f encode_exception_nth [of s f x rest]
    by (simp_all only: uint_byte_of_int One_nat_def)
  show ?thesis
    by (simp add: parse_response_def Let_def u length_encode_exception x tk ok set low
        del: take_append)
qed

text \<open>A frame whose checksum is right and whose header announces its length is the encoding of
  the registers read from it.\<close>

lemma encode_of_parsed:
  assumes ok: "crc_ok frame" and len: "length frame = 5 + 2 * k"
    and h: "uint (frame ! 1) = 3" "uint (frame ! 2) = 2 * int k"
  shows "frame = encode_response (uint (frame ! 0)) (regs_of (pyslice 3 (3 + 2 * k) frame))"
proof -
  let ?body = "pyslice 3 (3 + 2 * k) frame"
  have lb: "length ?body = 2 * k"
    using len by (simp add: wire_simps)
  have b1: "frame ! 1 = 0x03" and b2: "frame ! 2 = word_of_int (2 * int k)"
    by (rule word_uint_eqI, simp add: h(1) [unfolded One_nat_def])
      (simp only: h(2) [symmetric] word_of_int_uint)
  have "but2 frame = take 3 frame @ ?body"
    using len by (simp add: but2_def pyslice_def take_add)
  moreover have "take 3 frame = [frame ! 0, frame ! 1, frame ! 2]"
    using len by (intro take_3) simp
  moreover have "bytes_of (regs_of ?body) = ?body"
    by (rule bytes_of_regs_of) (simp add: lb)
  moreover have "length (regs_of ?body) = k"
    by (simp add: wire_simps lb [unfolded length_pyslice] len)
  ultimately have "but2 frame = [word_of_int (uint (frame ! 0)), 0x03,
      word_of_int (2 * int (length (regs_of ?body)))] @ bytes_of (regs_of ?body)"
    using b1 b2 by simp
  then show ?thesis
    using crc_ok_is_sealed [OF ok] by (simp add: encode_response_def)
qed

section \<open>The parser accepts exactly the encodings\<close>

lemma parse_response_InrD:
  assumes "parse_response buf s n = Inr f"
  shows "\<exists>regs rest. buf = encode_response s regs @ rest \<and> is_byte s \<and> reg_range regs
     \<and> length regs \<le> 127 \<and> n = int (length regs)
     \<and> f = \<lparr>mf_slave = s, mf_func = FC_READ_HOLDING, mf_regs = regs\<rparr>"
proof -
  let ?frame = "take (nat (5 + uint (buf ! 2))) buf"
  define k where "k = nat n"
  from assms have len: "5 \<le> length buf" and s: "s = uint (buf ! 0)"
    and fc: "uint (buf ! 1) = 3" and bc: "uint (buf ! 2) = 2 * n"
    and long: "5 + uint (buf ! 2) \<le> int (length buf)"
    and ok: "crc16 (but2 ?frame) = last2 ?frame"
    and f: "f = \<lparr>mf_slave = s, mf_func = FC_READ_HOLDING,
       mf_regs = regs_of (pyslice 3 (3 + nat (2 * n)) (take (nat (5 + 2 * n)) buf))\<rparr>"
    by (auto simp: parse_response_def Let_def FC_READ_HOLDING_def split: if_splits)
  have n: "n = int k" and bc': "uint (buf ! 2) = 2 * int k"
    using bc uint_byte_ge [of "buf ! 2"] by (simp_all add: k_def)
  have nn: "nat (5 + 2 * int k) = 5 + 2 * k" and lk: "5 + 2 * k \<le> length buf"
    using long by (simp_all add: bc')
  then have fr: "?frame = take (5 + 2 * k) buf"
    and lf: "length (take (5 + 2 * k) buf) = 5 + 2 * k"
    by (simp_all add: bc')
  let ?regs = "regs_of (pyslice 3 (3 + 2 * k) (take (5 + 2 * k) buf))"
  have "take (5 + 2 * k) buf = encode_response (uint (take (5 + 2 * k) buf ! 0)) ?regs"
    using ok fc bc' by (intro encode_of_parsed) (simp_all add: crc_ok_def nn lk)
  then have "buf = encode_response s ?regs @ drop (5 + 2 * k) buf"
    by (metis append_take_drop_id nth_take s add_gr_0 zero_less_numeral)
  moreover have "length ?regs = k"
    using lf by (simp add: wire_simps)
  moreover have "k \<le> 127"
    using bc' uint_byte_lt [of "buf ! 2"] by simp
  ultimately show ?thesis
    using f n s fr bc' is_byte_uint reg_range_regs_of
    by (intro exI [of _ ?regs] exI [of _ "drop (5 + 2 * k) buf"])
      (simp add: nat_mult_distrib)
qed

lemma parse_response_exceptionD:
  assumes "parse_response buf s n = Inl (ModbusException s' f x)"
  shows "s' = s \<and> is_byte s \<and> 0 \<le> f \<and> f < 128 \<and> is_byte x
     \<and> (\<exists>rest. buf = encode_exception s f x @ rest)"
proof -
  let ?frame = "take 5 buf"
  from assms have len: "5 \<le> length buf" and s: "s = uint (buf ! 0)" "s' = s"
    and func: "uint (buf ! 1) AND EXCEPTION_BIT \<noteq> 0" "f = uint (buf ! 1) AND 0x7F"
    and x: "x = uint (?frame ! 2)"
    and ok: "crc16 (but2 ?frame) = last2 ?frame"
    by (auto simp: parse_response_def Let_def split: if_splits)
  have f: "uint (buf ! 1) = 128 + f" "0 \<le> f" "f < 128"
  proof -
    define y where "y = uint (buf ! 1) - 128"
    have y: "uint (buf ! 1) = 128 + y" "0 \<le> y" "y < 128"
      using func(1) uint_byte_lt [of "buf ! 1"] by (simp_all add: and_exception_bit y_def)
    moreover from y have "f = y"
      unfolding func(2) y(1) and_7f by simp
    ultimately show "uint (buf ! 1) = 128 + f" "0 \<le> f" "f < 128"
      by simp_all
  qed
  have "but2 ?frame = take 3 ?frame"
    using len by (simp add: but2_def)
  also have "\<dots> = [buf ! 0, buf ! 1, buf ! 2]"
    using len by (subst take_3) simp_all
  finally have b: "but2 ?frame = [buf ! 0, buf ! 1, buf ! 2]" .
  have "buf ! 0 = word_of_int s" "buf ! 1 = word_of_int (128 + f)"
    by (simp_all only: s(1) f(1) [symmetric] word_of_int_uint)
  moreover have "buf ! 2 = word_of_int x"
    by (simp add: x)
  ultimately have "but2 ?frame = [word_of_int s, word_of_int (128 + f), word_of_int x]"
    using b by simp
  then have "?frame = encode_exception s f x"
    using crc_ok_is_sealed [of ?frame] ok by (simp add: crc_ok_def encode_exception_def)
  then have "buf = encode_exception s f x @ drop 5 buf"
    by (metis append_take_drop_id)
  then show ?thesis
    using s x f is_byte_uint by blast
qed

section \<open>Properties\<close>

text \<open>C4. The response parser is exact: it returns a frame precisely when the buffer starts with
  the encoding of that frame for the expected slave and the expected number of registers (any
  bytes may follow), and the frame it returns holds those registers.\<close>

theorem modbus_parse_exact:
  "parse_response buf s n = Inr f \<longleftrightarrow>
     (\<exists>regs rest. buf = encode_response s regs @ rest \<and> is_byte s \<and> reg_range regs
        \<and> length regs \<le> 127 \<and> n = int (length regs)
        \<and> f = \<lparr>mf_slave = s, mf_func = FC_READ_HOLDING, mf_regs = regs\<rparr>)"
  using parse_response_InrD parse_response_encoded by blast

text \<open>The exception branch is exact too: \<open>ModbusException\<close> is raised precisely when the buffer
  starts with a well-formed exception frame of the expected slave, and it carries that frame's
  function (without the marker bit) and exception code.\<close>

theorem modbus_exception_exact:
  "parse_response buf s n = Inl (ModbusException s' f x) \<longleftrightarrow>
     s' = s \<and> is_byte s \<and> 0 \<le> f \<and> f < 128 \<and> is_byte x
     \<and> (\<exists>rest. buf = encode_exception s f x @ rest)"
  using parse_response_exceptionD parse_response_exception by blast

text \<open>A response that line noise damages in at most two adjacent bytes is never returned as
  data, whichever bytes are hit: header, registers or checksum.\<close>

theorem corrupted_response_rejected:
  assumes "reg_range regs" and "5 + 2 * length regs = m + 2 + k" and "x \<noteq> 0 \<or> y \<noteq> 0"
  shows "\<nexists>f. parse_response
     (corrupt (encode_response s regs) (replicate m 0 @ [x, y] @ replicate k 0))
     s (int (length regs)) = Inr f"
proof
  let ?buf = "corrupt (encode_response s regs) (replicate m 0 @ [x, y] @ replicate k 0)"
  assume "\<exists>f. parse_response ?buf s (int (length regs)) = Inr f"
  then obtain regs' rest where buf: "?buf = encode_response s regs' @ rest"
    and len: "length regs' = length regs"
    using parse_response_InrD by fastforce
  have "length ?buf = 5 + 2 * length regs"
    using assms(2) by (simp add: corrupt_def wire_simps)
  then have "rest = []"
    using arg_cong [OF buf, of length] len by (simp add: wire_simps)
  then have "crc_ok ?buf"
    using buf by (simp add: encode_response_def wire_simps)
  moreover have "\<not> crc_ok ?buf"
    using assms(2,3) by (intro burst_breaks_crc) (simp_all add: encode_response_def wire_simps)
  ultimately show False by simp
qed

theorem corrupted_response_rejected_witness:
  "\<nexists>f. parse_response
     (corrupt (encode_response 1 [0x22, 530]) (replicate 4 0 @ [0x01, 0x80] @ replicate 3 0))
     1 (int (length [0x22, 530 :: int])) = Inr f"
proof -
  have r: "reg_range [0x22, 530]"
    by (simp add: reg_range_def)
  show ?thesis
    by (rule corrupted_response_rejected [OF r]) simp_all
qed

text \<open>A request that is built is eight bytes long, carries a right checksum, and names exactly
  the slave, the function code, the address and the count it was built for; arguments out of
  range are refused with the error of their check, in the code's order.\<close>

theorem request_faithful:
  "case build_read_holding_request slave addr count of
     Inr req \<Rightarrow> length req = 8 \<and> crc_ok req \<and> uint (req ! 0) = slave
       \<and> uint (req ! 1) = FC_READ_HOLDING
       \<and> be16 (req ! 2) (req ! 3) = addr \<and> be16 (req ! 4) (req ! 5) = count
       \<and> 1 \<le> count \<and> count \<le> 125
   | Inl e \<Rightarrow> e = ValueError (if count < 1 \<or> 125 < count then CountOutOfRange count
       else if addr < 0 \<or> 0xFFFF < addr then AddrOutOfRange addr else SlaveNotAByte slave)"
  by (auto simp: build_read_holding_request_def Let_def crc_ok_def but2_def last2_def
      nth_append FC_READ_HOLDING_def uint_byte_of_int is_byte_def be16_hi8_lo8)

end
