(* ===== verification/Serial_Stream.thy ===== *)
theory Serial_Stream
  imports Modbus
begin

text \<open>
  The noise-tolerant stream parser and the response selection of \<open>inverter_bridge/serial_io.py\<close>,
  and \<open>SerialPort.query\<close> over the chunks the port delivers. The index \<open>i\<close> of the Python loops is
  the remaining suffix \<open>stream[i:]\<close>: \<open>i < n - 4\<close> is \<open>4 < length s\<close> and \<open>i + k <= n\<close> is
  \<open>k \<le> length s\<close>. The callback \<open>on_crc_error\<close> takes no argument and its only effect in the
  program is to count, so each walk returns the number of its calls beside its result.
\<close>

section \<open>The two walks\<close>

lemma drop_measure: "\<not> \<not> 4 < length s \<Longrightarrow> 0 < k \<Longrightarrow> (drop k s, s) \<in> measure length"
  by simp

lemma drop_measure3:
  "\<not> \<not> 4 < length s \<Longrightarrow> 0 < k \<Longrightarrow> ((a, b, drop k s), (c, d, s)) \<in> measure (\<lambda>(_, _, s). length s)"
  by simp

function parse_frame_stream :: "bytes \<Rightarrow> modbus_frame list \<times> nat" where
  "parse_frame_stream s =
     (if \<not> 4 < length s then ([], 0)
      else
        let slave = uint (s ! 0); func = uint (s ! 1) in
        if \<not> (1 \<le> slave \<and> slave \<le> 0xF7) then parse_frame_stream (drop 1 s)
        else
          let bc = uint (s ! 2); total = 5 + nat bc;
              plausible = (func = FC_READ_HOLDING \<and> 5 \<le> length s
                \<and> 2 \<le> bc \<and> bc \<le> 250 \<and> bc mod 2 = 0 \<and> total \<le> length s);
              frame_bytes = take total s in
          if plausible \<and> crc16 (but2 frame_bytes) = last2 frame_bytes then
            (let body = pyslice 3 (3 + nat bc) frame_bytes;
                 f = \<lparr>mf_slave = slave, mf_func = func, mf_regs = regs_of body\<rparr>;
                 (frames, errs) = parse_frame_stream (drop total s)
             in (f # frames, errs))
          else
            let is_valid_request = (8 \<le> length s \<and> crc16 (take 6 s) = pyslice 6 8 s);
                err = (if plausible \<and> \<not> is_valid_request then 1 else 0)
            in
            if func = FC_READ_HOLDING \<and> 8 \<le> length s
               \<and> crc16 (but2 (take 8 s)) = last2 (take 8 s) then
              (let (frames, errs) = parse_frame_stream (drop 8 s) in (frames, err + errs))
            else if func AND 0x80 \<noteq> 0 \<and> 5 \<le> length s
               \<and> crc16 (but2 (take 5 s)) = last2 (take 5 s) then
              (let (frames, errs) = parse_frame_stream (drop 5 s) in (frames, err + errs))
            else
              (let (frames, errs) = parse_frame_stream (drop 1 s) in (frames, err + errs)))"
  by pat_completeness auto
termination
  by (relation "measure length") (simp, (rule drop_measure, assumption, simp)+)

declare parse_frame_stream.simps [simp del]

text \<open>\<open>pa\<close> and \<open>ps\<close> are \<open>pending_addr\<close> and \<open>pending_slave\<close>, with \<open>None\<close> as Python's.\<close>

function responses_walk ::
  "int option \<Rightarrow> int option \<Rightarrow> bytes \<Rightarrow> (modbus_frame \<times> int option) list \<times> nat" where
  "responses_walk pa ps s =
     (if \<not> 4 < length s then ([], 0)
      else
        let slave = uint (s ! 0); func = uint (s ! 1) in
        if \<not> (1 \<le> slave \<and> slave \<le> 0xF7) then responses_walk pa ps (drop 1 s)
        else
          let bc = uint (s ! 2); total = 5 + nat bc;
              plausible = (func = FC_READ_HOLDING \<and> 5 \<le> length s
                \<and> 2 \<le> bc \<and> bc \<le> 250 \<and> bc mod 2 = 0 \<and> total \<le> length s);
              frame_bytes = take total s in
          if plausible \<and> crc16 (but2 frame_bytes) = last2 frame_bytes then
            (let body = pyslice 3 (3 + nat bc) frame_bytes;
                 ctx = (if ps = Some slave then pa else None);
                 f = \<lparr>mf_slave = slave, mf_func = func, mf_regs = regs_of body\<rparr>;
                 (out, errs) = responses_walk None None (drop total s)
             in ((f, ctx) # out, errs))
          else
            let is_valid_request = (8 \<le> length s \<and> crc16 (take 6 s) = pyslice 6 8 s);
                err = (if plausible \<and> \<not> is_valid_request then 1 else 0)
            in
            if func = FC_READ_HOLDING \<and> 8 \<le> length s
               \<and> crc16 (but2 (take 8 s)) = last2 (take 8 s) then
              (let (out, errs) = responses_walk (Some (be16 (s ! 2) (s ! 3))) (Some slave) (drop 8 s)
               in (out, err + errs))
            else if func AND 0x80 \<noteq> 0 \<and> 5 \<le> length s
               \<and> crc16 (but2 (take 5 s)) = last2 (take 5 s) then
              (let (out, errs) = responses_walk pa ps (drop 5 s) in (out, err + errs))
            else
              (let (out, errs) = responses_walk pa ps (drop 1 s) in (out, err + errs)))"
  by pat_completeness auto
termination
  by (relation "measure (\<lambda>(_, _, s). length s)") (simp, (rule drop_measure3, assumption, simp)+)

declare responses_walk.simps [simp del]

definition responses_with_context :: "bytes \<Rightarrow> (modbus_frame \<times> int option) list \<times> nat" where
  "responses_with_context stream = responses_walk None None stream"

section \<open>Selecting the response\<close>

fun first_match ::
  "(modbus_frame \<times> int option \<Rightarrow> bool) \<Rightarrow> (modbus_frame \<times> int option) list \<Rightarrow> modbus_frame option" where
  "first_match P [] = None"
| "first_match P (p # ps) = (if P p then Some (fst p) else first_match P ps)"

text \<open>\<open>f.slave == slave and len(f.regs) == count\<close>.\<close>

definition mine :: "int \<Rightarrow> int \<Rightarrow> modbus_frame \<Rightarrow> bool" where
  "mine slave count f \<longleftrightarrow> mf_slave f = slave \<and> int (length (mf_regs f)) = count"

definition select_response :: "bytes \<Rightarrow> int \<Rightarrow> int \<Rightarrow> int \<Rightarrow> modbus_frame option \<times> nat" where
  "select_response stream slave addr count =
     (let paired = fst (responses_with_context stream);
          errs = snd (responses_with_context stream)
      in (case first_match (\<lambda>p. mine slave count (fst p) \<and> snd p = Some addr) paired of
            Some f \<Rightarrow> Some f
          | None \<Rightarrow>
             (case first_match (\<lambda>p. mine slave count (fst p) \<and> snd p = None) paired of
                Some f \<Rightarrow> Some f
              | None \<Rightarrow> first_match (\<lambda>p. mine slave count (fst p)) paired), errs))"

section \<open>SerialPort.query\<close>

text \<open>\<open>buf.find(marker, i)\<close> walks the buffer; a match too close to the end stops the loop.\<close>

fun find_exception :: "bytes \<Rightarrow> int \<Rightarrow> modbus_error option" where
  "find_exception [] slave = None"
| "find_exception (b # bs) slave =
     (let s = b # bs in
      if take 2 s = [word_of_int slave, 0x83] then
        if \<not> 5 \<le> length s then None
        else
          let exc = take 5 s in
          if crc16 (but2 exc) = last2 exc then Some (ModbusException slave 0x03 (uint (exc ! 2)))
          else find_exception bs slave
      else find_exception bs slave)"

datatype query_error = QueryModbus modbus_error | QueryTimeout nat

text \<open>The read loop, over the chunks that arrive before the deadline (the list ends where the
  deadline falls; an empty chunk is a read that timed out). The number of callback calls is
  accumulated in \<open>errs\<close>.\<close>

fun query_loop ::
  "bytes \<Rightarrow> int \<Rightarrow> int \<Rightarrow> int \<Rightarrow> bytes list \<Rightarrow> nat \<Rightarrow> (query_error + modbus_frame) \<times> nat" where
  "query_loop buf slave addr count [] errs =
     (case find_exception buf slave of
        Some exc \<Rightarrow> (Inl (QueryModbus exc), errs)
      | None \<Rightarrow> (Inl (QueryTimeout (length buf)), errs))"
| "query_loop buf slave addr count (chunk # chunks) errs =
     (if chunk = [] then query_loop buf slave addr count chunks errs
      else
        let buf = buf @ chunk; (frame, e) = select_response buf slave addr count; errs = errs + e in
        case frame of
          Some f \<Rightarrow> (Inr f, errs)
        | None \<Rightarrow>
           (case find_exception buf slave of
              Some exc \<Rightarrow> (Inl (QueryModbus exc), errs)
            | None \<Rightarrow> query_loop buf slave addr count chunks errs))"

definition query :: "int \<Rightarrow> int \<Rightarrow> int \<Rightarrow> bytes list \<Rightarrow> (query_error + modbus_frame) \<times> nat" where
  "query slave addr count chunks =
     (case build_read_holding_request slave addr count of
        Inl e \<Rightarrow> (Inl (QueryModbus e), 0)
      | Inr req \<Rightarrow> query_loop [] slave addr count chunks 0)"

section \<open>What stands at the head of the stream\<close>

text \<open>The branch conditions of the walk, named, and the two walks unfolded over them.\<close>

definition slave_at :: "bytes \<Rightarrow> bool" where
  "slave_at s \<longleftrightarrow> 1 \<le> uint (s ! 0) \<and> uint (s ! 0) \<le> 247"

definition plausible_at :: "bytes \<Rightarrow> bool" where
  "plausible_at s \<longleftrightarrow> uint (s ! 1) = FC_READ_HOLDING \<and> 5 \<le> length s
     \<and> 2 \<le> uint (s ! 2) \<and> uint (s ! 2) \<le> 250 \<and> uint (s ! 2) mod 2 = 0
     \<and> 5 + nat (uint (s ! 2)) \<le> length s"

definition resp_len :: "bytes \<Rightarrow> nat" where
  "resp_len s = 5 + nat (uint (s ! 2))"

definition resp_at :: "bytes \<Rightarrow> bool" where
  "resp_at s \<longleftrightarrow> plausible_at s \<and> crc_ok (take (resp_len s) s)"

definition frame_at :: "bytes \<Rightarrow> modbus_frame" where
  "frame_at s = \<lparr>mf_slave = uint (s ! 0), mf_func = uint (s ! 1),
     mf_regs = regs_of (pyslice 3 (3 + nat (uint (s ! 2))) (take (resp_len s) s))\<rparr>"

definition req_at :: "bytes \<Rightarrow> bool" where
  "req_at s \<longleftrightarrow> uint (s ! 1) = FC_READ_HOLDING \<and> 8 \<le> length s \<and> crc_ok (take 8 s)"

definition exc_at :: "bytes \<Rightarrow> bool" where
  "exc_at s \<longleftrightarrow> uint (s ! 1) AND 0x80 \<noteq> 0 \<and> 5 \<le> length s \<and> crc_ok (take 5 s)"

definition err_at :: "bytes \<Rightarrow> nat" where
  "err_at s = (if plausible_at s \<and> \<not> (8 \<le> length s \<and> crc16 (take 6 s) = pyslice 6 8 s) then 1 else 0)"

definition skip_at :: "bytes \<Rightarrow> nat" where
  "skip_at s = (if req_at s then 8 else if exc_at s then 5 else 1)"

lemmas head_defs = slave_at_def plausible_at_def resp_len_def resp_at_def frame_at_def req_at_def
  exc_at_def err_at_def skip_at_def crc_ok_def

lemma parse_frame_stream_unfold:
  "parse_frame_stream s =
     (if \<not> 4 < length s then ([], 0)
      else if \<not> slave_at s then parse_frame_stream (drop 1 s)
      else if resp_at s then apfst ((#) (frame_at s)) (parse_frame_stream (drop (resp_len s) s))
      else apsnd ((+) (err_at s)) (parse_frame_stream (drop (skip_at s) s)))"
  unfolding head_defs parse_frame_stream.simps [of s] Let_def
  by (simp only: split_beta apfst_def apsnd_def map_prod_def id_apply if_distrib [of "\<lambda>k. drop k s"]) auto

lemma responses_walk_unfold:
  "responses_walk pa ps s =
     (if \<not> 4 < length s then ([], 0)
      else if \<not> slave_at s then responses_walk pa ps (drop 1 s)
      else if resp_at s then
        apfst ((#) (frame_at s, if ps = Some (uint (s ! 0)) then pa else None))
          (responses_walk None None (drop (resp_len s) s))
      else apsnd ((+) (err_at s))
        (responses_walk (if req_at s then Some (be16 (s ! 2) (s ! 3)) else pa)
           (if req_at s then Some (uint (s ! 0)) else ps) (drop (skip_at s) s)))"
  unfolding head_defs responses_walk.simps [of pa ps s] Let_def
  by (simp only: split_beta apfst_def apsnd_def map_prod_def id_apply if_distrib [of "\<lambda>k. drop k s"]) auto

lemma walk_induct [consumes 0, case_names short noslave resp other]:
  assumes "\<And>s a. \<not> 4 < length s \<Longrightarrow> P a s"
    and "\<And>s a. 4 < length s \<Longrightarrow> \<not> slave_at s \<Longrightarrow> (\<And>a. P a (drop 1 s)) \<Longrightarrow> P a s"
    and "\<And>s a. 4 < length s \<Longrightarrow> slave_at s \<Longrightarrow> resp_at s \<Longrightarrow> (\<And>a. P a (drop (resp_len s) s)) \<Longrightarrow> P a s"
    and "\<And>s a. 4 < length s \<Longrightarrow> slave_at s \<Longrightarrow> \<not> resp_at s \<Longrightarrow> (\<And>a. P a (drop (skip_at s) s)) \<Longrightarrow> P a s"
  shows "P a s"
proof (induction s arbitrary: a rule: measure_induct_rule [of length])
  case (less s)
  have "0 < resp_len s" and "0 < skip_at s"
    by (simp_all add: resp_len_def skip_at_def)
  then show ?case
    using less assms by (cases "4 < length s"; cases "slave_at s"; cases "resp_at s") simp_all
qed

lemma walks_agree:
  "parse_frame_stream s = apfst (map fst) (responses_walk (fst a) (snd a) s)"
proof (induction a s rule: walk_induct)
  case (short s a)
  then show ?case
    by (simp add: parse_frame_stream_unfold [of s] responses_walk_unfold [of "fst a" "snd a" s])
next
  case (noslave s a)
  then show ?case
    by (simp add: parse_frame_stream_unfold [of s] responses_walk_unfold [of "fst a" "snd a" s])
next
  case (resp s a)
  have "parse_frame_stream (drop (resp_len s) s)
      = apfst (map fst) (responses_walk None None (drop (resp_len s) s))"
    using resp(4) [of "(None, None)"] by simp
  with resp(1-3) show ?case
    by (simp add: parse_frame_stream_unfold [of s] responses_walk_unfold [of "fst a" "snd a" s]
        apfst_def map_prod_def split_beta)
next
  case (other s a)
  let ?pa = "if req_at s then Some (be16 (s ! 2) (s ! 3)) else fst a"
  let ?ps = "if req_at s then Some (uint (s ! 0)) else snd a"
  have "parse_frame_stream (drop (skip_at s) s)
      = apfst (map fst) (responses_walk ?pa ?ps (drop (skip_at s) s))"
    using other(4) [of "(?pa, ?ps)"] by simp
  with other(1-3) show ?case
    by (simp add: parse_frame_stream_unfold [of s] responses_walk_unfold [of "fst a" "snd a" s]
        apfst_def apsnd_def map_prod_def split_beta)
qed

section \<open>Frames and encodings\<close>

text \<open>A response stands at the head exactly when the stream starts with an encoding.\<close>

definition good_response :: "int \<Rightarrow> int list \<Rightarrow> bool" where
  "good_response slave regs \<longleftrightarrow> 1 \<le> slave \<and> slave \<le> 247 \<and> reg_range regs
     \<and> 1 \<le> length regs \<and> length regs \<le> 125"

definition encode_frame :: "modbus_frame \<Rightarrow> bytes" where
  "encode_frame f = encode_response (mf_slave f) (mf_regs f)"

definition good_frame :: "modbus_frame \<Rightarrow> bool" where
  "good_frame f \<longleftrightarrow> mf_func f = FC_READ_HOLDING \<and> good_response (mf_slave f) (mf_regs f)"

lemma good_response_byte: "good_response s regs \<Longrightarrow> is_byte s"
  by (simp add: good_response_def is_byte_def)

lemma resp_at_encoded:
  assumes "slave_at s" and "resp_at s"
  shows "s = encode_frame (frame_at s) @ drop (resp_len s) s" and "good_frame (frame_at s)"
proof -
  define v where "v = uint (s ! 2)"
  define k where "k = nat (v div 2)"
  have v: "2 \<le> v" "v \<le> 250" "v mod 2 = 0"
    using assms(2) by (simp_all add: resp_at_def plausible_at_def v_def)
  then have vk: "v = 2 * int k"
    by (simp add: k_def) presburger
  with v have k: "1 \<le> k" "k \<le> 125" and bc: "uint (s ! 2) = 2 * int k"
    by (simp_all add: v_def)
  have len: "5 + 2 * k \<le> length s" and rl: "resp_len s = 5 + 2 * k"
    using assms(2) by (simp_all add: resp_at_def plausible_at_def resp_len_def bc nat_mult_distrib)
  let ?frame = "take (5 + 2 * k) s"
  let ?regs = "regs_of (pyslice 3 (3 + 2 * k) ?frame)"
  have "?frame = encode_response (uint (?frame ! 0)) ?regs"
    using assms(2) by (intro encode_of_parsed)
      (simp_all add: resp_at_def plausible_at_def rl bc FC_READ_HOLDING_def len)
  moreover have regs: "mf_regs (frame_at s) = ?regs" "mf_slave (frame_at s) = uint (s ! 0)"
    by (simp_all add: frame_at_def rl bc nat_mult_distrib)
  ultimately have "?frame = encode_frame (frame_at s)"
    by (simp add: encode_frame_def)
  then show "s = encode_frame (frame_at s) @ drop (resp_len s) s"
    by (metis append_take_drop_id rl)
  have "length ?regs = k"
    using len by (simp add: wire_simps)
  then show "good_frame (frame_at s)"
    using assms k reg_range_regs_of
    by (simp add: good_frame_def good_response_def regs slave_at_def)
      (simp add: frame_at_def resp_at_def plausible_at_def)
qed

lemma encoded_resp_at:
  assumes "good_response a regs" and s_def: "s = encode_response a regs @ rest"
  shows "4 < length s" and "slave_at s" and "resp_at s" and "resp_len s = 5 + 2 * length regs"
    and "frame_at s = \<lparr>mf_slave = a, mf_func = FC_READ_HOLDING, mf_regs = regs\<rparr>"
    and "drop (resp_len s) s = rest"
proof -
  have bc: "is_byte (2 * int (length regs))"
    using assms(1) by (simp add: good_response_def is_byte_def)
  have u: "uint (s ! 0) = a" "uint (s ! Suc 0) = 3" "uint (s ! 2) = 2 * int (length regs)"
    using good_response_byte [OF assms(1)] bc encode_response_nth [of a regs rest]
    unfolding s_def by (simp_all only: uint_byte_of_int One_nat_def) simp
  show "4 < length s"
    by (simp add: s_def wire_simps)
  show sl: "slave_at s"
    using assms(1) by (simp add: slave_at_def u good_response_def)
  show rl: "resp_len s = 5 + 2 * length regs"
    by (simp add: resp_len_def u nat_mult_distrib)
  have tk: "take (5 + 2 * length regs) s = encode_response a regs"
    by (simp add: s_def wire_simps)
  have "crc_ok (encode_response a regs)"
    by (simp add: encode_response_def wire_simps)
  then show "resp_at s"
    using assms(1)
    by (simp add: resp_at_def plausible_at_def u rl tk FC_READ_HOLDING_def good_response_def)
      (simp add: s_def wire_simps)
  show "frame_at s = \<lparr>mf_slave = a, mf_func = FC_READ_HOLDING, mf_regs = regs\<rparr>"
    using encode_response_body [of regs a "[]"] assms(1)
    by (simp add: frame_at_def u rl tk FC_READ_HOLDING_def good_response_def nat_mult_distrib)
  show "drop (resp_len s) s = rest"
    by (simp add: rl) (simp add: s_def wire_simps)
qed

section \<open>Every frame returned was received\<close>

text \<open>\<open>carries s fs\<close>: the stream holds the encodings of \<open>fs\<close>, in this order, without overlap.\<close>

inductive carries :: "bytes \<Rightarrow> modbus_frame list \<Rightarrow> bool" where
  carries_end: "carries s []"
| carries_frame: "good_frame f \<Longrightarrow> carries rest fs \<Longrightarrow> carries (encode_frame f @ rest) (f # fs)"
| carries_skip: "carries s fs \<Longrightarrow> carries (b # s) fs"

inductive_cases carries_ConsE: "carries s (f # fs)"

lemma carries_drop: "carries (drop k s) fs \<Longrightarrow> carries s fs"
proof (induction k arbitrary: s)
  case (Suc k)
  then show ?case
    by (cases s rule: list.exhaust) (auto intro: carries_skip carries_end)
qed simp

lemma carries_mem:
  "carries s fs \<Longrightarrow> f \<in> set fs \<Longrightarrow> good_frame f \<and> (\<exists>pre post. s = pre @ encode_frame f @ post)"
proof (induction rule: carries.induct)
  case (carries_frame g rest fs)
  show ?case
  proof (cases "f = g")
    case True
    then show ?thesis
      using carries_frame.hyps(1) by (metis append_Nil)
  next
    case False
    then obtain pre post where "good_frame f" "rest = pre @ encode_frame f @ post"
      using carries_frame by auto
    then show ?thesis
      by (metis append.assoc)
  qed
next
  case (carries_skip s fs b)
  then show ?case
    by (metis append_Cons)
qed simp

lemma walk_carries: "carries s (map fst (fst (responses_walk (fst a) (snd a) s)))"
proof (induction a s rule: walk_induct)
  case (short s a)
  then show ?case
    by (simp add: responses_walk_unfold [of "fst a" "snd a" s] carries_end)
next
  case (noslave s a)
  then show ?case
    using carries_drop [OF noslave(3) [of a]]
    by (simp add: responses_walk_unfold [of "fst a" "snd a" s])
next
  case (resp s a)
  let ?fs = "map fst (fst (responses_walk None None (drop (resp_len s) s)))"
  have "carries (drop (resp_len s) s) ?fs"
    using resp(4) [of "(None, None)"] by simp
  then have "carries (encode_frame (frame_at s) @ drop (resp_len s) s) (frame_at s # ?fs)"
    using resp_at_encoded(2) [OF resp(2,3)] by (rule carries_frame [rotated])
  then have "carries s (frame_at s # ?fs)"
    using resp_at_encoded(1) [OF resp(2,3)] by (rule ssubst [rotated])
  with resp(1-3) show ?case
    by (simp add: responses_walk_unfold [of "fst a" "snd a" s])
next
  case (other s a)
  let ?pa = "if req_at s then Some (be16 (s ! 2) (s ! 3)) else fst a"
  let ?ps = "if req_at s then Some (uint (s ! 0)) else snd a"
  have "carries s (map fst (fst (responses_walk ?pa ?ps (drop (skip_at s) s))))"
    by (rule carries_drop) (use other(4) [of "(?pa, ?ps)"] in simp)
  with other(1-3) show ?case
    by (simp add: responses_walk_unfold [of "fst a" "snd a" s])
qed

lemma context_carries: "carries s (map fst (fst (responses_with_context s)))"
  using walk_carries [of s "(None, None)"] by (simp add: responses_with_context_def)

section \<open>Traffic on the bus, and what the parser makes of it\<close>

datatype bus_item =
    BusResponse int "int list"
  | BusRequest int int int
  | BusException int int int

fun encode_item :: "bus_item \<Rightarrow> bytes" where
  "encode_item (BusResponse s regs) = encode_response s regs"
| "encode_item (BusRequest s a c) =
     sealed [word_of_int s, 0x03, hi8 a, lo8 a, hi8 c, lo8 c]"
| "encode_item (BusException s f x) = encode_exception s f x"

definition encode_bus :: "bus_item list \<Rightarrow> bytes \<Rightarrow> bytes" where
  "encode_bus items tail = concat (map encode_item items) @ tail"

fun good_item :: "bus_item \<Rightarrow> bool" where
  "good_item (BusResponse s regs) = good_response s regs"
| "good_item (BusRequest s a c) = (1 \<le> s \<and> s \<le> 247 \<and> 0 \<le> a \<and> a < 65536 \<and> 0 \<le> c \<and> c < 65536)"
| "good_item (BusException s f x) = (1 \<le> s \<and> s \<le> 247 \<and> 0 \<le> f \<and> f < 128 \<and> is_byte x)"

text \<open>Requests and responses have no distinguishing mark on the wire: a request whose bytes also
  check as a response is read as one. \<open>clean\<close> traffic has no such accident, and less than a
  header at its end.\<close>

fun clean :: "bus_item list \<Rightarrow> bytes \<Rightarrow> bool" where
  "clean [] tail = (length tail \<le> 4)"
| "clean (item # items) tail = (good_item item \<and> clean items tail
     \<and> (case item of BusRequest _ _ _ \<Rightarrow> \<not> resp_at (encode_bus (item # items) tail) | _ \<Rightarrow> True))"

text \<open>The abstract meaning: a response is paired with the address of the pending request when that
  request was to the same slave; any request replaces the pending one, any response consumes it.\<close>

fun pair_items :: "int option \<Rightarrow> int option \<Rightarrow> bus_item list \<Rightarrow> (modbus_frame \<times> int option) list" where
  "pair_items pa ps [] = []"
| "pair_items pa ps (BusResponse s regs # items) =
     (\<lparr>mf_slave = s, mf_func = FC_READ_HOLDING, mf_regs = regs\<rparr>, if ps = Some s then pa else None)
     # pair_items None None items"
| "pair_items pa ps (BusRequest s a c # items) = pair_items (Some a) (Some s) items"
| "pair_items pa ps (BusException s f x # items) = pair_items pa ps items"

lemma encode_bus_Cons: "encode_bus (i # is) tail = encode_item i @ encode_bus is tail"
  by (simp add: encode_bus_def)

lemma request_head:
  assumes "good_item (BusRequest s a c)" and t_def: "t = encode_item (BusRequest s a c) @ rest"
  shows "4 < length t" "slave_at t" "req_at t" "err_at t = 0" "drop 8 t = rest"
    "be16 (t ! 2) (t ! 3) = a" "uint (t ! 0) = s"
proof -
  let ?b = "[word_of_int s, 0x03, hi8 a, lo8 a, hi8 c, lo8 c] :: bytes"
  have sb: "is_byte s"
    using assms(1) by (simp add: is_byte_def)
  have tk: "take 8 t = sealed ?b" and tk6: "take 6 t = ?b" and sl: "pyslice 6 8 t = crc16 ?b"
    by (simp_all add: t_def sealed_def pyslice_def)
  have u: "t ! 0 = word_of_int s" "t ! 1 = 0x03" "t ! 2 = hi8 a" "t ! 3 = lo8 a"
    by (simp_all add: t_def sealed_def)
  have l: "length t = 8 + length rest"
    by (simp add: t_def wire_simps)
  show "4 < length t" and "drop 8 t = rest"
    using l by (simp_all add: t_def sealed_def)
  show "uint (t ! 0) = s" and "slave_at t" and "be16 (t ! 2) (t ! 3) = a"
    using assms(1) sb by (simp_all add: slave_at_def u wire_simps)
  have ok: "crc_ok (sealed ?b)"
    by (rule crc_ok_sealed)
  then show "req_at t"
    unfolding req_at_def tk using l u(2) by (simp add: FC_READ_HOLDING_def)
  show "err_at t = 0"
    using l by (simp add: err_at_def tk6 sl)
qed

lemma exception_head:
  assumes "good_item (BusException s f x)" and t_def: "t = encode_item (BusException s f x) @ rest"
  shows "4 < length t" "slave_at t" "\<not> resp_at t" "\<not> req_at t" "exc_at t" "err_at t = 0"
    "drop 5 t = rest"
proof -
  have b: "is_byte s" "is_byte (128 + f)"
    using assms(1) by (simp_all add: is_byte_def)
  have u: "uint (t ! 0) = s" "uint (t ! Suc 0) = 128 + f"
    using b encode_exception_nth [of s f x rest]
    by (simp_all only: t_def encode_item.simps uint_byte_of_int One_nat_def)
  have tk: "take 5 t = encode_exception s f x" and l: "length t = 5 + length rest"
    by (simp_all add: t_def wire_simps)
  have ok: "crc_ok (encode_exception s f x)"
    by (simp add: encode_exception_def wire_simps)
  show "4 < length t" and "drop 5 t = rest"
    by (simp_all add: l) (simp add: t_def wire_simps)
  show "slave_at t" and "\<not> resp_at t" and "\<not> req_at t" and "err_at t = 0"
    using assms(1) by (simp_all add: slave_at_def u resp_at_def plausible_at_def req_at_def
        err_at_def FC_READ_HOLDING_def)
  have "(128 + f) AND 0x80 \<noteq> 0"
    using assms(1) and_exception_bit [of "128 + f"] by (simp add: EXCEPTION_BIT_def)
  then show "exc_at t"
    using ok l by (simp add: exc_at_def u tk)
qed

lemma walk_clean:
  "clean items tail \<Longrightarrow> responses_walk pa ps (encode_bus items tail) = (pair_items pa ps items, 0)"
proof (induction items arbitrary: pa ps)
  case Nil
  then show ?case
    by (simp add: encode_bus_def responses_walk_unfold [of pa ps tail])
next
  case (Cons i "is")
  let ?s = "encode_bus (i # is) tail"
  show ?case
  proof (cases i)
    case (BusResponse s regs)
    have "good_response s regs" and e: "?s = encode_response s regs @ encode_bus is tail"
      using Cons.prems BusResponse by (simp_all add: encode_bus_Cons)
    note h = encoded_resp_at [OF this]
    have "uint (?s ! 0) = s"
      using arg_cong [OF h(5), of mf_slave] by (simp add: frame_at_def)
    then show ?thesis
      using Cons.prems BusResponse Cons.IH [of None None] h
      by (subst responses_walk_unfold) simp
  next
    case (BusRequest s a c)
    have g: "good_item (BusRequest s a c)" and n: "\<not> resp_at ?s"
      and e: "?s = encode_item (BusRequest s a c) @ encode_bus is tail"
      using Cons.prems BusRequest by (simp_all add: encode_bus_Cons)
    note h = request_head [OF g e]
    have "skip_at ?s = 8"
      using h(3) by (simp add: skip_at_def)
    then show ?thesis
      using Cons.prems BusRequest Cons.IH [of "Some a" "Some s"] h n
      by (subst responses_walk_unfold) simp
  next
    case (BusException s f x)
    have g: "good_item (BusException s f x)"
      and e: "?s = encode_item (BusException s f x) @ encode_bus is tail"
      using Cons.prems BusException by (simp_all add: encode_bus_Cons)
    note h = exception_head [OF g e]
    have "skip_at ?s = 5"
      using h(4,5) by (simp add: skip_at_def)
    then show ?thesis
      using Cons.prems BusException Cons.IH [of pa ps] h
      by (subst responses_walk_unfold) simp
  qed
qed

section \<open>Selection\<close>

lemma first_match_SomeD:
  "first_match P ps = Some f \<Longrightarrow> \<exists>ctx. (f, ctx) \<in> set ps \<and> P (f, ctx)"
  by (induction ps) (auto split: if_splits)

lemma first_match_None: "first_match P ps = None \<longleftrightarrow> (\<forall>p \<in> set ps. \<not> P p)"
  by (induction ps) auto

lemma select_response_tiers:
  assumes "fst (select_response stream slave addr count) = Some f"
  defines "ps \<equiv> fst (responses_with_context stream)"
  shows "\<exists>ctx. (f, ctx) \<in> set ps \<and> mine slave count f
     \<and> (ctx = Some addr \<or> (\<forall>g. mine slave count g \<longrightarrow> (g, Some addr) \<notin> set ps)
          \<and> (ctx = None \<or> (\<forall>g. mine slave count g \<longrightarrow> (g, None) \<notin> set ps)))"
proof -
  let ?P1 = "\<lambda>p. mine slave count (fst p) \<and> snd p = Some addr"
  let ?P2 = "\<lambda>p. mine slave count (fst p) \<and> snd p = None"
  let ?P3 = "\<lambda>p. mine slave count (fst p)"
  have sel: "(case first_match ?P1 ps of Some g \<Rightarrow> Some g
      | None \<Rightarrow> (case first_match ?P2 ps of Some g \<Rightarrow> Some g | None \<Rightarrow> first_match ?P3 ps)) = Some f"
    using assms(1) unfolding select_response_def ps_def Let_def fst_conv by assumption
  consider (one) "first_match ?P1 ps = Some f"
    | (two) "first_match ?P1 ps = None" "first_match ?P2 ps = Some f"
    | (three) "first_match ?P1 ps = None" "first_match ?P2 ps = None" "first_match ?P3 ps = Some f"
    using sel by (auto split: option.splits)
  then show ?thesis
  proof cases
    case one
    then obtain ctx where "(f, ctx) \<in> set ps" "mine slave count f" "ctx = Some addr"
      using first_match_SomeD [OF one] by auto
    then show ?thesis by blast
  next
    case two
    then obtain ctx where "(f, ctx) \<in> set ps" "mine slave count f" "ctx = None"
      using first_match_SomeD [OF two(2)] by auto
    moreover have "\<forall>g. mine slave count g \<longrightarrow> (g, Some addr) \<notin> set ps"
      using two(1) unfolding first_match_None by force
    ultimately show ?thesis by blast
  next
    case three
    then obtain ctx where "(f, ctx) \<in> set ps" "mine slave count f"
      using first_match_SomeD [OF three(3)] by auto
    moreover have "\<forall>g. mine slave count g \<longrightarrow> (g, Some addr) \<notin> set ps"
      using three(1) unfolding first_match_None by force
    moreover have "\<forall>g. mine slave count g \<longrightarrow> (g, None) \<notin> set ps"
      using three(2) unfolding first_match_None by force
    ultimately show ?thesis by blast
  qed
qed

lemma select_response_None:
  "fst (select_response stream slave addr count) = None \<longleftrightarrow>
     (\<forall>p \<in> set (fst (responses_with_context stream)). \<not> mine slave count (fst p))"
proof
  assume "fst (select_response stream slave addr count) = None"
  then have "first_match (\<lambda>p. mine slave count (fst p)) (fst (responses_with_context stream)) = None"
    by (simp add: select_response_def Let_def split: option.splits)
  then show "\<forall>p \<in> set (fst (responses_with_context stream)). \<not> mine slave count (fst p)"
    by (simp only: first_match_None)
next
  assume none: "\<forall>p \<in> set (fst (responses_with_context stream)). \<not> mine slave count (fst p)"
  have nm: "first_match Q (fst (responses_with_context stream)) = None"
    if "\<And>p. Q p \<Longrightarrow> mine slave count (fst p)" for Q
    using none that unfolding first_match_None by blast
  have "first_match (\<lambda>p. mine slave count (fst p) \<and> snd p = Some addr)
        (fst (responses_with_context stream)) = None"
    and "first_match (\<lambda>p. mine slave count (fst p) \<and> snd p = None)
        (fst (responses_with_context stream)) = None"
    and "first_match (\<lambda>p. mine slave count (fst p)) (fst (responses_with_context stream)) = None"
    by (rule nm, simp)+
  then show "fst (select_response stream slave addr count) = None"
    by (simp add: select_response_def Let_def)
qed

lemma select_response_received:
  assumes "fst (select_response stream slave addr count) = Some f"
  shows "mine slave count f \<and> good_frame f \<and> (\<exists>pre post. stream = pre @ encode_frame f @ post)"
proof -
  obtain ctx where "(f, ctx) \<in> set (fst (responses_with_context stream))" and "mine slave count f"
    using select_response_tiers [OF assms] by blast
  then show ?thesis
    using carries_mem [OF context_carries] by force
qed

section \<open>Exceptions in the buffer\<close>

lemma exception_window:
  assumes "take 2 t = [word_of_int s, 0x83]" and "5 \<le> length t"
  shows "crc_ok (take 5 t) \<longleftrightarrow> take 5 t = encode_exception s 3 (uint (t ! 2))"
proof -
  have "t ! 0 = word_of_int s" "t ! 1 = 0x83"
    using arg_cong [OF assms(1), of "\<lambda>xs. xs ! 0"] arg_cong [OF assms(1), of "\<lambda>xs. xs ! 1"] by simp_all
  moreover have "but2 (take 5 t) = [t ! 0, t ! 1, t ! 2]"
    using assms(2) take_3 [of t] by (simp add: but2_def)
  ultimately have b: "but2 (take 5 t) = [word_of_int s, word_of_int (128 + 3), word_of_int (uint (t ! 2))]"
    by simp
  show ?thesis
    using b crc_ok_is_sealed [of "take 5 t"] crc_ok_sealed
    by (metis encode_exception_def)
qed

lemma find_exception_SomeD:
  "find_exception buf s = Some e \<Longrightarrow>
     \<exists>x pre post. e = ModbusException s 3 x \<and> is_byte x \<and> buf = pre @ encode_exception s 3 x @ post"
proof (induction buf)
  case (Cons b bs)
  let ?t = "b # bs"
  consider (hit) "take 2 ?t = [word_of_int s, 0x83]" "5 \<le> length ?t" "crc_ok (take 5 ?t)"
      "e = ModbusException s 3 (uint (take 5 ?t ! 2))"
    | (rec) "find_exception bs s = Some e"
    using Cons.prems by (auto simp: Let_def crc_ok_def split: if_splits)
  then show ?case
  proof cases
    case hit
    then have "take 5 ?t = encode_exception s 3 (uint (?t ! 2))"
      using exception_window by blast
    then have "?t = [] @ encode_exception s 3 (uint (?t ! 2)) @ drop 5 ?t"
      by (metis append_Nil append_take_drop_id)
    moreover have "e = ModbusException s 3 (uint (?t ! 2))"
      using hit(4) by simp
    ultimately show ?thesis
      using is_byte_uint by blast
  next
    case rec
    then have "\<exists>x pre post. e = ModbusException s 3 x \<and> is_byte x \<and> bs = pre @ encode_exception s 3 x @ post"
      by (rule Cons.IH)
    then show ?thesis
      by (metis append_Cons)
  qed
qed simp

lemma find_exception_complete:
  "find_exception (pre @ encode_exception s 3 x @ post) s \<noteq> None"
proof (induction pre)
  case Nil
  let ?e = "encode_exception s 3 x"
  have ok: "crc_ok ?e" and l: "length ?e = 5"
    by (simp_all add: encode_exception_def wire_simps)
  have t2: "take 2 (?e @ post) = [word_of_int s, 0x83]"
    by (simp add: encode_exception_def sealed_def)
  have t5: "take 5 (?e @ post) = ?e"
    using l by simp
  obtain b bs where e: "?e @ post = b # bs"
    using l by (cases ?e) auto
  have l5: "5 \<le> length (b # bs)"
    by (simp only: e [symmetric] length_append l)
  have "find_exception (b # bs) s = Some (ModbusException s 3 (uint (?e ! 2)))"
    using t2 t5 ok l5 unfolding e by (simp add: Let_def crc_ok_def)
  then show ?case
    by (simp add: e)
next
  case (Cons b pre)
  have "5 \<le> length (b # pre @ encode_exception s 3 x @ post)"
    by (simp add: wire_simps)
  with Cons show ?case
    by (simp add: Let_def)
qed

section \<open>The read loop\<close>

lemma query_loop_Inr:
  "fst (query_loop buf slave addr count chunks e) = Inr f \<Longrightarrow>
     \<exists>n. fst (select_response (buf @ concat (take n chunks)) slave addr count) = Some f"
proof (induction chunks arbitrary: buf e)
  case Nil
  then show ?case
    by (simp split: option.splits)
next
  case (Cons c cs)
  consider (empty) "fst (query_loop buf slave addr count cs e) = Inr f" "c = []"
    | (here) "fst (select_response (buf @ c) slave addr count) = Some f"
    | (rec) e' where "fst (query_loop (buf @ c) slave addr count cs e') = Inr f"
    using Cons.prems by (auto simp: Let_def split_beta split: if_splits option.splits)
  then show ?case
  proof cases
    case empty
    from Cons.IH [OF empty(1)] obtain n
      where "fst (select_response (buf @ concat (take n cs)) slave addr count) = Some f" ..
    then show ?thesis
      using empty(2) by (intro exI [of _ "Suc n"]) simp
  next
    case here
    then show ?thesis
      by (intro exI [of _ 1]) simp
  next
    case rec
    from Cons.IH [OF rec(1)] obtain n
      where "fst (select_response ((buf @ c) @ concat (take n cs)) slave addr count) = Some f" ..
    then show ?thesis
      by (intro exI [of _ "Suc n"]) simp
  qed
qed

lemma query_loop_exception:
  "fst (query_loop buf slave addr count chunks e) = Inl (QueryModbus x) \<Longrightarrow>
     \<exists>n. find_exception (buf @ concat (take n chunks)) slave = Some x"
proof (induction chunks arbitrary: buf e)
  case Nil
  then show ?case
    by (simp split: option.splits)
next
  case (Cons c cs)
  consider (empty) "fst (query_loop buf slave addr count cs e) = Inl (QueryModbus x)" "c = []"
    | (here) "find_exception (buf @ c) slave = Some x"
    | (rec) e' where "fst (query_loop (buf @ c) slave addr count cs e') = Inl (QueryModbus x)"
    using Cons.prems by (auto simp: Let_def split_beta split: if_splits option.splits)
  then show ?case
  proof cases
    case empty
    from Cons.IH [OF empty(1)] obtain n
      where "find_exception (buf @ concat (take n cs)) slave = Some x" ..
    then show ?thesis
      using empty(2) by (intro exI [of _ "Suc n"]) simp
  next
    case here
    then show ?thesis
      by (intro exI [of _ 1]) simp
  next
    case rec
    from Cons.IH [OF rec(1)] obtain n
      where "find_exception ((buf @ c) @ concat (take n cs)) slave = Some x" ..
    then show ?thesis
      by (intro exI [of _ "Suc n"]) simp
  qed
qed

text \<open>A deadline that passes means that everything received held neither our response nor an
  exception.\<close>

lemma query_loop_timeout:
  "fst (query_loop buf slave addr count chunks e) = Inl (QueryTimeout n) \<Longrightarrow>
     n = length (buf @ concat chunks) \<and> find_exception (buf @ concat chunks) slave = None
     \<and> (concat chunks \<noteq> [] \<longrightarrow> fst (select_response (buf @ concat chunks) slave addr count) = None)"
proof (induction chunks arbitrary: buf e)
  case Nil
  then show ?case
    by (simp split: option.splits)
next
  case (Cons c cs)
  show ?case
  proof (cases "c = []")
    case True
    then show ?thesis
      using Cons.prems Cons.IH [of buf e] by simp
  next
    case False
    then obtain e' where none: "fst (select_response (buf @ c) slave addr count) = None"
      and rec: "fst (query_loop (buf @ c) slave addr count cs e') = Inl (QueryTimeout n)"
      using Cons.prems by (auto simp: Let_def split_beta split: option.splits)
    show ?thesis
    proof (cases "concat cs = []")
      case True
      then have e: "concat (c # cs) = c"
        by (simp only: concat.simps append_Nil2)
      show ?thesis
        unfolding e using Cons.IH [OF rec, unfolded True append_Nil2] none by blast
    next
      case False
      have e: "buf @ concat (c # cs) = (buf @ c) @ concat cs"
        by simp
      show ?thesis
        unfolding e using Cons.IH [OF rec] False by blast
    qed
  qed
qed

section \<open>Properties\<close>

text \<open>C40. The two stream walks of the module agree: \<open>responses_with_context\<close> finds the same frames
  in the same order as \<open>parse_frame_stream\<close> and reports the same number of checksum failures, on
  every byte stream; it only adds the context.\<close>

theorem stream_walks_agree:
  "parse_frame_stream stream =
     (map fst (fst (responses_with_context stream)), snd (responses_with_context stream))"
  using walks_agree [of stream "(None, None)"]
  by (simp add: responses_with_context_def apfst_def map_prod_def split_beta)

text \<open>The stream parser invents nothing: the frames it returns are encoded in the stream, one
  after another in the order returned and without overlap, each with a right checksum, a slave
  in 1..247 and 1..125 registers.\<close>

theorem stream_frames_received: "carries stream (fst (parse_frame_stream stream))"
  using walk_carries [of stream "(None, None)"] walks_agree [of stream "(None, None)"] by simp

text \<open>C3. On clean bus traffic (responses, requests and exceptions of any slaves back to back, a
  rest too short for a frame at the end) the parser recovers every response, pairs it exactly as
  the abstract reading of the traffic does, and reports no checksum failure.\<close>

theorem clean_traffic_decoded:
  assumes "clean items tail"
  shows "responses_with_context (encode_bus items tail) = (pair_items None None items, 0)"
  unfolding responses_with_context_def using assms by (rule walk_clean)

theorem clean_traffic_decoded_witness:
  "clean [BusException 1 3 2, BusResponse 1 [7]] [0, 9]
   \<and> responses_with_context (encode_bus [BusException 1 3 2, BusResponse 1 [7]] [0, 9])
       = ([(\<lparr>mf_slave = 1, mf_func = FC_READ_HOLDING, mf_regs = [7]\<rparr>, None)], 0)"
proof -
  have c: "clean [BusException 1 3 2, BusResponse 1 [7]] [0, 9]"
    by (simp add: is_byte_def good_response_def reg_range_def)
  show ?thesis
    using c clean_traffic_decoded [OF c] by simp
qed

text \<open>Selection: the response picked belongs to the wanted slave, has the wanted number of
  registers and was received intact; it comes from the first tier that is not empty (a response
  to a request for our address, then one with no request before it, then any); and nothing is
  picked exactly when no response of that slave and size is in the stream.\<close>

theorem select_response_correct:
  "case fst (select_response stream slave addr count) of
     Some f \<Rightarrow> mine slave count f \<and> good_frame f
       \<and> (\<exists>pre post. stream = pre @ encode_frame f @ post)
       \<and> (\<exists>ctx. (f, ctx) \<in> set (fst (responses_with_context stream))
            \<and> (ctx \<noteq> Some addr \<longrightarrow>
                 \<not> (\<exists>g. mine slave count g \<and> (g, Some addr) \<in> set (fst (responses_with_context stream))))
            \<and> (ctx \<noteq> Some addr \<and> ctx \<noteq> None \<longrightarrow>
                 \<not> (\<exists>g. mine slave count g \<and> (g, None) \<in> set (fst (responses_with_context stream)))))
   | None \<Rightarrow> \<not> (\<exists>(g, ctx) \<in> set (fst (responses_with_context stream)). mine slave count g)"
proof (cases "fst (select_response stream slave addr count)")
  case None
  then show ?thesis
    using select_response_None [of stream slave addr count] by (auto simp: split_beta)
next
  case (Some f)
  then show ?thesis
    using select_response_tiers [OF Some] select_response_received [OF Some] by auto
qed

theorem select_response_correct_witness:
  "\<exists>f. fst (select_response (encode_bus [BusRequest 1 0x0100 1, BusResponse 1 [7]] []) 1 0x0100 1) = Some f
     \<and> mine 1 1 f \<and> good_frame f"
proof -
  let ?s = "encode_bus [BusRequest 1 0x0100 1, BusResponse 1 [7]] []"
  have c: "clean [BusRequest 1 0x0100 1, BusResponse 1 [7]] []"
    by (simp add: good_response_def reg_range_def resp_at_def plausible_at_def
        encode_bus_def sealed_def hi8_def)
  have "\<exists>(g, ctx) \<in> set (fst (responses_with_context ?s)). mine 1 1 g"
    using walk_clean [OF c, of None None] by (simp add: responses_with_context_def mine_def)
  note some = this
  note corr = select_response_correct [where stream = ?s and slave = 1 and addr = "0x0100" and count = 1]
  have "fst (select_response ?s 1 0x0100 1) \<noteq> None"
  proof
    assume n: "fst (select_response ?s 1 0x0100 1) = None"
    show False
      using corr some unfolding n option.case by blast
  qed
  then obtain f where f: "fst (select_response ?s 1 0x0100 1) = Some f"
    by blast
  have "mine 1 1 f \<and> good_frame f"
    using corr unfolding f option.case by blast
  with f show ?thesis by blast
qed

text \<open>The three ends of the loop, against all that was received.\<close>

lemma received_prefix:
  assumes "concat (take n chunks) = p @ w @ q"
  shows "\<exists>pre post. concat chunks = pre @ w @ post"
  using assms append_take_drop_id [of n chunks] concat_append by (metis append.assoc)

lemma query_loop_frame:
  assumes "fst (query_loop [] slave addr count chunks fails) = Inr f"
  shows "mine slave count f \<and> good_frame f \<and> (\<exists>pre post. concat chunks = pre @ encode_frame f @ post)"
proof -
  obtain n where "fst (select_response (concat (take n chunks)) slave addr count) = Some f"
    using query_loop_Inr [of "[]"] assms by fastforce
  from select_response_received [OF this] show ?thesis
    using received_prefix by blast
qed

lemma query_loop_raised:
  assumes "fst (query_loop [] slave addr count chunks fails) = Inl (QueryModbus e)"
  shows "\<exists>x pre post. e = ModbusException slave 3 x \<and> concat chunks = pre @ encode_exception slave 3 x @ post"
proof -
  obtain n where "find_exception (concat (take n chunks)) slave = Some e"
    using query_loop_exception [of "[]"] assms by fastforce
  from find_exception_SomeD [OF this] show ?thesis
    using received_prefix by blast
qed

lemma query_loop_silent:
  assumes "fst (query_loop [] slave addr count chunks fails) = Inl (QueryTimeout n)"
  shows "n = length (concat chunks) \<and> \<not> (\<exists>x pre post. concat chunks = pre @ encode_exception slave 3 x @ post)
    \<and> fst (select_response (concat chunks) slave addr count) = None"
proof -
  have nil: "fst (select_response [] slave addr count) = None"
    by (simp add: select_response_None responses_with_context_def responses_walk_unfold)
  have t: "n = length (concat chunks) \<and> find_exception (concat chunks) slave = None
      \<and> (concat chunks \<noteq> [] \<longrightarrow> fst (select_response (concat chunks) slave addr count) = None)"
    using query_loop_timeout [of "[]" slave addr count chunks fails n] assms by simp
  then have "fst (select_response (concat chunks) slave addr count) = None"
    using nil by (cases "concat chunks = []") (simp_all del: concat_eq_Nil_conv)
  moreover have "concat chunks \<noteq> p @ encode_exception slave 3 x @ r" for x p r
    using t find_exception_complete [of p slave x r] by auto
  ultimately show ?thesis
    using t by blast
qed


text \<open>The checksum diagnostic over-counts. The callback is documented as invoked once per bad
  frame, but \<open>query\<close> parses the whole buffer again after every chunk: a single damaged frame
  followed by one more byte is counted twice, although the received bytes hold one bad frame.\<close>

theorem crc_failures_overcounted:
  "\<exists>chunks. snd (responses_with_context (concat chunks)) = 1 \<and> snd (query 1 0x0100 1 chunks) = 2"
proof -
  let ?bad = "[1, 3, 2, 0, 0, 0, 0] :: bytes"
  have heads: "responses_with_context ?bad = ([], 1)" "responses_with_context (?bad @ [0]) = ([], 1)"
    by (simp_all add: responses_with_context_def responses_walk_unfold head_defs pyslice_def
        FC_READ_HOLDING_def crc_eval)
  have exc: "find_exception ?bad 1 = None" "find_exception (?bad @ [0]) 1 = None"
    by (simp_all add: Let_def)
  have "\<exists>req. build_read_holding_request 1 0x0100 1 = Inr req"
    by (simp add: build_read_holding_request_def Let_def)
  then have "snd (query 1 0x0100 1 [?bad, [0]]) = 2"
    using heads exc by (auto simp: query_def select_response_def Let_def)
  moreover have "snd (responses_with_context (concat [?bad, [0]])) = 1"
    using heads(2) by simp
  ultimately show ?thesis by blast
qed

text \<open>The context is not the nearest request of the same slave: a request to another slave in
  between hides it, and the response is then taken for an orphan.\<close>

theorem foreign_request_hides_context:
  assumes "clean [BusRequest s a c, BusRequest s' a' c', BusResponse s regs] tail" and "s' \<noteq> s"
  shows "fst (responses_with_context
      (encode_bus [BusRequest s a c, BusRequest s' a' c', BusResponse s regs] tail))
    = [(\<lparr>mf_slave = s, mf_func = FC_READ_HOLDING, mf_regs = regs\<rparr>, None)]"
  using assms(2) walk_clean [OF assms(1), of None None] by (simp add: responses_with_context_def)

theorem foreign_request_hides_context_witness:
  "fst (responses_with_context
      (encode_bus [BusRequest 1 0x0100 1, BusRequest 2 0x0100 1, BusResponse 1 [7]] []))
    = [(\<lparr>mf_slave = 1, mf_func = FC_READ_HOLDING, mf_regs = [7]\<rparr>, None)]"
proof -
  have c: "clean [BusRequest 1 0x0100 1, BusRequest 2 0x0100 1, BusResponse 1 [7]] []"
    by (simp add: good_response_def reg_range_def resp_at_def plausible_at_def
        encode_bus_def sealed_def hi8_def)
  show ?thesis
    by (rule foreign_request_hides_context [OF c]) simp
qed

end
