(* ===== verification/Py_Float.thy ===== *)
theory Py_Float
  imports Complex_Main Bridge_Prelude "HOL-Library.Log_Nat"
begin

text \<open>
  Python floats. A finite double is the rational it denotes; \<open>fl\<close> rounds a rational to the
  nearest double (ties to even, 53 significant bits, gradual underflow), and every float
  operation of the program is the exact operation followed by \<open>fl\<close>. Only the sign of zero is not
  represented: no comparison of the program can see it, it shows in printed text alone.
  \<open>py_round\<close> is CPython's \<open>round(x, n)\<close>, which rounds the exact value to \<open>n\<close> decimals (ties to
  even) and takes the double nearest to that decimal. \<open>pyfloat\<close> adds the non-finite values for the
  one component that tests for them. The locale \<open>rounding\<close> states what client proofs use of a
  rounding function: monotone, odd, zero at zero.
\<close>

named_theorems float_simps "evaluation and laws of float operations"

section \<open>Rounding to the nearest integer, ties to even\<close>

definition rne :: "rat \<Rightarrow> int" where
  "rne x = (let f = \<lfloor>x\<rfloor>; d = x - of_int f in
     if d < 1 / 2 then f else if 1 / 2 < d then f + 1 else if even f then f else f + 1)"

lemma rne_of_int [simp]: "rne (of_int k) = k"
  by (simp add: rne_def)

lemma rne_error: "\<bar>of_int (rne x) - x\<bar> \<le> 1 / 2"
  using floor_correct [of x] by (auto simp: rne_def Let_def abs_le_iff)

lemma rne_unique:
  assumes "\<bar>of_int k - x\<bar> < 1 / 2"
  shows "rne x = k"
proof -
  have "\<bar>of_int (rne x - k) :: rat\<bar> < 1"
    using rne_error [of x] assms unfolding of_int_diff by linarith
  then have "\<bar>rne x - k\<bar> < 1"
    by (metis of_int_abs of_int_less_1_iff)
  then show ?thesis by simp
qed

lemma rne_mono:
  assumes "x \<le> y"
  shows "rne x \<le> rne y"
proof (rule ccontr)
  assume "\<not> rne x \<le> rne y"
  then have lt: "rne y + 1 \<le> rne x" by simp
  have a: "of_int (rne x) - x \<le> 1 / 2" "y - of_int (rne y) \<le> 1 / 2"
    using rne_error [of x] rne_error [of y] by linarith+
  have b: "(of_int (rne y) :: rat) + 1 \<le> of_int (rne x)"
    using lt by (metis of_int_1 of_int_add of_int_le_iff)
  from a b assms have xy: "x = y"
    by linarith
  with lt show False by simp
qed

lemma rne_minus: "rne (- x) = - rne x"
proof (cases "of_int \<lfloor>x\<rfloor> = x")
  case True
  have "rne (of_int (- \<lfloor>x\<rfloor>)) = - rne (of_int \<lfloor>x\<rfloor>)"
    by (simp only: rne_of_int)
  then show ?thesis
    by (simp only: of_int_minus True)
next
  case False
  then have lt: "of_int \<lfloor>x\<rfloor> < x"
    using floor_correct [of x] by linarith
  then have "\<lfloor>- x\<rfloor> = - \<lfloor>x\<rfloor> - 1"
    using floor_correct [of x] by (intro floor_unique) simp_all
  then show ?thesis
    by (simp add: rne_def Let_def)
qed

section \<open>Binary exponents\<close>

abbreviation pow2 :: "int \<Rightarrow> rat" where
  "pow2 e \<equiv> 2 powi e"

lemma pow2_pos [simp]: "0 < pow2 e"
  by (simp add: zero_less_power_int)

lemma pow2_le: "pow2 a \<le> pow2 b \<longleftrightarrow> a \<le> b"
  using power_int_increasing [of a b "2 :: rat"] power_int_strict_increasing [of b a "2 :: rat"]
  by (cases "a \<le> b") auto

lemma pow2_less: "pow2 a < pow2 b \<longleftrightarrow> a < b"
  by (simp only: not_le [symmetric] pow2_le)

lemma pow2_add: "pow2 (a + b) = pow2 a * pow2 b"
  by (simp add: power_int_add)

lemma pow2_diff: "pow2 (a - b) = pow2 a / pow2 b"
  by (simp add: power_int_diff)

lemma pow2_nat: "0 \<le> e \<Longrightarrow> pow2 e = of_int (2 ^ nat e)"
  by (simp add: power_int_def)

definition ilog2 :: "rat \<Rightarrow> int" where
  "ilog2 x = (let (p, q) = quotient_of x; d = bitlen p - bitlen q in
     if pow2 d \<le> x then d else d - 1)"

lemma bitlen_pow2:
  assumes "0 < p"
  shows "pow2 (bitlen p - 1) \<le> of_int p" and "of_int p < pow2 (bitlen p)"
proof -
  have b: "1 \<le> bitlen p"
    using assms by (simp add: bitlen_def floorlog_def)
  have "2 ^ nat (bitlen p - 1) \<le> p" and "p < 2 ^ nat (bitlen p)"
    using bitlen_bounds [OF assms] by auto
  then show "pow2 (bitlen p - 1) \<le> of_int p" and "of_int p < pow2 (bitlen p)"
    using b by (simp_all only: pow2_nat of_int_le_iff of_int_less_iff)
qed

lemma ilog2_bounds:
  assumes "0 < x"
  shows "pow2 (ilog2 x) \<le> x" and "x < pow2 (ilog2 x + 1)"
proof -
  obtain p q where pq: "quotient_of x = (p, q)"
    by (cases "quotient_of x")
  then have q: "0 < q" and x: "x = of_int p / of_int q"
    by (simp_all add: quotient_of_denom_pos quotient_of_div)
  have p: "0 < p"
    using assms q x by (simp add: zero_less_divide_iff)
  define d where "d = bitlen p - bitlen q"
  have "x < pow2 (bitlen p) / pow2 (bitlen q - 1)"
    unfolding x using bitlen_pow2 [OF p] bitlen_pow2 [OF q] p q
    by (intro frac_less) auto
  then have up: "x < pow2 (d + 1)"
    by (simp add: pow2_diff [symmetric] d_def algebra_simps)
  have "pow2 (bitlen p - 1) / pow2 (bitlen q) \<le> x"
    unfolding x using bitlen_pow2 [OF p] bitlen_pow2 [OF q] p q
    by (intro frac_le) auto
  then have lo: "pow2 (d - 1) \<le> x"
    by (simp add: pow2_diff [symmetric] d_def algebra_simps)
  have "ilog2 x = (if pow2 d \<le> x then d else d - 1)"
    by (simp add: ilog2_def pq d_def)
  then show "pow2 (ilog2 x) \<le> x" and "x < pow2 (ilog2 x + 1)"
    using up lo by auto
qed

lemma ilog2_unique: "pow2 e \<le> x \<Longrightarrow> x < pow2 (e + 1) \<Longrightarrow> ilog2 x = e"
proof -
  assume a: "pow2 e \<le> x" "x < pow2 (e + 1)"
  then have "0 < x"
    using pow2_pos [of e] by linarith
  then have "pow2 (ilog2 x) < pow2 (e + 1)" "pow2 e < pow2 (ilog2 x + 1)"
    using ilog2_bounds [of x] a by linarith+
  then show ?thesis
    by (simp only: pow2_less)
qed

lemma ilog2_mono: "0 < x \<Longrightarrow> x \<le> y \<Longrightarrow> ilog2 x \<le> ilog2 y"
proof -
  assume a: "0 < x" "x \<le> y"
  then have "pow2 (ilog2 x) < pow2 (ilog2 y + 1)"
    using ilog2_bounds(1) [of x] ilog2_bounds(2) [of y] by linarith
  then show ?thesis
    by (simp only: pow2_less)
qed

section \<open>Rounding to a double\<close>

text \<open>The weight of the last place: 53 significant bits, and never below \<open>2 ^ -1074\<close>.\<close>

definition ulp_exp :: "rat \<Rightarrow> int" where
  "ulp_exp x = max (ilog2 \<bar>x\<bar> - 52) (- 1074)"

definition fl :: "rat \<Rightarrow> rat" where
  "fl x = (if x = 0 then 0 else of_int (rne (x / pow2 (ulp_exp x))) * pow2 (ulp_exp x))"

definition is_double :: "rat \<Rightarrow> bool" where
  "is_double x \<longleftrightarrow> (\<exists>m e. x = of_int m * pow2 e \<and> \<bar>m\<bar> \<le> 2 ^ 53 \<and> - 1074 \<le> e)"

lemma fl_0 [simp]: "fl 0 = 0"
  by (simp add: fl_def)

lemma fl_minus: "fl (- x) = - fl x"
  by (simp add: fl_def ulp_exp_def rne_minus)

lemma fl_error: "x \<noteq> 0 \<Longrightarrow> \<bar>fl x - x\<bar> \<le> pow2 (ulp_exp x) / 2"
proof -
  assume "x \<noteq> 0"
  let ?u = "pow2 (ulp_exp x)"
  have "fl x - x = (of_int (rne (x / ?u)) - x / ?u) * ?u"
    using \<open>x \<noteq> 0\<close> by (simp add: fl_def algebra_simps)
  then have "\<bar>fl x - x\<bar> = \<bar>of_int (rne (x / ?u)) - x / ?u\<bar> * ?u"
    by (simp add: abs_mult)
  also have "\<dots> \<le> 1 / 2 * ?u"
    by (intro mult_right_mono rne_error) simp
  finally show ?thesis by simp
qed

text \<open>Within the normal range the relative error is at most \<open>2 ^ -53\<close>.\<close>

lemma fl_rel_error:
  assumes "x = 0 \<or> pow2 (- 1022) \<le> \<bar>x\<bar>"
  shows "\<bar>fl x - x\<bar> \<le> \<bar>x\<bar> / 2 ^ 53"
proof (cases "x = 0")
  case False
  then have n: "pow2 (- 1022) \<le> \<bar>x\<bar>" and pos: "0 < \<bar>x\<bar>"
    using assms by auto
  have "pow2 (- 1022) < pow2 (ilog2 \<bar>x\<bar> + 1)"
    using n ilog2_bounds(2) [OF pos] by linarith
  then have "ulp_exp x = ilog2 \<bar>x\<bar> - 52"
    by (simp only: pow2_less ulp_exp_def)
  then have "pow2 (ulp_exp x) / 2 = pow2 (ilog2 \<bar>x\<bar>) / 2 ^ 53"
    by (simp add: pow2_diff)
  also have "\<dots> \<le> \<bar>x\<bar> / 2 ^ 53"
    using ilog2_bounds(1) [OF pos] by (simp add: divide_right_mono)
  finally show ?thesis
    using fl_error [OF False] by linarith
qed simp

lemma fl_abs_error:
  assumes "\<bar>x\<bar> < pow2 k" and "- 1021 \<le> k"
  shows "\<bar>fl x - x\<bar> \<le> pow2 (k - 54)"
proof (cases "x = 0")
  case False
  then have "pow2 (ilog2 \<bar>x\<bar>) < pow2 k"
    using ilog2_bounds(1) [of "\<bar>x\<bar>"] assms(1) by simp
  then have "ulp_exp x \<le> k - 53"
    using assms(2) by (simp only: pow2_less ulp_exp_def)
  then have "pow2 (ulp_exp x) \<le> pow2 (k - 54 + 1)"
    by (simp only: pow2_le)
  then have "pow2 (ulp_exp x) / 2 \<le> pow2 (k - 54)"
    by (simp only: pow2_add) simp
  then show ?thesis
    using fl_error [OF False] by linarith
qed simp

lemma fl_of_multiple:
  assumes "ulp_exp x \<le> e" and "x = of_int m * pow2 e"
  shows "fl x = x"
proof -
  define u k where "u = ulp_exp x" and "k = e - u"
  have "pow2 e = pow2 k * pow2 u"
    by (simp add: k_def pow2_add [symmetric])
  then have x: "x = of_int (m * 2 ^ nat k) * pow2 u"
    using assms by (simp add: pow2_nat k_def u_def)
  have "pow2 u \<noteq> 0"
    using pow2_pos [of u] by linarith
  then have "x / pow2 u = of_int (m * 2 ^ nat k)"
    by (subst x) (rule nonzero_mult_div_cancel_right)
  then have "rne (x / pow2 u) = m * 2 ^ nat k"
    by (simp only: rne_of_int)
  then have "fl x = of_int (m * 2 ^ nat k) * pow2 u" if "x \<noteq> 0"
    using that by (simp add: fl_def u_def)
  then show ?thesis
    by (cases "x = 0", simp) (erule meta_mp [THEN trans [OF _ x [symmetric]], rotated])
qed

text \<open>Doubles are fixed points, results are doubles.\<close>

lemma fl_double:
  assumes "is_double x"
  shows "fl x = x"
proof (cases "x = 0")
  case False
  obtain m e where x: "x = of_int m * pow2 e" and m: "\<bar>m\<bar> \<le> 2 ^ 53" and e: "- 1074 \<le> e"
    using assms unfolding is_double_def by blast
  have ax: "\<bar>x\<bar> = of_int \<bar>m\<bar> * pow2 e" and pos: "0 < \<bar>x\<bar>"
    using False by (simp_all add: x abs_mult)
  have le: "\<bar>x\<bar> \<le> pow2 (e + 53)"
  proof -
    have "(of_int \<bar>m\<bar> :: rat) \<le> 2 ^ 53"
      using m by (metis of_int_le_iff of_int_numeral of_int_power)
    then have "of_int \<bar>m\<bar> * pow2 e \<le> 2 ^ 53 * pow2 e"
      by (rule mult_right_mono) simp
    then show ?thesis
      by (simp add: ax pow2_add mult.commute)
  qed
  show ?thesis
  proof (cases "ulp_exp x \<le> e")
    case True
    then show ?thesis
      using x by (rule fl_of_multiple)
  next
    case big: False
    then have i: "e + 53 \<le> ilog2 \<bar>x\<bar>"
      using e by (auto simp: ulp_exp_def)
    then have "pow2 (e + 53) \<le> pow2 (ilog2 \<bar>x\<bar>)"
      by (simp only: pow2_le)
    then have eq: "\<bar>x\<bar> = pow2 (e + 53)"
      using ilog2_bounds(1) [OF pos] le by linarith
    then have "ilog2 \<bar>x\<bar> = e + 53"
      by (simp only: eq) (rule ilog2_unique, simp_all add: pow2_less del: power_int_add)
    then have "ulp_exp x \<le> e + 53"
      using e by (simp add: ulp_exp_def)
    moreover have "x = of_int (sgn m) * pow2 (e + 53)"
      using eq False x pow2_pos [of e]
      by (cases m "0 :: int" rule: linorder_cases) (simp_all add: abs_mult sgn_if)
    ultimately show ?thesis
      by (rule fl_of_multiple)
  qed
qed simp

lemma fl_is_double: "is_double (fl x)"
proof (cases "x = 0")
  case True
  then show ?thesis
    unfolding is_double_def by (intro exI [of _ 0]) simp
next
  case False
  let ?u = "pow2 (ulp_exp x)"
  have "\<bar>x\<bar> < pow2 (ilog2 \<bar>x\<bar> + 1)"
    using False by (intro ilog2_bounds) simp
  also have "\<dots> \<le> pow2 (ulp_exp x + 53)"
    by (simp only: pow2_le) (simp add: ulp_exp_def)
  finally have "\<bar>x\<bar> \<le> 2 ^ 53 * ?u"
    by (simp add: pow2_add mult.commute)
  then have b: "\<bar>x / ?u\<bar> \<le> of_int (2 ^ 53)"
    by (simp add: pos_divide_le_eq)
  then have "x / ?u \<le> of_int (2 ^ 53)" and "of_int (- (2 ^ 53)) \<le> x / ?u"
    unfolding of_int_minus by linarith+
  then have "rne (x / ?u) \<le> rne (of_int (2 ^ 53))" and "rne (of_int (- (2 ^ 53))) \<le> rne (x / ?u)"
    by (simp_all only: rne_mono)
  then have "\<bar>rne (x / ?u)\<bar> \<le> 2 ^ 53"
    by (simp only: rne_of_int)
  moreover have "fl x = of_int (rne (x / ?u)) * ?u"
    using False by (simp add: fl_def)
  moreover have "- 1074 \<le> ulp_exp x"
    by (simp add: ulp_exp_def)
  ultimately show ?thesis
    unfolding is_double_def by blast
qed

lemma fl_idem [float_simps]: "fl (fl x) = fl x"
  by (rule fl_double [OF fl_is_double])

lemma is_double_int: "\<bar>m\<bar> \<le> 2 ^ 53 \<Longrightarrow> is_double (of_int m)"
  unfolding is_double_def by (intro exI [of _ m] exI [of _ 0]) simp

lemma fl_int: "\<bar>m\<bar> \<le> 2 ^ 53 \<Longrightarrow> fl (of_int m) = of_int m"
  by (rule fl_double [OF is_double_int])

text \<open>Rounding is monotone.\<close>

lemma fl_pos_mono:
  assumes "0 < x" and "x \<le> y"
  shows "fl x \<le> fl y"
proof -
  let ?a = "ulp_exp x" and ?b = "ulp_exp y"
  have ab: "?a \<le> ?b"
    using ilog2_mono [OF assms] assms by (simp add: ulp_exp_def)
  have fx: "fl x = of_int (rne (x / pow2 ?a)) * pow2 ?a"
    and fy: "fl y = of_int (rne (y / pow2 ?b)) * pow2 ?b"
    using assms by (simp_all add: fl_def)
  show ?thesis
  proof (cases "?a = ?b")
    case True
    have "rne (x / pow2 ?b) \<le> rne (y / pow2 ?b)"
      using assms(2) by (intro rne_mono divide_right_mono) simp_all
    then show ?thesis
      by (simp add: fx fy True)
  next
    case False
    with ab have lt: "?a < ?b" by simp
    have "x < pow2 (?a + 53)"
    proof -
      have "x < pow2 (ilog2 x + 1)"
        by (rule ilog2_bounds(2) [OF assms(1)])
      also have "\<dots> \<le> pow2 (?a + 53)"
        using assms(1) by (simp only: pow2_le) (simp add: ulp_exp_def)
      finally show ?thesis .
    qed
    then have "x / pow2 ?a \<le> of_int (2 ^ 53)"
      by (simp add: pos_divide_le_eq pow2_add mult.commute)
    then have "rne (x / pow2 ?a) \<le> 2 ^ 53"
      using rne_mono rne_of_int by metis
    then have "fl x \<le> pow2 (?a + 53)"
      unfolding fx by (simp only: pow2_add) (metis (no_types) mult.commute mult_right_mono
        of_int_le_iff of_int_numeral of_int_power pow2_pos less_imp_le power_int_numeral)
    also have "\<dots> \<le> pow2 (?b + 52)"
      using lt by (simp only: pow2_le)
    also have "\<dots> \<le> fl y"
    proof -
      have "?b = ilog2 y - 52"
        using lt assms by (auto simp: ulp_exp_def max_def split: if_splits)
      then have "pow2 (?b + 52) \<le> y"
        using ilog2_bounds(1) [of y] assms by simp
      then have "of_int (2 ^ 52) \<le> y / pow2 ?b"
        by (simp add: pos_le_divide_eq pow2_add mult.commute)
      then have "2 ^ 52 \<le> rne (y / pow2 ?b)"
        using rne_mono rne_of_int by metis
      then show ?thesis
        unfolding fy by (simp only: pow2_add) (metis (no_types) mult.commute mult_right_mono
          of_int_le_iff of_int_numeral of_int_power pow2_pos less_imp_le power_int_numeral)
    qed
    finally show ?thesis .
  qed
qed

lemma fl_nonneg: "0 \<le> x \<Longrightarrow> 0 \<le> fl x"
proof -
  assume x: "0 \<le> x"
  have "rne 0 \<le> rne (x / pow2 (ulp_exp x))"
    using x by (intro rne_mono) simp
  moreover have "rne 0 = 0"
    using rne_of_int [of 0] by simp
  ultimately show ?thesis
    by (simp add: fl_def)
qed

lemma fl_mono: "x \<le> y \<Longrightarrow> fl x \<le> fl y"
proof -
  assume xy: "x \<le> y"
  consider "0 < x" | "x \<le> 0" "0 \<le> y" | "y < 0" by linarith
  then show ?thesis
  proof cases
    case 1
    then show ?thesis using xy by (rule fl_pos_mono)
  next
    case 2
    then show ?thesis
      using fl_nonneg [of y] fl_nonneg [of "- x"] by (simp add: fl_minus)
  next
    case 3
    then show ?thesis
      using fl_pos_mono [of "- y" "- x"] xy by (simp add: fl_minus)
  qed
qed

section \<open>What clients use of a rounding function\<close>

locale rounding =
  fixes r :: "rat \<Rightarrow> rat"
  assumes r_mono: "x \<le> y \<Longrightarrow> r x \<le> r y"
    and r_odd: "r (- x) = - r x"
begin

lemma r_zero [simp]: "r 0 = 0"
  using r_odd [of 0] by simp

lemma r_nonneg: "0 \<le> x \<Longrightarrow> 0 \<le> r x"
  using r_mono [of 0 x] by simp

lemma r_nonpos: "x \<le> 0 \<Longrightarrow> r x \<le> 0"
  using r_mono [of x 0] by simp

lemma r_max: "max (r x) (r y) = r (max x y)"
  using r_mono [of x y] r_mono [of y x] by (auto simp: max_def)

lemma foldl_nonneg: "0 \<le> a \<Longrightarrow> \<forall>x \<in> set xs. 0 \<le> x \<Longrightarrow> 0 \<le> foldl (\<lambda>s x. r (s + x)) a xs"
  by (induction xs arbitrary: a) (simp_all add: r_nonneg)

end

locale idem_rounding = rounding +
  assumes r_idem: "r (r x) = r x"
begin

lemma grow: "r a = a \<Longrightarrow> 0 \<le> d \<Longrightarrow> a \<le> r (a + d)"
  using r_mono [of a "a + d"] by simp

end

interpretation fl: idem_rounding fl
  by unfold_locales (simp_all add: fl_mono fl_minus fl_idem)

section \<open>round(x, n)\<close>

definition py_round :: "nat \<Rightarrow> rat \<Rightarrow> rat" where
  "py_round n x = fl (of_int (rne (x * 10 ^ n)) / 10 ^ n)"

interpretation py_round: rounding "py_round n"
proof
  fix x y :: rat
  assume "x \<le> y"
  then have "rne (x * 10 ^ n) \<le> rne (y * 10 ^ n)"
    by (intro rne_mono mult_right_mono) simp_all
  then show "py_round n x \<le> py_round n y"
    by (simp add: py_round_def divide_right_mono fl_mono)
next
  fix x :: rat
  show "py_round n (- x) = - py_round n x"
    using rne_minus [of "x * 10 ^ n"] fl_minus [of "of_int (rne (x * 10 ^ n)) / 10 ^ n"]
    by (simp add: py_round_def)
qed

lemma py_round_near:
  assumes "\<bar>x - of_int m / 10 ^ n\<bar> < 1 / (2 * 10 ^ n)"
  shows "py_round n x = fl (of_int m / 10 ^ n)"
proof -
  have "of_int m - x * 10 ^ n = (of_int m / 10 ^ n - x) * 10 ^ n"
    by (simp only: left_diff_distrib) simp
  then have "\<bar>of_int m - x * 10 ^ n\<bar> = \<bar>of_int m / 10 ^ n - x\<bar> * 10 ^ n"
    by (simp only: abs_mult) simp
  also have "\<dots> = \<bar>x - of_int m / 10 ^ n\<bar> * 10 ^ n"
    by (simp only: abs_minus_commute)
  also have "\<dots> < 1 / (2 * 10 ^ n) * 10 ^ n"
    using assms by (rule mult_strict_right_mono) simp
  finally have "rne (x * 10 ^ n) = m"
    by (intro rne_unique) simp
  then show ?thesis
    by (simp add: py_round_def)
qed

section \<open>sum over a list of floats\<close>

text \<open>Up to CPython 3.11 \<open>sum\<close> adds from the left; from 3.12 it keeps a compensation term
  (Neumaier). The project supports both, so the version is a parameter where \<open>sum\<close> is used.\<close>

datatype py_version = Py311 | Py312

fun neumaier :: "rat \<times> rat \<Rightarrow> rat list \<Rightarrow> rat \<times> rat" where
  "neumaier (f, c) [] = (f, c)"
| "neumaier (f, c) (x # xs) =
     (let t = fl (f + x) in
      neumaier (t, if \<bar>x\<bar> \<le> \<bar>f\<bar> then fl (c + fl (fl (f - t) + x))
                   else fl (c + fl (fl (x - t) + f))) xs)"

fun py_sum :: "py_version \<Rightarrow> rat list \<Rightarrow> rat" where
  "py_sum _ [] = 0"
| "py_sum Py311 (x # xs) = foldl (\<lambda>s y. fl (s + y)) x xs"
| "py_sum Py312 (x # xs) = (let (f, c) = neumaier (x, 0) xs in if c \<noteq> 0 then fl (f + c) else f)"

lemma py_sum_single [simp]: "py_sum v [x] = x"
  by (cases v) simp_all

section \<open>Non-finite values\<close>

text \<open>\<open>Inf True\<close> is minus infinity.\<close>

datatype pyfloat = Fin rat | Inf bool | NaN

definition dbl_limit :: rat where
  "dbl_limit = 2 ^ 1024"

definition mkf :: "rat \<Rightarrow> pyfloat" where
  "mkf x = (let y = fl x in if \<bar>y\<bar> < dbl_limit then Fin y else Inf (y < 0))"

fun padd :: "pyfloat \<Rightarrow> pyfloat \<Rightarrow> pyfloat" where
  "padd (Fin a) (Fin b) = mkf (a + b)"
| "padd (Inf s) (Inf t) = (if s = t then Inf s else NaN)"
| "padd (Inf s) (Fin _) = Inf s"
| "padd (Fin _) (Inf s) = Inf s"
| "padd NaN _ = NaN"
| "padd _ NaN = NaN"

fun pmul :: "pyfloat \<Rightarrow> pyfloat \<Rightarrow> pyfloat" where
  "pmul (Fin a) (Fin b) = mkf (a * b)"
| "pmul (Inf s) (Inf t) = Inf (s \<noteq> t)"
| "pmul (Inf s) (Fin b) = (if b = 0 then NaN else Inf (s \<noteq> (b < 0)))"
| "pmul (Fin a) (Inf t) = (if a = 0 then NaN else Inf (t \<noteq> (a < 0)))"
| "pmul NaN _ = NaN"
| "pmul _ NaN = NaN"

fun pneg :: "pyfloat \<Rightarrow> pyfloat" where
  "pneg (Fin a) = Fin (- a)"
| "pneg (Inf s) = Inf (\<not> s)"
| "pneg NaN = NaN"

text \<open>Division by a positive finite constant, and rounding.\<close>

fun pdivc :: "pyfloat \<Rightarrow> rat \<Rightarrow> pyfloat" where
  "pdivc (Fin a) c = mkf (a / c)"
| "pdivc (Inf s) c = Inf s"
| "pdivc NaN c = NaN"

fun pround :: "nat \<Rightarrow> pyfloat \<Rightarrow> pyfloat" where
  "pround n (Fin x) = Fin (py_round n x)"
| "pround n (Inf s) = Inf s"
| "pround n NaN = NaN"

fun plt :: "pyfloat \<Rightarrow> pyfloat \<Rightarrow> bool" where
  "plt (Fin a) (Fin b) = (a < b)"
| "plt (Inf s) (Inf t) = (s \<and> \<not> t)"
| "plt (Inf s) (Fin _) = s"
| "plt (Fin _) (Inf t) = (\<not> t)"
| "plt NaN _ = False"
| "plt _ NaN = False"

fun is_finite :: "pyfloat \<Rightarrow> bool" where
  "is_finite (Fin _) = True"
| "is_finite _ = False"

end
