(* ===== verification/Py_Value.thy ===== *)
theory Py_Value
  imports Py_Float
begin

text \<open>
  Dynamic Python values: what \<open>json.loads\<close> and \<open>yaml.safe_load\<close> return and what the code tests
  with \<open>isinstance\<close>, \<open>float\<close> and \<open>==\<close>. The keys of an object are strings, as in JSON. A file is
  modelled by the outcome of reading and decoding it, so that a parser is never invented: what a
  file holds is a parameter of the operations that read it.
\<close>

datatype pyval =
    PyNone
  | PyBool bool
  | PyInt int
  | PyFloat pyfloat
  | PyStr string
  | PyList "pyval list"
  | PyDict "(string \<times> pyval) list"

datatype json_file =
    NoFile
  | OsErrorOnRead
  | NotUtf8
  | BadJson
  | JsonDoc pyval

text \<open>\<open>float(n)\<close> of an integer; \<open>None\<close> is \<open>OverflowError\<close>.\<close>

definition float_of_int :: "int \<Rightarrow> pyfloat option" where
  "float_of_int n = (case mkf (of_int n) of Fin x \<Rightarrow> Some (Fin x) | _ \<Rightarrow> None)"

text \<open>\<open>float(f)\<close> of a float: the value itself, for every rational that a double can hold.\<close>

fun pfloat :: "pyfloat \<Rightarrow> pyfloat" where
  "pfloat (Fin x) = mkf x"
| "pfloat (Inf s) = Inf s"
| "pfloat NaN = NaN"

text \<open>\<open>v == n\<close> for an integer constant.\<close>

fun py_eq_int :: "pyval \<Rightarrow> int \<Rightarrow> bool" where
  "py_eq_int (PyInt m) n = (m = n)"
| "py_eq_int (PyBool b) n = ((if b then 1 else 0) = n)"
| "py_eq_int (PyFloat (Fin x)) n = (x = of_int n)"
| "py_eq_int _ n = False"

section \<open>Non-negative floats\<close>

fun pnonneg :: "pyfloat \<Rightarrow> bool" where
  "pnonneg (Fin x) = (0 \<le> x)"
| "pnonneg (Inf s) = (\<not> s)"
| "pnonneg NaN = False"

text \<open>\<open>a <= b\<close>, false on NaN.\<close>

fun ple :: "pyfloat \<Rightarrow> pyfloat \<Rightarrow> bool" where
  "ple (Fin a) (Fin b) = (a \<le> b)"
| "ple (Inf s) (Inf t) = (s \<or> \<not> t)"
| "ple (Inf s) (Fin _) = s"
| "ple (Fin _) (Inf t) = (\<not> t)"
| "ple NaN _ = False"
| "ple _ NaN = False"

text \<open>A finite value is one a double can hold.\<close>

fun pdouble :: "pyfloat \<Rightarrow> bool" where
  "pdouble (Fin x) = (fl x = x \<and> \<bar>x\<bar> < dbl_limit)"
| "pdouble _ = True"

lemma ple_refl: "v \<noteq> NaN \<Longrightarrow> ple v v"
  by (cases v) auto

lemma ple_trans: "ple a b \<Longrightarrow> ple b c \<Longrightarrow> ple a c"
  by (cases a; cases b; cases c) auto

lemma pnonneg_not_NaN: "pnonneg v \<Longrightarrow> v \<noteq> NaN"
  by auto

lemma pdouble_mkf [simp]: "pdouble (mkf x)"
  by (simp add: mkf_def Let_def fl_idem)

lemma pnonneg_mkf: "0 \<le> x \<Longrightarrow> pnonneg (mkf x)"
  using fl_nonneg [of x] by (auto simp: mkf_def Let_def)

lemma mkf_Fin: "mkf x = Fin y \<Longrightarrow> y = fl x"
  by (auto simp: mkf_def Let_def split: if_splits)

lemma mkf_double: "pdouble (Fin x) \<Longrightarrow> mkf x = Fin x"
  by (simp add: mkf_def)

lemma pfloat_double [simp]: "pdouble f \<Longrightarrow> pfloat f = f"
  by (cases f) (simp_all add: mkf_def)

lemma pdouble_pfloat [simp]: "pdouble (pfloat f)"
  by (cases f) simp_all

lemma float_of_int_finite: "float_of_int n = Some f \<Longrightarrow> is_finite f \<and> f = mkf (of_int n)"
  by (cases "mkf (of_int n)") (auto simp: float_of_int_def)

lemma mkf_mono: "x \<le> y \<Longrightarrow> ple (mkf x) (mkf y)"
  using fl_mono [of x y] by (auto simp: mkf_def Let_def)

lemma padd_double [simp]: "pdouble (padd a b)"
  by (cases a; cases b) auto

lemma padd_nonneg: "pnonneg a \<Longrightarrow> pnonneg b \<Longrightarrow> pnonneg (padd a b)"
  by (cases a; cases b) (auto simp: pnonneg_mkf)

text \<open>Adding something non-negative to a double never lowers it.\<close>

lemma padd_grows:
  assumes "pnonneg a" and "pnonneg b" and "pdouble a"
  shows "ple a (padd a b)"
proof (cases a)
  case (Fin x)
  show ?thesis
  proof (cases b)
    case b: (Fin y)
    have "ple (mkf x) (mkf (x + y))"
      using assms Fin b by (intro mkf_mono) simp
    then show ?thesis
      using assms(3) Fin b by (simp add: mkf_double)
  qed (use assms Fin in auto)
qed (use assms in \<open>cases b; auto\<close>)+

lemma pmul_nonneg: "pnonneg (Fin a) \<Longrightarrow> pnonneg (Fin b) \<Longrightarrow> pnonneg (pmul (Fin a) (Fin b))"
  by (simp add: pnonneg_mkf)

lemma pdivc_mono: "0 < c \<Longrightarrow> ple a b \<Longrightarrow> ple (pdivc a c) (pdivc b c)"
proof -
  assume c: "0 < c" and ab: "ple a b"
  show ?thesis
  proof (cases a)
    case (Fin x)
    then show ?thesis
      using ab c by (cases b) (auto simp: mkf_mono divide_right_mono, auto simp: mkf_def Let_def)
  next
    case (Inf s)
    then show ?thesis
      using ab c by (cases b) (auto simp: mkf_def Let_def)
  qed (use ab in simp)
qed

lemma pround_mono: "ple a b \<Longrightarrow> ple (pround n a) (pround n b)"
  by (cases a; cases b) (auto simp: py_round.r_mono)

section \<open>Counters that never go back\<close>

text \<open>The contract a \<open>total_increasing\<close> sensor rests on: every event keeps the invariant and lowers no
  reading. Home Assistant takes a decrease of such a sensor for a meter reset.\<close>

locale monotone_counter =
  fixes inv :: "'s \<Rightarrow> bool"
    and step :: "'e \<Rightarrow> 's \<Rightarrow> 's"
    and reading :: "'k \<Rightarrow> 's \<Rightarrow> pyfloat"
  assumes inv_step: "inv s \<Longrightarrow> inv (step e s)"
    and reading_step: "inv s \<Longrightarrow> ple (reading k s) (reading k (step e s))"
begin

lemma inv_run: "inv s \<Longrightarrow> inv (fold step es s)"
  by (induction es arbitrary: s) (simp_all add: inv_step)

lemma reading_refl: "inv s \<Longrightarrow> ple (reading k s) (reading k s)"
  using reading_step [of s k] by (cases "reading k s") auto

lemma reading_run: "inv s \<Longrightarrow> ple (reading k s) (reading k (fold step es s))"
proof (induction es arbitrary: s)
  case (Cons e es)
  then show ?case
    using ple_trans [OF reading_step] inv_step by fastforce
qed (simp add: reading_refl)

end

end
