(* ===== verification/Srne_Map.thy ===== *)
theory Srne_Map
  imports Modbus Py_Float
begin

text \<open>
  \<open>srne_map.py\<close> and \<open>parsers.py\<close>: the register map of the inverter, and its application to a
  decoded frame. The tables are transcribed entry by entry, in source order. A float literal of
  the source is \<open>flit k j\<close>, the double nearest to \<open>k / 10 ^ j\<close>; a string is the list of its code
  points (all below 256 here). The central result is that the sensor value \<open>round(val * scale, 4)\<close>,
  three roundings in the code, is the double nearest to the exact decimal the datasheet means.
\<close>

definition flit :: "int \<Rightarrow> nat \<Rightarrow> rat" where
  "flit k j = fl (of_int k / 10 ^ j)"

section \<open>The tables\<close>

datatype block_tier = HOT | COLD

datatype block = Block (bl_addr: int) (bl_count: nat) (bl_name: string) (bl_tier: block_tier)

datatype field =
  Field (fd_block_addr: int) (fd_offset: nat) (fd_key: string) (fd_scale: rat) (fd_signed: bool)
    (fd_unit: string) (fd_device_class: "string option") (fd_state_class: "string option")

definition BLOCKS :: "block list" where
  "BLOCKS =
     [Block 0x0100 15 ''battery'' HOT,
      Block 0x0210 19 ''state'' HOT,
      Block 0x0223 23 ''phase_b'' HOT,
      Block 0x0014 10 ''device_info'' COLD,
      Block 0x010F 3 ''pv2'' HOT,
      Block 0x0204 6 ''faults'' COLD,
      Block 0xF000 8 ''runtime_ctrs'' COLD,
      Block 0xF02C 18 ''daily_stats'' COLD]"

definition FIELDS :: "field list" where
  "FIELDS =
     [Field 0x0100 0 ''battery_state_of_charge'' (flit 1 0) False ''%'' (Some ''battery'') (Some ''measurement''),
      Field 0x0100 1 ''battery_voltage'' (flit 1 1) False ''V'' (Some ''voltage'') (Some ''measurement''),
      Field 0x0100 2 ''battery_current'' (- flit 1 1) True ''A'' (Some ''current'') (Some ''measurement''),
      Field 0x0100 7 ''pv1_voltage'' (flit 1 1) False ''V'' (Some ''voltage'') (Some ''measurement''),
      Field 0x0100 8 ''pv1_current'' (flit 1 1) False ''A'' (Some ''current'') (Some ''measurement''),
      Field 0x0100 9 ''pv1_power'' (flit 1 0) False ''W'' (Some ''power'') (Some ''measurement''),
      Field 0x0100 11 ''charge_state_code'' (flit 1 0) False '''' None None,
      Field 0x0210 0 ''inverter_state_code'' (flit 1 0) False '''' None None,
      Field 0x0210 1 ''inverter_substate_code'' (flit 1 0) False '''' None None,
      Field 0x0210 2 ''bus_voltage'' (flit 1 1) False ''V'' (Some ''voltage'') (Some ''measurement''),
      Field 0x0210 3 ''grid_voltage_l1'' (flit 1 1) False ''V'' (Some ''voltage'') (Some ''measurement''),
      Field 0x0210 4 ''grid_current_l1'' (flit 1 1) False ''A'' (Some ''current'') (Some ''measurement''),
      Field 0x0210 5 ''grid_frequency'' (flit 1 2) False ''Hz'' (Some ''frequency'') (Some ''measurement''),
      Field 0x0210 6 ''ac_output_voltage_l1'' (flit 1 1) False ''V'' (Some ''voltage'') (Some ''measurement''),
      Field 0x0210 7 ''ac_output_current_l1'' (flit 1 1) False ''A'' (Some ''current'') (Some ''measurement''),
      Field 0x0210 8 ''ac_output_frequency'' (flit 1 2) False ''Hz'' (Some ''frequency'') (Some ''measurement''),
      Field 0x0210 9 ''load_percent_alt'' (flit 1 0) False ''%'' None (Some ''measurement''),
      Field 0x0210 11 ''load_active_phase_a'' (flit 1 0) False ''W'' (Some ''power'') (Some ''measurement''),
      Field 0x0210 12 ''load_apparent_phase_a'' (flit 1 0) False ''VA'' (Some ''apparent_power'') (Some ''measurement''),
      Field 0x0210 15 ''load_percent'' (flit 1 0) False ''%'' None (Some ''measurement''),
      Field 0x0210 16 ''temperature_dc_dc'' (flit 1 1) False [CHR 0xB0, CHR ''C''] (Some ''temperature'') (Some ''measurement''),
      Field 0x0210 17 ''temperature_dc_ac'' (flit 1 1) False [CHR 0xB0, CHR ''C''] (Some ''temperature'') (Some ''measurement''),
      Field 0x0210 18 ''temperature_transformer'' (flit 1 1) False [CHR 0xB0, CHR ''C''] (Some ''temperature'') (Some ''measurement''),
      Field 0x0223 9 ''ac_output_voltage_l2'' (flit 1 1) False ''V'' (Some ''voltage'') (Some ''measurement''),
      Field 0x0223 11 ''ac_output_current_l2'' (flit 1 1) False ''A'' (Some ''current'') (Some ''measurement''),
      Field 0x0223 13 ''load_current_phase_b'' (flit 1 1) False ''A'' (Some ''current'') (Some ''measurement''),
      Field 0x0223 15 ''load_active_phase_b'' (flit 1 0) False ''W'' (Some ''power'') (Some ''measurement''),
      Field 0x0223 17 ''load_apparent_phase_b'' (flit 1 0) False ''VA'' (Some ''apparent_power'') (Some ''measurement''),
      Field 0x010F 0 ''pv2_voltage'' (flit 1 1) False ''V'' (Some ''voltage'') (Some ''measurement''),
      Field 0x010F 1 ''pv2_current'' (flit 1 1) False ''A'' (Some ''current'') (Some ''measurement''),
      Field 0x010F 2 ''pv2_power'' (flit 1 0) True ''W'' (Some ''power'') (Some ''measurement''),
      Field 0x0014 0 ''firmware_version'' (flit 1 2) False '''' None None,
      Field 0x0014 3 ''hardware_version'' (flit 1 2) False '''' None None,
      Field 0xF000 0 ''pv_energy_yesterday'' (flit 1 1) False ''kWh'' (Some ''energy'') (Some ''measurement''),
      Field 0xF000 1 ''pv_energy_2_days_ago'' (flit 1 1) False ''kWh'' (Some ''energy'') (Some ''measurement''),
      Field 0xF000 2 ''pv_energy_3_days_ago'' (flit 1 1) False ''kWh'' (Some ''energy'') (Some ''measurement''),
      Field 0xF000 3 ''pv_energy_4_days_ago'' (flit 1 1) False ''kWh'' (Some ''energy'') (Some ''measurement''),
      Field 0xF000 4 ''pv_energy_5_days_ago'' (flit 1 1) False ''kWh'' (Some ''energy'') (Some ''measurement''),
      Field 0xF000 5 ''pv_energy_6_days_ago'' (flit 1 1) False ''kWh'' (Some ''energy'') (Some ''measurement''),
      Field 0xF000 6 ''pv_energy_7_days_ago'' (flit 1 1) False ''kWh'' (Some ''energy'') (Some ''measurement''),
      Field 0xF02C 1 ''battery_charge_ah_today'' (flit 1 0) False ''Ah'' None (Some ''total_increasing''),
      Field 0xF02C 2 ''battery_discharge_ah_today'' (flit 1 0) False ''Ah'' None (Some ''total_increasing''),
      Field 0xF02C 3 ''pv_energy_today'' (flit 1 1) False ''kWh'' (Some ''energy'') (Some ''total_increasing''),
      Field 0xF02C 4 ''load_energy_today'' (flit 1 1) False ''kWh'' (Some ''energy'') (Some ''total_increasing'')]"

definition fields_for :: "int \<Rightarrow> field list" where
  "fields_for block_addr = filter (\<lambda>f. fd_block_addr f = block_addr) FIELDS"

definition INVERTER_STATE_LOOKUP :: "(int, string) dict" where
  "INVERTER_STATE_LOOKUP =
     [(0, ''Initialization''), (1, ''Standby''), (2, ''Grid''), (3, ''Battery'')]"

definition CHARGE_STATE_LOOKUP :: "(int, string) dict" where
  "CHARGE_STATE_LOOKUP =
     [(0, ''Idle''), (1, ''PV charging''), (2, ''Boost charging''), (3, ''Float'')]"

text \<open>\<open>str.strip()\<close> over printable ASCII removes spaces only.\<close>

definition strip_spaces :: "string \<Rightarrow> string" where
  "strip_spaces s = rev (dropWhile (\<lambda>c. c = CHR '' '') (rev (dropWhile (\<lambda>c. c = CHR '' '') s)))"

definition ascii_decode_regs :: "int list \<Rightarrow> string" where
  "ascii_decode_regs regs =
     strip_spaces (map (\<lambda>b. char_of (nat b))
       (filter (\<lambda>b. 0x20 \<le> b \<and> b \<le> 0x7E) (map (\<lambda>r. r AND 0xFF) regs)))"

section \<open>Parsing a block\<close>

record parsed_block =
  pb_block_addr :: int
  pb_block_name :: string
  pb_slave :: int
  pb_regs_raw :: "int list"
  pb_fields :: "(string, rat) dict"

datatype parse_error =
    UnknownBlock int
  | WrongCount int nat nat
  | RegIndexError nat

definition s16 :: "int \<Rightarrow> int" where
  "s16 v = (if v AND 0x8000 \<noteq> 0 then v - 0x10000 else v)"

definition field_val :: "int list \<Rightarrow> field \<Rightarrow> int" where
  "field_val regs f = (let raw = regs ! fd_offset f in if fd_signed f then s16 raw else raw)"

fun decode_fields :: "int list \<Rightarrow> (string, rat) dict \<Rightarrow> field list \<Rightarrow> parse_error + (string, rat) dict"
where
  "decode_fields regs out [] = Inr out"
| "decode_fields regs out (f # fs) =
     (if length regs \<le> fd_offset f then Inl (RegIndexError (fd_offset f))
      else decode_fields regs
        (dset (fd_key f) (py_round 4 (fl (of_int (field_val regs f) * fd_scale f))) out) fs)"

definition parse_block :: "int \<Rightarrow> modbus_frame \<Rightarrow> parse_error + parsed_block" where
  "parse_block block_addr frame =
     (case find (\<lambda>b. bl_addr b = block_addr) BLOCKS of
        None \<Rightarrow> Inl (UnknownBlock block_addr)
      | Some block \<Rightarrow>
          if length (mf_regs frame) \<noteq> bl_count block
          then Inl (WrongCount block_addr (bl_count block) (length (mf_regs frame)))
          else
            case decode_fields (mf_regs frame) [] (fields_for block_addr) of
              Inl e \<Rightarrow> Inl e
            | Inr out \<Rightarrow> Inr \<lparr>pb_block_addr = block_addr, pb_block_name = bl_name block,
                pb_slave = mf_slave frame, pb_regs_raw = mf_regs frame, pb_fields = out\<rparr>)"

section \<open>Facts about the tables\<close>

text \<open>The decimal a scale stands for: every scale of the map is a multiple of 0.01.\<close>

definition nominal :: "field \<Rightarrow> rat" where
  "nominal f = of_int (rne (fd_scale f * 100)) / 100"

lemma pow2_normal: "pow2 (- 1022) \<le> 1 / 10 ^ 5"
proof -
  have "pow2 (- 1022) \<le> pow2 (- 17)"
    by (simp only: pow2_le)
  also have "\<dots> \<le> 1 / 10 ^ 5"
    by (simp add: power_int_def power_one_over field_simps)
  finally show ?thesis .
qed

lemma scaled_decimal:
  assumes v: "\<bar>v\<bar> \<le> 65536" and k: "\<bar>k\<bar> = 1" and j: "j \<le> 4"
  shows "py_round 4 (fl (of_int v * flit k j)) = fl (of_int (v * k) / 10 ^ j)"
proof (cases "v = 0")
  case False
  define q s p where "q = (of_int k / 10 ^ j :: rat)" and "s = flit k j" and "p = of_int v * s"
  have "(10 :: rat) ^ j \<le> 10 ^ 4"
    using j by (intro power_increasing) simp_all
  moreover have "\<bar>q\<bar> = 1 / 10 ^ j"
    using k by (simp add: q_def of_int_abs [symmetric] del: of_int_abs)
  moreover have "(1 :: rat) \<le> 10 ^ j"
    by (simp add: one_le_power)
  ultimately have q: "1 / 10 ^ 4 \<le> \<bar>q\<bar>" "\<bar>q\<bar> \<le> 1"
    by (simp_all only:) (simp_all add: frac_le)
  have s: "\<bar>s - q\<bar> \<le> 1 / 2 ^ 53"
    using fl_rel_error [of q] q pow2_normal by (simp add: s_def flit_def q_def [symmetric])
  have v1: "1 \<le> \<bar>of_int v :: rat\<bar>" "\<bar>of_int v :: rat\<bar> \<le> 65536"
    using False v by linarith+
  have "\<bar>p - of_int v * q\<bar> = \<bar>of_int v\<bar> * \<bar>s - q\<bar>"
    by (simp add: p_def right_diff_distrib [symmetric] abs_mult)
  also have "\<dots> \<le> 65536 * (1 / 2 ^ 53)"
    using v1 s by (intro mult_mono) simp_all
  finally have pq: "\<bar>p - of_int v * q\<bar> \<le> 65536 / 2 ^ 53"
    by simp
  have "\<bar>p\<bar> = \<bar>of_int v\<bar> * \<bar>s\<bar>"
    by (simp add: p_def abs_mult)
  moreover have "(1 :: rat) / 2 ^ 53 \<le> 1 / 10 ^ 5"
    by simp
  then have s2: "\<bar>s\<bar> \<le> 2" and s5: "1 / 10 ^ 5 \<le> \<bar>s\<bar>"
    using s q abs_triangle_ineq2 [of s q] abs_triangle_ineq2 [of q s]
    unfolding abs_minus_commute [of q s] by simp_all
  moreover have "\<bar>of_int v\<bar> * \<bar>s\<bar> \<le> 65536 * 2"
    by (intro mult_mono v1 s2) simp_all
  moreover have "1 * (1 / 10 ^ 5) \<le> \<bar>of_int v\<bar> * \<bar>s\<bar>"
    by (intro mult_mono v1 s5) simp_all
  ultimately have p: "\<bar>p\<bar> \<le> 65536 * 2" "1 / 10 ^ 5 \<le> \<bar>p\<bar>"
    by simp_all
  then have "\<bar>fl p - p\<bar> \<le> \<bar>p\<bar> / 2 ^ 53"
    using pow2_normal by (intro fl_rel_error disjI2) linarith
  then have near: "\<bar>fl p - of_int v * q\<bar> < 1 / (2 * 10 ^ 4)"
    using pq p abs_triangle_ineq [of "fl p - p" "p - of_int v * q"] by simp
  have "(10 :: rat) ^ 4 = 10 ^ j * 10 ^ (4 - j)"
    using j by (simp add: power_add [symmetric])
  then have m: "of_int (v * k * 10 ^ (4 - j)) / 10 ^ 4 = of_int v * q"
    by (simp add: q_def field_simps)
  have "py_round 4 (fl p) = fl (of_int (v * k * 10 ^ (4 - j)) / 10 ^ 4)"
    by (rule py_round_near) (simp only: m near)
  then have "py_round 4 (fl p) = fl (of_int v * q)"
    by (simp only: m)
  then show ?thesis
    by (simp add: q_def p_def s_def)
qed (simp add: flit_def)

definition SCALES :: "(int \<times> nat) list" where
  "SCALES = [(1, 0), (1, 1), (- 1, 1), (1, 2)]"

lemma flit_minus: "- flit k j = flit (- k) j"
  by (simp add: flit_def fl_minus [symmetric])

lemma field_scales: "f \<in> set FIELDS \<Longrightarrow> \<exists>(k, j) \<in> set SCALES. fd_scale f = flit k j"
proof -
  have "list_all (\<lambda>x. x = flit 1 0 \<or> x = flit 1 1 \<or> x = flit (- 1) 1 \<or> x = flit 1 2) (map fd_scale FIELDS)"
    by (simp add: FIELDS_def flit_minus)
  then show "f \<in> set FIELDS \<Longrightarrow> ?thesis"
    unfolding list_all_iff SCALES_def by fastforce
qed

lemma flit_nominal: "rne (flit 1 0 * 100) = 100" "rne (flit 1 1 * 100) = 10"
  "rne (flit (- 1) 1 * 100) = - 10" "rne (flit 1 2 * 100) = 1"
  by code_simp+

lemma scale_nominal:
  assumes "f \<in> set FIELDS"
  shows "\<exists>k j. fd_scale f = flit k j \<and> nominal f = of_int k / 10 ^ j \<and> \<bar>k\<bar> = 1 \<and> j \<le> 4"
proof -
  obtain k j where "(k, j) \<in> set SCALES" and s: "fd_scale f = flit k j"
    using field_scales [OF assms] by auto
  then show ?thesis
    by (intro exI [of _ k] exI [of _ j]) (auto simp: SCALES_def nominal_def flit_nominal simp del: One_nat_def)
qed

lemma FIELDS_keys: "map fd_key FIELDS =
   [''battery_state_of_charge'', ''battery_voltage'', ''battery_current'', ''pv1_voltage'',
    ''pv1_current'', ''pv1_power'', ''charge_state_code'', ''inverter_state_code'',
    ''inverter_substate_code'', ''bus_voltage'', ''grid_voltage_l1'', ''grid_current_l1'',
    ''grid_frequency'', ''ac_output_voltage_l1'', ''ac_output_current_l1'',
    ''ac_output_frequency'', ''load_percent_alt'', ''load_active_phase_a'',
    ''load_apparent_phase_a'', ''load_percent'', ''temperature_dc_dc'', ''temperature_dc_ac'',
    ''temperature_transformer'', ''ac_output_voltage_l2'', ''ac_output_current_l2'',
    ''load_current_phase_b'', ''load_active_phase_b'', ''load_apparent_phase_b'', ''pv2_voltage'',
    ''pv2_current'', ''pv2_power'', ''firmware_version'', ''hardware_version'',
    ''pv_energy_yesterday'', ''pv_energy_2_days_ago'', ''pv_energy_3_days_ago'',
    ''pv_energy_4_days_ago'', ''pv_energy_5_days_ago'', ''pv_energy_6_days_ago'',
    ''pv_energy_7_days_ago'', ''battery_charge_ah_today'', ''battery_discharge_ah_today'',
    ''pv_energy_today'', ''load_energy_today'']"
  by (simp add: FIELDS_def)

lemma distinct_keys: "distinct (map fd_key FIELDS)"
  unfolding FIELDS_keys by simp

lemma offsets_fit:
  "\<forall>f \<in> set FIELDS. \<forall>b \<in> set BLOCKS. bl_addr b = fd_block_addr f \<longrightarrow> fd_offset f < bl_count b"
  by (simp add: FIELDS_def BLOCKS_def)

lemma distinct_blocks: "distinct (map bl_addr BLOCKS)"
  by (simp add: BLOCKS_def)

lemma s16_sint: "0 \<le> v \<Longrightarrow> v < 65536 \<Longrightarrow> s16 v = sint (word_of_int v :: 16 word)"
proof -
  assume v: "0 \<le> v" "v < 65536"
  have "v AND 0x8000 \<noteq> 0 \<longleftrightarrow> bit v 15"
    using bit_iff_and_push_bit_not_eq_0 [of v 15] by (simp add: push_bit_eq_mult)
  moreover have "bit v 15 \<longleftrightarrow> 32768 \<le> v"
    using v div_pos_geq [of 32768 v] by (cases "32768 \<le> v") (simp_all add: bit_iff_odd)
  moreover have "sint (word_of_int v :: 16 word) = signed_take_bit 15 v"
    by (simp add: sint_sbintrunc')
  ultimately show ?thesis
    using v by (simp add: s16_def signed_take_bit_eq_take_bit_minus take_bit_eq_mod)
qed

text \<open>The integer a register means to a field: unsigned, or two's complement.\<close>

definition reg_meaning :: "bool \<Rightarrow> int \<Rightarrow> int" where
  "reg_meaning sg r = (if sg then sint (word_of_int r :: 16 word) else r)"

definition spec_fields :: "int \<Rightarrow> int list \<Rightarrow> (string, rat) dict" where
  "spec_fields addr regs = map (\<lambda>f. (fd_key f,
     fl (of_int (reg_meaning (fd_signed f) (regs ! fd_offset f)) * nominal f))) (fields_for addr)"

lemma field_val_meaning:
  assumes "reg_range regs" and "fd_offset f < length regs"
  shows "field_val regs f = reg_meaning (fd_signed f) (regs ! fd_offset f)"
    and "\<bar>field_val regs f\<bar> \<le> 65536"
proof -
  have r: "0 \<le> regs ! fd_offset f" "regs ! fd_offset f < 65536"
    using assms by (auto simp: reg_range_def)
  then show "field_val regs f = reg_meaning (fd_signed f) (regs ! fd_offset f)"
    by (simp add: field_val_def reg_meaning_def s16_sint)
  show "\<bar>field_val regs f\<bar> \<le> 65536"
    using r by (simp add: field_val_def s16_def Let_def)
qed

lemma decode_field:
  assumes "reg_range regs" and "f \<in> set FIELDS" and "fd_offset f < length regs"
  shows "py_round 4 (fl (of_int (field_val regs f) * fd_scale f)) =
     fl (of_int (reg_meaning (fd_signed f) (regs ! fd_offset f)) * nominal f)"
proof -
  obtain k j where "fd_scale f = flit k j" "nominal f = of_int k / 10 ^ j" "\<bar>k\<bar> = 1" "j \<le> 4"
    using scale_nominal [OF assms(2)] by blast
  then show ?thesis
    using scaled_decimal [of "field_val regs f" k j] field_val_meaning [OF assms(1,3)] by simp
qed

lemma dset_new: "k \<notin> set (dkeys d) \<Longrightarrow> dset k v d = d @ [(k, v)]"
  by (induction d) (auto simp: dkeys_def)

lemma decode_fields_list:
  assumes "reg_range regs" and "set fs \<subseteq> set FIELDS" and "\<forall>f \<in> set fs. fd_offset f < length regs"
    and "distinct (map fd_key fs)" and "set (dkeys out) \<inter> fd_key ` set fs = {}"
  shows "decode_fields regs out fs = Inr (out @ map (\<lambda>f. (fd_key f,
     fl (of_int (reg_meaning (fd_signed f) (regs ! fd_offset f)) * nominal f))) fs)"
  using assms
proof (induction fs arbitrary: out)
  case (Cons f fs)
  then show ?case
    by (simp add: decode_field dset_new) (subst Cons.IH, auto simp: dkeys_def)
qed simp

lemma find_block_Some:
  "find (\<lambda>b. bl_addr b = a) BLOCKS = Some b \<longleftrightarrow> b \<in> set BLOCKS \<and> bl_addr b = a"
  unfolding find_Some_iff using distinct_blocks
  by (auto simp: distinct_conv_nth in_set_conv_nth)

lemma parse_block_known:
  assumes "b \<in> set BLOCKS" and "length (mf_regs frame) = bl_count b" and "reg_range (mf_regs frame)"
  shows "parse_block (bl_addr b) frame = Inr \<lparr>pb_block_addr = bl_addr b, pb_block_name = bl_name b,
     pb_slave = mf_slave frame, pb_regs_raw = mf_regs frame,
     pb_fields = spec_fields (bl_addr b) (mf_regs frame)\<rparr>"
proof -
  have "decode_fields (mf_regs frame) [] (fields_for (bl_addr b)) =
      Inr (spec_fields (bl_addr b) (mf_regs frame))"
    using assms offsets_fit distinct_keys
    by (subst decode_fields_list)
      (auto simp: fields_for_def spec_fields_def dkeys_def distinct_map inj_on_def)
  moreover have "find (\<lambda>c. bl_addr c = bl_addr b) BLOCKS = Some b"
    using assms by (simp add: find_block_Some)
  ultimately show ?thesis
    using assms by (simp add: parse_block_def)
qed


lemma fl_tenth_sign:
  "0 < fl (- of_int m / 10) \<longleftrightarrow> m < 0" "fl (- of_int m / 10) = 0 \<longleftrightarrow> m = 0"
proof -
  have pos: "0 < fl (of_int n / 10)" if "0 < n" for n :: int
  proof -
    have "fl (1 / 10) \<le> fl (of_int n / 10)"
      using that by (intro fl_mono) simp
    moreover have "0 < fl (1 / 10)"
      by code_simp
    ultimately show ?thesis by simp
  qed
  consider "m < 0" | "m = 0" | "0 < m" by linarith
  then have "(0 < fl (- of_int m / 10) \<longleftrightarrow> m < 0) \<and> (fl (- of_int m / 10) = 0 \<longleftrightarrow> m = 0)"
  proof cases
    case 1
    then show ?thesis using pos [of "- m"] by simp
  next
    case 3
    then show ?thesis using pos [of m] fl_minus [of "of_int m / 10"] by simp
  qed simp
  then show "0 < fl (- of_int m / 10) \<longleftrightarrow> m < 0" "fl (- of_int m / 10) = 0 \<longleftrightarrow> m = 0"
    by simp_all
qed

lemma fields_for_battery: "fields_for 256 = take 7 FIELDS"
  by (simp add: fields_for_def FIELDS_def)

lemma spec_fields_battery:
  "dget (spec_fields 256 regs) ''battery_current'' =
     Some (fl (- of_int (sint (word_of_int (regs ! 2) :: 16 word)) / 10))"
  unfolding spec_fields_def fields_for_battery
  by (simp add: FIELDS_def reg_meaning_def nominal_def flit_minus
      flit_nominal del: of_int_sint One_nat_def)

section \<open>Properties\<close>

text \<open>C5. Parsing a block of registers is total and exact: an address outside the map and a wrong
  register count give their errors, no register index is ever out of range, and otherwise the
  result carries, for every field of the block in the order of the map, the double nearest to the
  exact decimal \<open>register * scale\<close> (the register read as a signed or unsigned 16-bit integer, the
  scale as the decimal written in the map), although the code multiplies by an inexact binary
  scale and rounds three times.\<close>

theorem parse_block_exact:
  assumes "reg_range (mf_regs frame)"
  shows "parse_block addr frame =
    (case find (\<lambda>b. bl_addr b = addr) BLOCKS of
       None \<Rightarrow> Inl (UnknownBlock addr)
     | Some b \<Rightarrow>
         if length (mf_regs frame) \<noteq> bl_count b
         then Inl (WrongCount addr (bl_count b) (length (mf_regs frame)))
         else Inr \<lparr>pb_block_addr = addr, pb_block_name = bl_name b, pb_slave = mf_slave frame,
           pb_regs_raw = mf_regs frame, pb_fields = spec_fields addr (mf_regs frame)\<rparr>)"
proof (cases "find (\<lambda>b. bl_addr b = addr) BLOCKS")
  case None
  then show ?thesis by (simp add: parse_block_def)
next
  case (Some b)
  then have b: "b \<in> set BLOCKS" "bl_addr b = addr"
    by (simp_all add: find_block_Some)
  show ?thesis
  proof (cases "length (mf_regs frame) = bl_count b")
    case True
    with parse_block_known [OF b(1) True assms] show ?thesis
      by (simp add: Some b(2))
  next
    case False
    with Some show ?thesis by (simp add: parse_block_def)
  qed
qed

theorem parse_block_exact_witness:
  "parse_block 0x010F \<lparr>mf_slave = 1, mf_func = 3, mf_regs = [3635, 15, 575]\<rparr> =
     Inr \<lparr>pb_block_addr = 0x010F, pb_block_name = ''pv2'', pb_slave = 1,
       pb_regs_raw = [3635, 15, 575],
       pb_fields = spec_fields 0x010F [3635, 15, 575]\<rparr>"
  using parse_block_exact [of "\<lparr>mf_slave = 1, mf_func = 3, mf_regs = [3635, 15, 575]\<rparr>" "0x010F"]
  by (simp add: reg_range_def BLOCKS_def)

text \<open>The published battery current has the sign convention the map promises: the register
  counts discharge as positive, the field is positive exactly when the two's complement register
  is negative, and its value is the double nearest to minus a tenth of the register.\<close>

theorem battery_current_sign:
  assumes "reg_range (mf_regs frame)" and "parse_block 0x0100 frame = Inr pb"
  shows "let raw = sint (word_of_int (mf_regs frame ! 2) :: 16 word);
             v = fl (- of_int raw / 10) in
    dget (pb_fields pb) ''battery_current'' = Some v \<and> (0 < v \<longleftrightarrow> raw < 0) \<and> (v = 0 \<longleftrightarrow> raw = 0)"
proof -
  have "pb_fields pb = spec_fields 0x0100 (mf_regs frame)"
    using assms parse_block_exact [OF assms(1), of "0x0100"]
    by (auto split: option.splits if_splits)
  then show ?thesis
    unfolding Let_def by (simp only: spec_fields_battery fl_tenth_sign)
qed

theorem battery_current_sign_witness:
  "let raw = sint (word_of_int 0xff6e :: 16 word); v = fl (- of_int raw / 10) in
   (0 < v \<longleftrightarrow> raw < 0) \<and> raw = - 146"
  using battery_current_sign [of "\<lparr>mf_slave = 1, mf_func = 3,
      mf_regs = [0x22, 0x210, 0xff6e, 0, 0, 0, 0, 0xe28, 0x10, 0x24b, 0, 1, 0, 3, 0]\<rparr>"]
    parse_block_known [of "Block 0x0100 15 ''battery'' HOT" "\<lparr>mf_slave = 1, mf_func = 3,
      mf_regs = [0x22, 0x210, 0xff6e, 0, 0, 0, 0, 0xe28, 0x10, 0x24b, 0, 1, 0, 3, 0]\<rparr>"]
  by (simp add: reg_range_def BLOCKS_def Let_def)

end
