(* ===== verification/Octopus.thy ===== *)
theory Octopus
  imports Crc16 Py_Float
begin

text \<open>
  \<open>bms/octopus_protocol.py\<close>: the requests sent to the battery packs over BLE, and the decoder
  of their answers. \<open>struct.pack\<close> and \<open>struct.unpack\<close> are the standard library's: big-endian
  words, with \<open>struct.error\<close> for a value that does not fit. The decoder has one error constructor
  per \<open>raise DecodeError\<close>. The encoder at the end is the answer a pack sends, and states what the
  decoder must invert.
\<close>

section \<open>Requests\<close>

definition PIA_FRAMES_LITERAL :: "(int, bytes) dict" where
  "PIA_FRAMES_LITERAL =
     [(1, [0x01, 0x04, 0x10, 0x00, 0x00, 0x12, 0x74, 0xC7]),
      (2, [0x02, 0x04, 0x10, 0x00, 0x00, 0x12, 0x74, 0xF4]),
      (3, [0x03, 0x04, 0x10, 0x00, 0x00, 0x12, 0x75, 0x25]),
      (4, [0x04, 0x04, 0x10, 0x00, 0x00, 0x12, 0x74, 0x92])]"

definition PIB_FRAMES_LITERAL :: "(int, bytes) dict" where
  "PIB_FRAMES_LITERAL =
     [(1, [0x01, 0x04, 0x11, 0x00, 0x00, 0x1A, 0x74, 0xFD]),
      (2, [0x02, 0x04, 0x11, 0x00, 0x00, 0x1A, 0x74, 0xCE]),
      (3, [0x03, 0x04, 0x11, 0x00, 0x00, 0x1A, 0x75, 0x1F]),
      (4, [0x04, 0x04, 0x11, 0x00, 0x00, 0x1A, 0x74, 0xA8])]"

definition PIA_BYTE_COUNT :: int where
  "PIA_BYTE_COUNT = 0x24"

definition PIB_BYTE_COUNT :: int where
  "PIB_BYTE_COUNT = 0x34"

definition TEMP_K10_NA_SENTINEL :: int where
  "TEMP_K10_NA_SENTINEL = 0x0AAB"

text \<open>\<open>None\<close> is \<open>struct.error\<close>.\<close>

definition build_request :: "int \<Rightarrow> int \<Rightarrow> int \<Rightarrow> int \<Rightarrow> bytes option" where
  "build_request slave addr count fc =
     (if 0 \<le> slave \<and> slave < 256 \<and> 0 \<le> fc \<and> fc < 256
         \<and> 0 \<le> addr \<and> addr < 65536 \<and> 0 \<le> count \<and> count < 65536
      then
        let body = [word_of_int slave, word_of_int fc, hi8 addr, lo8 addr, hi8 count, lo8 count];
            crc = crc16_modbus body
        in Some (body @ pack_le crc)
      else None)"

definition pia_request :: "int \<Rightarrow> bytes option" where
  "pia_request pack = build_request pack 0x1000 0x0012 0x04"

definition pib_request :: "int \<Rightarrow> bytes option" where
  "pib_request pack = build_request pack 0x1100 0x001A 0x04"

text \<open>\<open>_self_test\<close> as the conjunction of its assertions.\<close>

definition self_test :: bool where
  "self_test \<longleftrightarrow>
     (\<forall>(pack, literal) \<in> set PIA_FRAMES_LITERAL. pia_request pack = Some literal)
     \<and> (\<forall>(pack, literal) \<in> set PIB_FRAMES_LITERAL. pib_request pack = Some literal)"

section \<open>Decoded packs\<close>

record pia_data =
  pia_pack :: int
  voltage_V :: rat
  current_A :: rat
  remaining_Ah :: rat
  nominal_Ah :: rat
  soc_pct :: rat
  soh_pct :: rat
  cycles :: int
  pia_raw_response :: bytes

record pib_data =
  pib_pack :: int
  cell_v_mV :: "int list"
  cell_v_min_mV :: int
  cell_v_max_mV :: int
  cell_v_avg_mV :: int
  cell_v_delta_mV :: int
  cell_temp_C :: "rat option list"
  env_temp_C :: "rat option"
  pcb_temp_C :: "rat option"
  pib_raw_response :: bytes

datatype oct_data = Pia pia_data | Pib pib_data

datatype decode_error =
    OctTooShort nat
  | OctCrcMismatch
  | OctUnexpectedFc int
  | OctUnexpectedSlave int
  | OctTruncated nat int
  | OctUnknownByteCount int
  | PiaPayloadTooShort nat
  | PibPayloadTooShort nat
  | PibTailTooShort nat nat

text \<open>\<open>raw / 10.0 - 273.15\<close>: two roundings, the literal is a double.\<close>

definition k10_to_c :: "int \<Rightarrow> rat option" where
  "k10_to_c raw =
     (if raw = TEMP_K10_NA_SENTINEL then None
      else Some (fl (fl (of_int raw / 10) - fl (27315 / 100))))"

text \<open>\<open>struct.unpack(">h", bs)[0]\<close> of two bytes.\<close>

definition unpack_h :: "bytes \<Rightarrow> int" where
  "unpack_h bs = sint (word_of_int (regs_of bs ! 0) :: 16 word)"

definition parse_pia :: "int \<Rightarrow> bytes \<Rightarrow> bytes \<Rightarrow> decode_error + pia_data" where
  "parse_pia slave payload full_frame =
     (if length payload < 36 then Inl (PiaPayloadTooShort (length payload))
      else
        let regs_u = regs_of (take 36 payload);
            current_signed = unpack_h (pyslice 2 4 payload)
        in Inr \<lparr>pia_pack = slave,
             voltage_V = fl (of_int (regs_u ! 0) / 100),
             current_A = fl (of_int current_signed / 100),
             remaining_Ah = fl (of_int (regs_u ! 2) / 100),
             nominal_Ah = fl (of_int (regs_u ! 3) / 100),
             soc_pct = fl (of_int (regs_u ! 5) / 10),
             soh_pct = fl (of_int (regs_u ! 6) / 10),
             cycles = regs_u ! 7,
             pia_raw_response = full_frame\<rparr>)"

definition parse_pib :: "int \<Rightarrow> bytes \<Rightarrow> bytes \<Rightarrow> decode_error + pib_data" where
  "parse_pib slave payload full_frame =
     (if length payload < 52 then Inl (PibPayloadTooShort (length payload))
      else
        let cell_v = regs_of (take 32 payload);
            cell_min = Min (set cell_v);
            cell_max = Max (set cell_v);
            cell_sum = sum_list cell_v;
            cell_avg = cell_sum div 16;
            cell_delta = cell_max - cell_min;
            body_len_yaml_equivalent = 3 + length payload - 3 - 2;
            tail_start = (if body_len_yaml_equivalent = 54 then 34 else 32)
        in
          if length payload < tail_start + 20
          then Inl (PibTailTooShort (length payload) (tail_start + 20))
          else
            let cell_temps_raw = regs_of (pyslice tail_start (tail_start + 8) payload);
                env_temp_raw = regs_of (pyslice (tail_start + 16) (tail_start + 18) payload) ! 0;
                pcb_temp_raw = regs_of (pyslice (tail_start + 18) (tail_start + 20) payload) ! 0
            in Inr \<lparr>pib_pack = slave, cell_v_mV = cell_v,
                 cell_v_min_mV = cell_min, cell_v_max_mV = cell_max,
                 cell_v_avg_mV = cell_avg, cell_v_delta_mV = cell_delta,
                 cell_temp_C = map k10_to_c cell_temps_raw,
                 env_temp_C = k10_to_c env_temp_raw, pcb_temp_C = k10_to_c pcb_temp_raw,
                 pib_raw_response = full_frame\<rparr>)"

definition oct_parse_response :: "bytes \<Rightarrow> decode_error + oct_data" where
  "oct_parse_response frame =
     (if length frame < 5 then Inl (OctTooShort (length frame))
      else if \<not> verify_crc frame then Inl OctCrcMismatch
      else
        let slave = uint (frame ! 0); fc = uint (frame ! 1); byte_count = uint (frame ! 2) in
        if fc \<noteq> 0x04 then Inl (OctUnexpectedFc fc)
        else if slave < 1 \<or> 4 < slave then Inl (OctUnexpectedSlave slave)
        else
          let expected_total = 3 + byte_count + 2 in
          if int (length frame) < expected_total then Inl (OctTruncated (length frame) byte_count)
          else
            let payload = pyslice 3 (nat (3 + byte_count)) frame in
            if byte_count = PIA_BYTE_COUNT then
              (case parse_pia slave payload frame of Inl e \<Rightarrow> Inl e | Inr d \<Rightarrow> Inr (Pia d))
            else if byte_count = PIB_BYTE_COUNT then
              (case parse_pib slave payload frame of Inl e \<Rightarrow> Inl e | Inr d \<Rightarrow> Inr (Pib d))
            else Inl (OctUnknownByteCount byte_count))"

section \<open>What a pack sends\<close>

definition encode_pack :: "int \<Rightarrow> int list \<Rightarrow> bytes" where
  "encode_pack pack regs =
     (let body = [word_of_int pack, 0x04, word_of_int (2 * int (length regs))] @ bytes_of regs
      in body @ crc16 body)"

text \<open>The decoded data as a function of the registers.\<close>

definition pia_spec :: "int \<Rightarrow> int list \<Rightarrow> bytes \<Rightarrow> pia_data" where
  "pia_spec pack r frame =
     \<lparr>pia_pack = pack, voltage_V = fl (of_int (r ! 0) / 100),
      current_A = fl (of_int (sint (word_of_int (r ! 1) :: 16 word)) / 100),
      remaining_Ah = fl (of_int (r ! 2) / 100), nominal_Ah = fl (of_int (r ! 3) / 100),
      soc_pct = fl (of_int (r ! 5) / 10), soh_pct = fl (of_int (r ! 6) / 10),
      cycles = r ! 7, pia_raw_response = frame\<rparr>"

definition pib_spec :: "int \<Rightarrow> int list \<Rightarrow> bytes \<Rightarrow> pib_data" where
  "pib_spec pack r frame =
     \<lparr>pib_pack = pack, cell_v_mV = take 16 r,
      cell_v_min_mV = Min (set (take 16 r)), cell_v_max_mV = Max (set (take 16 r)),
      cell_v_avg_mV = sum_list (take 16 r) div 16,
      cell_v_delta_mV = Max (set (take 16 r)) - Min (set (take 16 r)),
      cell_temp_C = map k10_to_c (take 4 (drop 16 r)),
      env_temp_C = k10_to_c (r ! 24), pcb_temp_C = k10_to_c (r ! 25),
      pib_raw_response = frame\<rparr>"

lemma take_bytes_of [wire_simps]: "take (2 * n) (bytes_of r) = bytes_of (take n r)"
  by (induction r arbitrary: n) (auto simp: wire_simps take_Cons split: nat.splits)

lemma drop_bytes_of [wire_simps]: "drop (2 * n) (bytes_of r) = bytes_of (drop n r)"
  by (induction r arbitrary: n) (auto simp: wire_simps drop_Cons split: nat.splits)

lemma pyslice_bytes_of [wire_simps]: "pyslice (2 * i) (2 * j) (bytes_of r) = bytes_of (pyslice i j r)"
  by (simp add: pyslice_def wire_simps flip: right_diff_distrib')

lemma reg_range_sub: "reg_range r \<Longrightarrow> set s \<subseteq> set r \<Longrightarrow> reg_range s"
  by (auto simp: reg_range_def)

lemma reg_range_take: "reg_range r \<Longrightarrow> reg_range (take n r)"
  and reg_range_slice: "reg_range r \<Longrightarrow> reg_range (pyslice i j r)"
  unfolding pyslice_def by (auto elim!: reg_range_sub dest: in_set_takeD in_set_dropD)

lemma parse_pia_regs:
  assumes "reg_range r" and "length r = 18"
  shows "parse_pia pack (bytes_of r) frame = Inr (pia_spec pack r frame)"
proof -
  have "regs_of (pyslice 2 4 (bytes_of r)) ! 0 = r ! 1"
    using pyslice_bytes_of [of 1 2 r] regs_of_bytes_of [OF reg_range_slice [OF assms(1), of 1 2]] assms(2)
    by (simp add: pyslice_def)
  then show ?thesis
    using assms by (simp add: parse_pia_def pia_spec_def unpack_h_def wire_simps)
qed

lemma parse_pib_regs:
  assumes r: "reg_range r" and "length r = 26"
  shows "parse_pib pack (bytes_of r) frame = Inr (pib_spec pack r frame)"
proof -
  have sl: "regs_of (pyslice (2 * i) (2 * j) (bytes_of r)) = pyslice i j r" for i j
    by (simp add: wire_simps reg_range_slice [OF r])
  have "regs_of (take 32 (bytes_of r)) = take 16 r"
    "regs_of (pyslice 32 40 (bytes_of r)) = take 4 (drop 16 r)"
    "regs_of (pyslice 48 50 (bytes_of r)) ! 0 = r ! 24"
    "regs_of (pyslice 50 52 (bytes_of r)) ! 0 = r ! 25"
    using sl [of 0 16] sl [of 16 20] sl [of 24 25] sl [of 25 26] assms(2)
    by (simp_all add: pyslice_def)
  then show ?thesis
    using assms by (simp add: parse_pib_def pib_spec_def wire_simps Let_def)
qed

definition oct_frame :: "int \<Rightarrow> int list \<Rightarrow> bytes \<Rightarrow> bytes" where
  "oct_frame pack r tail = [word_of_int pack, 0x04, word_of_int (2 * int (length r))] @ bytes_of r @ tail"

lemma oct_parse_frame:
  assumes "1 \<le> pack" "pack \<le> 4" "reg_range r" "2 \<le> length tail" "crc_ok (oct_frame pack r tail)"
    and "length r = 18 \<or> length r = 26"
  shows "oct_parse_response (oct_frame pack r tail) =
    Inr (if length r = 18 then Pia (pia_spec pack r (oct_frame pack r tail))
         else Pib (pib_spec pack r (oct_frame pack r tail)))"
proof -
  let ?f = "oct_frame pack r tail"
  have len: "length ?f = 3 + 2 * length r + length tail"
    by (simp add: oct_frame_def wire_simps)
  have h: "uint (?f ! 0) = pack" "uint (?f ! 1) = 4" "uint (?f ! 2) = 2 * int (length r)"
    using assms(1,2,6) by (auto simp: oct_frame_def uint_word_of_int)
  have pl: "pyslice 3 (nat (3 + 2 * int (length r))) ?f = bytes_of r"
    by (simp add: pyslice_def oct_frame_def nat_add_distrib nat_mult_distrib wire_simps
        drop_Cons')
  have v: "verify_crc ?f"
    using assms by (auto simp: verify_crc_iff len)
  show ?thesis
    using assms(6) v len assms(1,2,3,4) h pl
    by (auto simp: oct_parse_response_def Let_def PIA_BYTE_COUNT_def PIB_BYTE_COUNT_def
        parse_pia_regs parse_pib_regs)
qed

lemma oct_parse_InrD:
  assumes "oct_parse_response frame = Inr d"
  shows "\<exists>pack r tail. frame = oct_frame pack r tail \<and> 1 \<le> pack \<and> pack \<le> 4 \<and> reg_range r
     \<and> 2 \<le> length tail \<and> crc_ok frame \<and> (length r = 18 \<or> length r = 26)"
proof -
  define bc where "bc = uint (frame ! 2)"
  have f: "5 \<le> length frame" "verify_crc frame" "uint (frame ! 1) = 4"
      "1 \<le> uint (frame ! 0)" "uint (frame ! 0) \<le> 4" "3 + bc + 2 \<le> int (length frame)"
      "bc = 36 \<or> bc = 52"
    using assms by (auto simp: oct_parse_response_def Let_def PIA_BYTE_COUNT_def
        PIB_BYTE_COUNT_def bc_def not_less split: if_splits)
  define n where "n = nat bc"
  have n: "n = 36 \<or> n = 52" "int n = bc" "5 + n \<le> length frame"
    using f(6,7) by (auto simp: n_def)
  define payload where "payload = take n (drop 3 frame)"
  have lp: "length payload = n"
    using n by (simp add: payload_def)
  define r where "r = regs_of payload"
  have br: "bytes_of r = payload"
    using n lp by (auto simp: r_def bytes_of_regs_of)
  have lr: "length r = n div 2"
    by (simp add: r_def lp wire_simps)
  have w: "word_of_int (uint (frame ! i)) = frame ! i" for i
    by simp
  have "frame ! 1 = 4"
    using f(3) by (metis word_of_int_numeral word_of_int_uint)
  moreover have bc: "bc = 2 * int (length r)"
    using n lr by auto
  have "frame ! 2 = word_of_int (2 * int (length r))"
    unfolding bc [symmetric] bc_def by (rule w [symmetric])
  ultimately have "take 3 frame = [word_of_int (uint (frame ! 0)), 0x04, word_of_int (2 * int (length r))]"
    using f(1) by (simp add: take_3)
  moreover have "frame = take 3 frame @ payload @ drop (3 + n) frame"
    by (simp add: payload_def add.commute [of 3 n] flip: drop_drop)
  ultimately have "frame = oct_frame (uint (frame ! 0)) r (drop (3 + n) frame)"
    by (simp add: oct_frame_def br)
  moreover have "reg_range r"
    by (simp add: r_def reg_range_regs_of)
  moreover have "2 \<le> length (drop (3 + n) frame)" "length r = 18 \<or> length r = 26" "crc_ok frame"
    using n lr f(2) by (auto simp: verify_crc_iff)
  ultimately show ?thesis
    using f(4,5) by blast
qed


lemma oct_parse_exact_aux:
  "oct_parse_response frame = Inr d \<longleftrightarrow>
     (\<exists>pack r tail. frame = oct_frame pack r tail \<and> 1 \<le> pack \<and> pack \<le> 4 \<and> reg_range r
        \<and> 2 \<le> length tail \<and> crc_ok frame
        \<and> (length r = 18 \<and> d = Pia (pia_spec pack r frame)
            \<or> length r = 26 \<and> d = Pib (pib_spec pack r frame)))"
  (is "_ \<longleftrightarrow> ?R")
proof
  assume d: "oct_parse_response frame = Inr d"
  then obtain pack r tail where f: "frame = oct_frame pack r tail" "1 \<le> pack" "pack \<le> 4"
      "reg_range r" "2 \<le> length tail" "crc_ok frame" "length r = 18 \<or> length r = 26"
    using oct_parse_InrD by blast
  then have "Inr d = (Inr (if length r = 18 then Pia (pia_spec pack r frame)
      else Pib (pib_spec pack r frame)) :: decode_error + oct_data)"
    unfolding d [symmetric] f(1) by (intro oct_parse_frame) simp_all
  then show ?R
    using f by (intro exI [of _ pack] exI [of _ r] exI [of _ tail]) (auto split: if_splits)
next
  assume ?R
  then show "oct_parse_response frame = Inr d"
    using oct_parse_frame by fastforce
qed

lemma encode_pack_parses:
  assumes "1 \<le> pack" "pack \<le> 4" "reg_range r" "length r = 18 \<or> length r = 26"
  shows "oct_parse_response (encode_pack pack r) =
    Inr (if length r = 18 then Pia (pia_spec pack r (encode_pack pack r))
         else Pib (pib_spec pack r (encode_pack pack r)))"
proof -
  let ?body = "[word_of_int pack, 0x04, word_of_int (2 * int (length r))] @ bytes_of r"
  have f: "encode_pack pack r = oct_frame pack r (crc16 ?body)"
    by (simp add: encode_pack_def oct_frame_def Let_def)
  have "crc_ok (encode_pack pack r)"
    unfolding encode_pack_def Let_def by (rule crc_ok_append)
  with assms show ?thesis
    unfolding f by (intro oct_parse_frame) (simp_all add: crc16_def pack_le_def)
qed

lemma k10_error:
  assumes "0 \<le> raw" and "raw < 65536" and "k10_to_c raw = Some v"
  shows "\<bar>v - (of_int raw / 10 - 27315 / 100)\<bar> \<le> 1 / 10 ^ 11"
proof -
  define a b where "a = fl (of_int raw / 10)" and "b = fl (27315 / 100)"
  have "pow2 13 = 8192"
    by simp
  then have a: "\<bar>a - of_int raw / 10\<bar> \<le> pow2 (13 - 54)"
    unfolding a_def using assms(1,2) by (intro fl_abs_error) simp_all
  have b: "\<bar>b - 27315 / 100\<bar> \<le> pow2 (13 - 54)"
    unfolding b_def by (intro fl_abs_error) simp_all
  have small: "pow2 (13 - 54) \<le> 1 / (4 * 10 ^ 11)"
    by (simp add: power_int_def power_one_over field_simps)
  have ab: "\<bar>(a - b) - (of_int raw / 10 - 27315 / 100)\<bar> \<le> 2 / (4 * 10 ^ 11)"
    using a b small by linarith
  moreover have "\<bar>a - b\<bar> < pow2 13"
  proof -
    have "0 \<le> (of_int raw :: rat)" "of_int raw < (65536 :: rat)"
      using assms(1,2) by simp_all
    moreover have "(2 :: rat) / (4 * 10 ^ 11) \<le> 1"
      by simp
    ultimately have "\<bar>a - b\<bar> < 8192"
      using ab by linarith
    then show ?thesis by simp
  qed
  then have "\<bar>fl (a - b) - (a - b)\<bar> \<le> pow2 (13 - 54)"
    by (intro fl_abs_error) simp_all
  ultimately have "\<bar>fl (a - b) - (of_int raw / 10 - 27315 / 100)\<bar> \<le> 3 / (4 * 10 ^ 11)"
    using small by linarith
  then show ?thesis
    using assms(3) by (simp add: k10_to_c_def a_def b_def split: if_splits)
qed

lemma mean_bounds:
  fixes xs :: "int list"
  assumes "length xs = n" and "0 < n"
  shows "Min (set xs) \<le> sum_list xs div int n" and "sum_list xs div int n \<le> Max (set xs)"
proof -
  have "int (length ys) * Min (set xs) \<le> sum_list ys \<and> sum_list ys \<le> int (length ys) * Max (set xs)"
    if "set ys \<subseteq> set xs" for ys
    using that by (induction ys) (auto simp: algebra_simps intro!: add_mono)
  then have b: "int n * Min (set xs) \<le> sum_list xs" "sum_list xs \<le> int n * Max (set xs)"
    using assms(1) by auto
  show "Min (set xs) \<le> sum_list xs div int n"
    using zdiv_mono1 [OF b(1), of "int n"] assms(2) by simp
  show "sum_list xs div int n \<le> Max (set xs)"
    using zdiv_mono1 [OF b(2), of "int n"] assms(2) by simp
qed

section \<open>Properties\<close>

text \<open>C11. The decoder inverts the packs' encoding exactly: it returns data if and only if the frame
  is an answer of a pack 1 to 4 with 18 or 26 registers and a right checksum over the whole frame,
  and the data are then the documented scaling of those registers, each float the double nearest
  to the exact quotient. Every other byte string is a \<open>DecodeError\<close>.\<close>

theorem oct_parse_exact:
  "oct_parse_response frame = Inr d \<longleftrightarrow>
     (\<exists>pack r tail. frame = oct_frame pack r tail \<and> 1 \<le> pack \<and> pack \<le> 4 \<and> reg_range r
        \<and> 2 \<le> length tail \<and> crc_ok frame
        \<and> (length r = 18 \<and> d = Pia (pia_spec pack r frame)
            \<or> length r = 26 \<and> d = Pib (pib_spec pack r frame)))"
  by (rule oct_parse_exact_aux)

text \<open>The cell statistics of a decoded pack agree with its sixteen cells: the minimum, the
  floored mean and the maximum are in order and bracket every cell, the spread is their
  difference, and a temperature is missing exactly for the sentinel and otherwise within 1e-11
  degrees of the exact conversion from tenths of a kelvin.\<close>

theorem pib_statistics:
  assumes "oct_parse_response frame = Inr (Pib d)"
  shows "length (cell_v_mV d) = 16 \<and> length (cell_temp_C d) = 4
    \<and> (\<forall>v \<in> set (cell_v_mV d). 0 \<le> v \<and> v < 65536 \<and> cell_v_min_mV d \<le> v \<and> v \<le> cell_v_max_mV d)
    \<and> cell_v_min_mV d \<le> cell_v_avg_mV d \<and> cell_v_avg_mV d \<le> cell_v_max_mV d
    \<and> cell_v_delta_mV d = cell_v_max_mV d - cell_v_min_mV d
    \<and> (\<forall>t \<in> set (env_temp_C d # pcb_temp_C d # cell_temp_C d).
         \<exists>raw. 0 \<le> raw \<and> raw < 65536
           \<and> (case t of None \<Rightarrow> raw = TEMP_K10_NA_SENTINEL
              | Some v \<Rightarrow> raw \<noteq> TEMP_K10_NA_SENTINEL
                  \<and> \<bar>v - (of_int raw / 10 - 27315 / 100)\<bar> \<le> 1 / 10 ^ 11))"
proof -
  from assms obtain pack r where r: "reg_range r" "length r = 26" and d: "d = pib_spec pack r frame"
    unfolding oct_parse_exact_aux by auto
  have rng: "0 \<le> x \<and> x < 65536" if "x \<in> set r" for x
    using r(1) that by (simp add: reg_range_def)
  have temp: "\<exists>raw. 0 \<le> raw \<and> raw < 65536 \<and> (case k10_to_c x of None \<Rightarrow> raw = TEMP_K10_NA_SENTINEL
      | Some v \<Rightarrow> raw \<noteq> TEMP_K10_NA_SENTINEL \<and> \<bar>v - (of_int raw / 10 - 27315 / 100)\<bar> \<le> 1 / 10 ^ 11)"
    if "x \<in> set r" for x
    using rng [OF that] k10_error [of x]
    by (intro exI [of _ x]) (auto simp: k10_to_c_def split: option.split if_splits)
  have len: "length (take 16 r) = 16"
    using r(2) by simp
  have "\<exists>x \<in> set r. t = k10_to_c x" if "t \<in> set (env_temp_C d # pcb_temp_C d # cell_temp_C d)" for t
    using that r(2) by (auto simp: d pib_spec_def dest: in_set_takeD in_set_dropD)
  with temp have T: "\<forall>t \<in> set (env_temp_C d # pcb_temp_C d # cell_temp_C d).
      \<exists>raw. 0 \<le> raw \<and> raw < 65536 \<and> (case t of None \<Rightarrow> raw = TEMP_K10_NA_SENTINEL
      | Some v \<Rightarrow> raw \<noteq> TEMP_K10_NA_SENTINEL \<and> \<bar>v - (of_int raw / 10 - 27315 / 100)\<bar> \<le> 1 / 10 ^ 11)"
    by blast
  have "length (cell_v_mV d) = 16 \<and> length (cell_temp_C d) = 4
    \<and> (\<forall>v \<in> set (cell_v_mV d). 0 \<le> v \<and> v < 65536 \<and> cell_v_min_mV d \<le> v \<and> v \<le> cell_v_max_mV d)
    \<and> cell_v_min_mV d \<le> cell_v_avg_mV d \<and> cell_v_avg_mV d \<le> cell_v_max_mV d
    \<and> cell_v_delta_mV d = cell_v_max_mV d - cell_v_min_mV d"
    using mean_bounds [OF len] rng len r(2) by (auto simp: d pib_spec_def dest: in_set_takeD)
  with T show ?thesis
    by (elim conjE) (intro conjI; assumption)
qed

theorem pib_statistics_witness:
  "\<exists>d. oct_parse_response (encode_pack 2 ([3299, 3301] @ replicate 24 3300)) = Inr (Pib d)
     \<and> cell_v_min_mV d \<le> cell_v_avg_mV d \<and> cell_v_avg_mV d \<le> cell_v_max_mV d"
proof -
  have "\<exists>d. oct_parse_response (encode_pack 2 ([3299, 3301] @ replicate 24 3300)) = Inr (Pib d)"
    using encode_pack_parses [of 2 "[3299, 3301] @ replicate 24 3300"]
    by (simp add: reg_range_def)
  then obtain d
    where d: "oct_parse_response (encode_pack 2 ([3299, 3301] @ replicate 24 3300)) = Inr (Pib d)"
    by blast
  with pib_statistics [OF d] show ?thesis by blast
qed

text \<open>A frame that decodes no longer does when line noise changes at most two adjacent bytes
  of it: the error is the checksum error, whatever was hit.\<close>

theorem oct_corruption_rejected:
  assumes "oct_parse_response frame = Inr d" and "length frame = m + 2 + k" and "x \<noteq> 0 \<or> y \<noteq> 0"
  shows "oct_parse_response (corrupt frame (replicate m 0 @ [x, y] @ replicate k 0)) = Inl OctCrcMismatch"
proof -
  have f: "crc_ok frame" "5 \<le> length frame"
    using assms(1) by (auto simp: oct_parse_response_def verify_crc_iff split: if_splits)
  then have "\<not> crc_ok (corrupt frame (replicate m 0 @ [x, y] @ replicate k 0))"
    using assms(2,3) by (intro burst_breaks_crc)
  moreover have "length (corrupt frame (replicate m 0 @ [x, y] @ replicate k 0)) = length frame"
    using assms(2) by (simp add: corrupt_def)
  ultimately show ?thesis
    using f(2) by (simp add: oct_parse_response_def verify_crc_iff)
qed

theorem oct_corruption_rejected_witness:
  "oct_parse_response
     (corrupt (encode_pack 1 (replicate 18 5000)) (replicate 3 0 @ [0x00, 0x10] @ replicate 36 0)) =
   Inl OctCrcMismatch"
proof -
  have "\<exists>d. oct_parse_response (encode_pack 1 (replicate 18 5000)) = Inr d"
    using encode_pack_parses [of 1 "replicate 18 5000"] by (simp add: reg_range_def)
  then obtain d where d: "oct_parse_response (encode_pack 1 (replicate 18 5000)) = Inr d"
    by blast
  have "length (encode_pack 1 (replicate 18 5000)) = 3 + 2 + 36"
    by (simp add: encode_pack_def Let_def wire_simps crc16_def pack_le_def)
  then show ?thesis
    by (rule oct_corruption_rejected [OF d]) simp
qed

text \<open>The eight frames that the firmware holds as literals are the ones the module computes:
  the start-up self test cannot fail, and a request for any pack address above 4 up to 255 exists
  and carries a right checksum too.\<close>

theorem oct_self_test_passes:
  "self_test \<and> (case build_request slave addr count fc of
     None \<Rightarrow> \<not> (slave \<in> {0..255} \<and> fc \<in> {0..255} \<and> addr \<in> {0..65535} \<and> count \<in> {0..65535})
   | Some req \<Rightarrow> length req = 8 \<and> verify_crc req \<and> uint (req ! 0) = slave \<and> uint (req ! 1) = fc
       \<and> be16 (req ! 2) (req ! 3) = addr \<and> be16 (req ! 4) (req ! 5) = count)"
proof -
  have "self_test"
    by (simp add: self_test_def PIA_FRAMES_LITERAL_def PIB_FRAMES_LITERAL_def pia_request_def
        pib_request_def build_request_def hi8_lo8_arith crc16_modbus_run crc_eval)
  moreover have v: "verify_crc (body @ pack_le (crc16_modbus body))" if "length body = 6" for body
    using that crc_ok_append [of body] by (simp add: verify_crc_iff crc16_def crc16_modbus_run pack_le_def)
  have "verify_crc req" if "build_request slave addr count fc = Some req" for req
    using that v [of "[word_of_int slave, word_of_int fc, hi8 addr, lo8 addr, hi8 count, lo8 count]"]
    by (auto simp: build_request_def Let_def split: if_splits)
  ultimately show ?thesis
    by (auto simp: build_request_def Let_def uint_word_of_int be16_hi8_lo8 pack_le_def
        split: option.splits)
qed

end
