(* ===== verification/Energy.thy ===== *)
theory Energy
  imports Py_Value
begin

text \<open>
  \<open>energy_integrator.py\<close>: six watt-hour accumulators, integrated from the aggregated power values
  and persisted as a versioned JSON object. The state record has the persist path and the
  dictionary \<open>_wh\<close>; \<open>update\<close>, \<open>save\<close> and \<open>load\<close> are the methods. A file is its decoded content
  (\<open>json_file\<close>); which system calls of \<open>save\<close> fail is a parameter of it.
\<close>

definition WH_KEYS :: "string list" where
  "WH_KEYS =
     [''battery_energy_in_wh'', ''battery_energy_out_wh'', ''pv_energy_wh'', ''load_energy_wh'',
      ''grid_energy_in_wh'', ''grid_energy_out_wh'']"

definition WH_TO_KWH_KEY :: "(string, string) dict" where
  "WH_TO_KWH_KEY =
     [(''battery_energy_in_wh'', ''battery_energy_in''),
      (''battery_energy_out_wh'', ''battery_energy_out''),
      (''pv_energy_wh'', ''pv_energy''),
      (''load_energy_wh'', ''load_energy''),
      (''grid_energy_in_wh'', ''grid_energy_in''),
      (''grid_energy_out_wh'', ''grid_energy_out'')]"

definition PERSIST_VERSION :: int where
  "PERSIST_VERSION = 1"

definition MAX_ELAPSED_S :: pyfloat where
  "MAX_ELAPSED_S = Fin 600"

text \<open>The exceptions that leave the component.\<close>

datatype energy_error = EnOverflowError | EnUnicodeDecodeError | EnKeyError string

record energy_integrator =
  persist_path :: "string option"
  wh :: "(string, pyfloat) dict"

definition zero_wh :: "(string, pyfloat) dict" where
  "zero_wh = map (\<lambda>k. (k, Fin 0)) WH_KEYS"

section \<open>Integration\<close>

text \<open>\<open>_coerce_power\<close>; a missing key reads as \<open>None\<close>.\<close>

fun coerce_power :: "pyval option \<Rightarrow> energy_error + pyfloat" where
  "coerce_power (Some (PyInt n)) =
     (case float_of_int n of None \<Rightarrow> Inl EnOverflowError | Some f \<Rightarrow> Inr f)"
| "coerce_power (Some (PyFloat x)) =
     (let f = pfloat x in if \<not> is_finite f then Inr (Fin 0) else Inr f)"
| "coerce_power _ = Inr (Fin 0)"

text \<open>\<open>self._wh[key] += x\<close>.\<close>

definition wh_add :: "string \<Rightarrow> pyfloat \<Rightarrow> (string, pyfloat) dict \<Rightarrow> energy_error + (string, pyfloat) dict"
where
  "wh_add k x d =
     (case dget d k of None \<Rightarrow> Inl (EnKeyError k) | Some v \<Rightarrow> Inr (dset k (padd v x) d))"

fun snapshot_keys :: "string list \<Rightarrow> (string, pyfloat) dict \<Rightarrow> energy_error + (string, pyfloat) dict" where
  "snapshot_keys [] d = Inr []"
| "snapshot_keys (k # ks) d =
     (case (dget WH_TO_KWH_KEY k, dget d k) of
        (Some kwh_key, Some v) \<Rightarrow>
          bindE (snapshot_keys ks d) (\<lambda>out. Inr ((kwh_key, pround 3 (pdivc v 1000)) # out))
      | _ \<Rightarrow> Inl (EnKeyError k))"

definition snapshot_kwh :: "energy_integrator \<Rightarrow> energy_error + (string, pyfloat) dict" where
  "snapshot_kwh st = snapshot_keys WH_KEYS (wh st)"

definition energy_update ::
  "energy_integrator \<Rightarrow> (string, pyval) dict \<Rightarrow> pyfloat
     \<Rightarrow> energy_error + energy_integrator \<times> (string, pyfloat) dict"
where
  "energy_update st aggregated elapsed_s =
     (if \<not> is_finite elapsed_s \<or> \<not> plt (Fin 0) elapsed_s \<or> plt MAX_ELAPSED_S elapsed_s
      then bindE (snapshot_kwh st) (\<lambda>out. Inr (st, out))
      else
        bindE (coerce_power (dget aggregated ''battery_power'')) (\<lambda>battery_power.
        bindE (coerce_power (dget aggregated ''load_power'')) (\<lambda>load_power.
        bindE (coerce_power (dget aggregated ''pv_power'')) (\<lambda>pv_power.
        bindE (coerce_power (dget aggregated ''grid_power'')) (\<lambda>grid_power.
        let dt_h = pdivc elapsed_s 3600 in
        bindE (if plt (Fin 0) battery_power
               then wh_add ''battery_energy_in_wh'' (pmul battery_power dt_h) (wh st)
               else if plt battery_power (Fin 0)
               then wh_add ''battery_energy_out_wh'' (pmul (pneg battery_power) dt_h) (wh st)
               else Inr (wh st)) (\<lambda>d1.
        bindE (if plt (Fin 0) pv_power then wh_add ''pv_energy_wh'' (pmul pv_power dt_h) d1
               else Inr d1) (\<lambda>d2.
        bindE (if plt (Fin 0) load_power then wh_add ''load_energy_wh'' (pmul load_power dt_h) d2
               else Inr d2) (\<lambda>d3.
        bindE (if plt (Fin 0) grid_power
               then wh_add ''grid_energy_in_wh'' (pmul grid_power dt_h) d3
               else if plt grid_power (Fin 0)
               then wh_add ''grid_energy_out_wh'' (pmul (pneg grid_power) dt_h) d3
               else Inr d3) (\<lambda>d4.
        bindE (snapshot_kwh (st\<lparr>wh := d4\<rparr>)) (\<lambda>out. Inr (st\<lparr>wh := d4\<rparr>, out)))))))))))"

section \<open>Persistence\<close>

text \<open>The directory as \<open>save\<close> sees it: the content of the persist file, and of the temporary file
  while it exists. \<open>ok\<close> says which system calls succeed.\<close>

datatype save_op = MkDir | CreateTmp | WriteTmp | Replace | UnlinkTmp

record energy_fs =
  target :: json_file
  tmp :: "json_file option"

definition energy_payload :: "energy_integrator \<Rightarrow> pyval" where
  "energy_payload st =
     PyDict ((''version'', PyInt PERSIST_VERSION) # map (\<lambda>(k, v). (k, PyFloat v)) (wh st))"

definition unlink_tmp :: "(save_op \<Rightarrow> bool) \<Rightarrow> energy_fs \<Rightarrow> energy_fs" where
  "unlink_tmp ok fs = (if ok UnlinkTmp then fs\<lparr>tmp := None\<rparr> else fs)"

definition energy_save :: "(save_op \<Rightarrow> bool) \<Rightarrow> energy_integrator \<Rightarrow> energy_fs \<Rightarrow> energy_fs" where
  "energy_save ok st fs =
     (if persist_path st = None then fs
      else if \<not> ok MkDir then fs
      else if \<not> ok CreateTmp then fs
      else
        let fs1 = fs\<lparr>tmp := Some BadJson\<rparr> in
        if \<not> ok WriteTmp then unlink_tmp ok fs1
        else
          let fs2 = fs1\<lparr>tmp := Some (JsonDoc (energy_payload st))\<rparr> in
          if \<not> ok Replace then unlink_tmp ok fs2
          else fs2\<lparr>target := JsonDoc (energy_payload st), tmp := None\<rparr>)"

fun restore_value :: "pyval \<Rightarrow> energy_error + pyfloat" where
  "restore_value (PyInt n) =
     (case float_of_int n of None \<Rightarrow> Inl EnOverflowError
      | Some f \<Rightarrow> if \<not> is_finite f \<or> plt f (Fin 0) then Inr (Fin 0) else Inr f)"
| "restore_value (PyFloat x) =
     (let f = pfloat x in if \<not> is_finite f \<or> plt f (Fin 0) then Inr (Fin 0) else Inr f)"
| "restore_value _ = Inr (Fin 0)"

fun restore_keys :: "string list \<Rightarrow> (string, pyval) dict \<Rightarrow> energy_error + (string, pyfloat) dict" where
  "restore_keys [] data = Inr []"
| "restore_keys (k # ks) data =
     bindE (restore_value (dget_or data k (PyFloat (Fin 0)))) (\<lambda>v.
     bindE (restore_keys ks data) (\<lambda>out. Inr ((k, v) # out)))"

definition energy_load :: "json_file \<Rightarrow> energy_integrator \<Rightarrow> energy_error + energy_integrator" where
  "energy_load file st =
     (if persist_path st = None then Inr st
      else
        case file of
          NoFile \<Rightarrow> Inr st
        | OsErrorOnRead \<Rightarrow> Inr (st\<lparr>wh := zero_wh\<rparr>)
        | BadJson \<Rightarrow> Inr (st\<lparr>wh := zero_wh\<rparr>)
        | NotUtf8 \<Rightarrow> Inl EnUnicodeDecodeError
        | JsonDoc (PyDict data) \<Rightarrow>
            if \<not> (case dget data ''version'' of None \<Rightarrow> False | Some v \<Rightarrow> py_eq_int v PERSIST_VERSION)
            then Inr (st\<lparr>wh := zero_wh\<rparr>)
            else bindE (restore_keys WH_KEYS data) (\<lambda>restored. Inr (st\<lparr>wh := restored\<rparr>))
        | JsonDoc _ \<Rightarrow> Inr (st\<lparr>wh := zero_wh\<rparr>))"

definition energy_init :: "string option \<Rightarrow> json_file \<Rightarrow> energy_error + energy_integrator" where
  "energy_init path file = energy_load file \<lparr>persist_path = path, wh = zero_wh\<rparr>"

section \<open>Invariant\<close>

text \<open>Exactly the six keys, in order, each a non-negative double (or plus infinity).\<close>

definition wh_ok :: "(string, pyfloat) dict \<Rightarrow> bool" where
  "wh_ok d \<longleftrightarrow> dkeys d = WH_KEYS \<and> (\<forall>v \<in> snd ` set d. pnonneg v \<and> pdouble v)"

definition energy_ok :: "energy_integrator \<Rightarrow> bool" where
  "energy_ok st \<longleftrightarrow> wh_ok (wh st)"

definition all_finite :: "(string, pyfloat) dict \<Rightarrow> bool" where
  "all_finite d \<longleftrightarrow> (\<forall>v \<in> snd ` set d. is_finite v)"

definition counter_of :: "(string, pyfloat) dict \<Rightarrow> string \<Rightarrow> pyfloat" where
  "counter_of d k = dget_or d k (Fin 0)"

lemma distinct_WH_KEYS: "distinct WH_KEYS"
  by (simp add: WH_KEYS_def)

lemma wh_ok_zero [simp]: "wh_ok zero_wh"
  by (auto simp: wh_ok_def zero_wh_def dkeys_def dbl_limit_def comp_def)

lemma wh_ok_get:
  assumes "wh_ok d" and "dget d k = Some v"
  shows "pnonneg v" and "pdouble v"
  using assms map_of_SomeD [OF assms(2)] by (force simp: wh_ok_def)+

lemma wh_ok_key: "wh_ok d \<Longrightarrow> k \<in> set WH_KEYS \<Longrightarrow> \<exists>v. dget d k = Some v"
  using dget_none_iff [of d k] by (auto simp: wh_ok_def)

lemma wh_ok_counter: "wh_ok d \<Longrightarrow> pnonneg (counter_of d k) \<and> pdouble (counter_of d k)"
  using wh_ok_get [of d k] by (auto simp: counter_of_def dget_or_def dbl_limit_def split: option.split)

lemma snd_set_update: "snd ` set (AList.update k v d) \<subseteq> insert v (snd ` set d)"
  by (induction d) auto

lemma dkeys_dset_present: "k \<in> set (dkeys d) \<Longrightarrow> dkeys (dset k v d) = dkeys d"
  by (simp add: dkeys_def update_keys)

lemma wh_add_ok:
  assumes "wh_ok d" and "k \<in> set WH_KEYS" and "pnonneg x"
  shows "\<exists>d'. wh_add k x d = Inr d' \<and> wh_ok d'
    \<and> (\<forall>j. counter_of d' j = (if j = k then padd (counter_of d k) x else counter_of d j))"
proof -
  obtain v where v: "dget d k = Some v"
    using wh_ok_key [OF assms(1,2)] by blast
  let ?d = "dset k (padd v x) d"
  have "k \<in> set (dkeys d)"
    using assms(1,2) by (simp add: wh_ok_def)
  moreover have "pnonneg (padd v x)"
    using assms(3) wh_ok_get(1) [OF assms(1) v] by (intro padd_nonneg)
  moreover have "\<forall>u \<in> insert (padd v x) (snd ` set d). pnonneg u \<and> pdouble u"
    using calculation(2) assms(1) by (simp add: wh_ok_def)
  then have "\<forall>u \<in> snd ` set ?d. pnonneg u \<and> pdouble u"
    using snd_set_update [of k "padd v x" d] by blast
  ultimately have "wh_ok ?d"
    using assms(1) by (simp add: wh_ok_def dkeys_dset_present)
  then show ?thesis
    using v by (auto simp: wh_add_def counter_of_def dget_or_def dict_simps)
qed

text \<open>What one step contributes to an accumulator.\<close>

definition import_part :: "pyfloat \<Rightarrow> pyfloat \<Rightarrow> pyfloat \<Rightarrow> pyfloat" where
  "import_part dt p old = (if plt (Fin 0) p then padd old (pmul p dt) else old)"

definition export_part :: "pyfloat \<Rightarrow> pyfloat \<Rightarrow> pyfloat \<Rightarrow> pyfloat" where
  "export_part dt p old = (if plt p (Fin 0) then padd old (pmul (pneg p) dt) else old)"

lemma part_grows:
  assumes "is_finite p" "pnonneg dt" "is_finite dt" "pnonneg old" "pdouble old"
  shows "ple old (import_part dt p old)" and "ple old (export_part dt p old)"
proof -
  obtain a b where p: "p = Fin a" and dt: "dt = Fin b"
    using assms(1,3) by (cases p; cases dt) auto
  have "pnonneg (pmul p dt)" if "plt (Fin 0) p"
    using that assms(2) pmul_nonneg [of a b] by (simp add: p dt)
  then show "ple old (import_part dt p old)"
    using assms by (simp add: import_part_def padd_grows ple_refl pnonneg_not_NaN)
  have "pnonneg (pmul (pneg p) dt)" if "plt p (Fin 0)"
    using that assms(2) pmul_nonneg [of "- a" b] by (simp add: p dt)
  then show "ple old (export_part dt p old)"
    using assms by (simp add: export_part_def padd_grows ple_refl pnonneg_not_NaN)
qed

text \<open>The guarded additions of \<open>update\<close>, as steps on the dictionary.\<close>

lemma add_import:
  assumes "wh_ok d" "k \<in> set WH_KEYS" "is_finite p" "is_finite dt" "pnonneg dt"
  shows "\<exists>d'. (if plt (Fin 0) p then wh_add k (pmul p dt) d else Inr d) = Inr d' \<and> wh_ok d'
    \<and> (\<forall>j. counter_of d' j = (if j = k then import_part dt p (counter_of d k) else counter_of d j))"
proof -
  obtain a b where p: "p = Fin a" and dt: "dt = Fin b"
    using assms(3,4) by (cases p; cases dt) auto
  have "pnonneg (pmul p dt)" if "plt (Fin 0) p"
    using that assms(5) pmul_nonneg [of a b] by (simp add: p dt)
  then show ?thesis
    using wh_add_ok [OF assms(1,2), of "pmul p dt"] assms(1) by (auto simp: import_part_def)
qed

lemma add_signed:
  assumes "wh_ok d" "k \<in> set WH_KEYS" "k' \<in> set WH_KEYS" "k \<noteq> k'" "is_finite p" "is_finite dt" "pnonneg dt"
  shows "\<exists>d'. (if plt (Fin 0) p then wh_add k (pmul p dt) d
       else if plt p (Fin 0) then wh_add k' (pmul (pneg p) dt) d else Inr d) = Inr d' \<and> wh_ok d'
    \<and> (\<forall>j. counter_of d' j = (if j = k then import_part dt p (counter_of d k)
        else if j = k' then export_part dt p (counter_of d k') else counter_of d j))"
proof -
  obtain a b where p: "p = Fin a" and dt: "dt = Fin b"
    using assms(5,6) by (cases p; cases dt) auto
  show ?thesis
  proof (cases "plt (Fin 0) p")
    case True
    then show ?thesis
      using add_import [OF assms(1,2,5,6,7)] by (auto simp: export_part_def p)
  next
    case False
    have "pnonneg (pmul (pneg p) dt)" if "plt p (Fin 0)"
      using that assms(7) pmul_nonneg [of "- a" b] by (simp add: p dt)
    then show ?thesis
      using False wh_add_ok [OF assms(1,3), of "pmul (pneg p) dt"] assms(1,4) by (auto simp: import_part_def export_part_def)
  qed
qed

lemma snapshot_keys_ok:
  assumes "wh_ok d" and "set ks \<subseteq> set WH_KEYS"
  shows "snapshot_keys ks d =
    Inr (map (\<lambda>k. (the (dget WH_TO_KWH_KEY k), pround 3 (pdivc (counter_of d k) 1000))) ks)"
  using assms(2)
proof (induction ks)
  case (Cons k ks)
  moreover obtain v where "dget d k = Some v"
    using wh_ok_key [OF assms(1)] Cons.prems by auto
  moreover have "\<exists>n. dget WH_TO_KWH_KEY k = Some n"
    using Cons.prems by (auto simp: WH_KEYS_def WH_TO_KWH_KEY_def)
  ultimately show ?case
    by (auto simp: counter_of_def dget_or_def)
qed simp

text \<open>The publish-ready dictionary of the counters \<open>f\<close>.\<close>

definition kwh_spec :: "(string \<Rightarrow> pyfloat) \<Rightarrow> (string, pyfloat) dict" where
  "kwh_spec f =
     [(''battery_energy_in'', pround 3 (pdivc (f ''battery_energy_in_wh'') 1000)),
      (''battery_energy_out'', pround 3 (pdivc (f ''battery_energy_out_wh'') 1000)),
      (''pv_energy'', pround 3 (pdivc (f ''pv_energy_wh'') 1000)),
      (''load_energy'', pround 3 (pdivc (f ''load_energy_wh'') 1000)),
      (''grid_energy_in'', pround 3 (pdivc (f ''grid_energy_in_wh'') 1000)),
      (''grid_energy_out'', pround 3 (pdivc (f ''grid_energy_out_wh'') 1000))]"

lemma snapshot_ok: "energy_ok st \<Longrightarrow> snapshot_kwh st = Inr (kwh_spec (counter_of (wh st)))"
  by (simp add: energy_ok_def snapshot_kwh_def snapshot_keys_ok)
    (simp add: WH_KEYS_def kwh_spec_def WH_TO_KWH_KEY_def)

lemma coerce_finite: "coerce_power v = Inr f \<Longrightarrow> is_finite f"
  by (cases v rule: coerce_power.cases)
    (auto simp: float_of_int_finite Let_def split: if_splits option.splits)

definition valid_elapsed :: "pyfloat \<Rightarrow> bool" where
  "valid_elapsed e \<longleftrightarrow> is_finite e \<and> plt (Fin 0) e \<and> \<not> plt MAX_ELAPSED_S e"

lemma valid_dt:
  assumes "valid_elapsed e"
  shows "is_finite (pdivc e 3600)" and "pnonneg (pdivc e 3600)"
proof -
  obtain x where e: "e = Fin x" "0 < x" "x \<le> 600"
    using assms by (cases e) (auto simp: valid_elapsed_def MAX_ELAPSED_S_def)
  have "fl (x / 3600) \<le> fl (of_int 1)" "0 \<le> fl (x / 3600)"
    using e by (intro fl_mono fl_nonneg; simp)+
  moreover have "(1 :: rat) < dbl_limit"
    by (simp add: dbl_limit_def)
  ultimately have "mkf (x / 3600) = Fin (fl (x / 3600))" "0 \<le> fl (x / 3600)"
    by (simp_all add: mkf_def fl_int [of 1, simplified])
  then show "is_finite (pdivc e 3600)" and "pnonneg (pdivc e 3600)"
    using e by simp_all
qed

text \<open>The counters after a step, as a function of the powers read.\<close>

definition stepped :: "pyfloat \<Rightarrow> pyfloat \<Rightarrow> pyfloat \<Rightarrow> pyfloat \<Rightarrow> pyfloat \<Rightarrow> (string \<Rightarrow> pyfloat)
    \<Rightarrow> string \<Rightarrow> pyfloat" where
  "stepped dt bp lp pp gp f k =
     (if k = ''battery_energy_in_wh'' then import_part dt bp (f k)
      else if k = ''battery_energy_out_wh'' then export_part dt bp (f k)
      else if k = ''pv_energy_wh'' then import_part dt pp (f k)
      else if k = ''load_energy_wh'' then import_part dt lp (f k)
      else if k = ''grid_energy_in_wh'' then import_part dt gp (f k)
      else if k = ''grid_energy_out_wh'' then export_part dt gp (f k)
      else f k)"

lemma energy_update_step:
  assumes ok: "energy_ok st" and e: "valid_elapsed e"
    and c: "coerce_power (dget agg ''battery_power'') = Inr bp"
      "coerce_power (dget agg ''load_power'') = Inr lp"
      "coerce_power (dget agg ''pv_power'') = Inr pp"
      "coerce_power (dget agg ''grid_power'') = Inr gp"
  shows "\<exists>st'. energy_update st agg e = Inr (st', kwh_spec (counter_of (wh st')))
    \<and> energy_ok st' \<and> persist_path st' = persist_path st
    \<and> counter_of (wh st') = stepped (pdivc e 3600) bp lp pp gp (counter_of (wh st))"
proof -
  note dt = valid_dt [OF e]
  have mem: "''battery_energy_in_wh'' \<in> set WH_KEYS" "''battery_energy_out_wh'' \<in> set WH_KEYS"
    "''pv_energy_wh'' \<in> set WH_KEYS" "''load_energy_wh'' \<in> set WH_KEYS"
    "''grid_energy_in_wh'' \<in> set WH_KEYS" "''grid_energy_out_wh'' \<in> set WH_KEYS"
    by (simp_all add: WH_KEYS_def)
  note fin = c [THEN coerce_finite]
  have ok0: "wh_ok (wh st)"
    using ok by (simp add: energy_ok_def)
  obtain d1 where d1: "(if plt (Fin 0) bp then wh_add ''battery_energy_in_wh'' (pmul bp (pdivc e 3600)) (wh st)
      else if plt bp (Fin 0) then wh_add ''battery_energy_out_wh'' (pmul (pneg bp) (pdivc e 3600)) (wh st)
      else Inr (wh st)) = Inr d1" "wh_ok d1"
      "\<forall>j. counter_of d1 j = (if j = ''battery_energy_in_wh'' then import_part (pdivc e 3600) bp (counter_of (wh st) ''battery_energy_in_wh'')
        else if j = ''battery_energy_out_wh'' then export_part (pdivc e 3600) bp (counter_of (wh st) ''battery_energy_out_wh'') else counter_of (wh st) j)"
    using add_signed [OF ok0 mem(1,2) _ fin(1) dt] by auto
  obtain d2 where d2: "(if plt (Fin 0) pp then wh_add ''pv_energy_wh'' (pmul pp (pdivc e 3600)) d1 else Inr d1) = Inr d2" "wh_ok d2"
      "\<forall>j. counter_of d2 j = (if j = ''pv_energy_wh'' then import_part (pdivc e 3600) pp (counter_of d1 ''pv_energy_wh'') else counter_of d1 j)"
    using add_import [OF d1(2) mem(3) fin(3) dt] by blast
  obtain d3 where d3: "(if plt (Fin 0) lp then wh_add ''load_energy_wh'' (pmul lp (pdivc e 3600)) d2 else Inr d2) = Inr d3" "wh_ok d3"
      "\<forall>j. counter_of d3 j = (if j = ''load_energy_wh'' then import_part (pdivc e 3600) lp (counter_of d2 ''load_energy_wh'') else counter_of d2 j)"
    using add_import [OF d2(2) mem(4) fin(2) dt] by blast
  obtain d4 where d4: "(if plt (Fin 0) gp then wh_add ''grid_energy_in_wh'' (pmul gp (pdivc e 3600)) d3
      else if plt gp (Fin 0) then wh_add ''grid_energy_out_wh'' (pmul (pneg gp) (pdivc e 3600)) d3
      else Inr d3) = Inr d4" "wh_ok d4"
      "\<forall>j. counter_of d4 j = (if j = ''grid_energy_in_wh'' then import_part (pdivc e 3600) gp (counter_of d3 ''grid_energy_in_wh'')
        else if j = ''grid_energy_out_wh'' then export_part (pdivc e 3600) gp (counter_of d3 ''grid_energy_out_wh'') else counter_of d3 j)"
    using add_signed [OF d3(2) mem(5,6) _ fin(4) dt] by auto
  have ok': "energy_ok (st\<lparr>wh := d4\<rparr>)"
    using d4(2) by (simp add: energy_ok_def)
  have "energy_update st agg e = Inr (st\<lparr>wh := d4\<rparr>, kwh_spec (counter_of d4))"
    using e snapshot_ok [OF ok'] unfolding energy_update_def valid_elapsed_def
    by (simp only: c bindE.simps Let_def d1(1) d2(1) d3(1) d4(1)) simp
  moreover have "counter_of d4 = stepped (pdivc e 3600) bp lp pp gp (counter_of (wh st))"
    by (rule ext) (simp add: stepped_def d1(3) d2(3) d3(3) d4(3))
  ultimately show ?thesis
    using ok' by (intro exI [of _ "st\<lparr>wh := d4\<rparr>"]) simp
qed


text \<open>The steps a caller takes: an exception leaves the state as it was, because \<open>update\<close> reads and
  converts all four powers before it adds anything.\<close>

definition energy_step :: "(string, pyval) dict \<times> pyfloat \<Rightarrow> energy_integrator \<Rightarrow> energy_integrator" where
  "energy_step ev st = (case energy_update st (fst ev) (snd ev) of Inl _ \<Rightarrow> st | Inr (st', _) \<Rightarrow> st')"

definition kwh_published :: "string \<Rightarrow> energy_integrator \<Rightarrow> pyfloat" where
  "kwh_published k st = pround 3 (pdivc (counter_of (wh st) k) 1000)"

lemma update_skips:
  "energy_ok st \<Longrightarrow> \<not> valid_elapsed e
     \<Longrightarrow> energy_update st agg e = Inr (st, kwh_spec (counter_of (wh st)))"
  by (auto simp: energy_update_def valid_elapsed_def snapshot_ok)

lemma update_cases:
  assumes ok: "energy_ok st" and e: "valid_elapsed e"
  obtains (raises) er where "energy_update st agg e = Inl er"
      "Inl er \<in> coerce_power ` {dget agg ''battery_power'', dget agg ''load_power'',
         dget agg ''pv_power'', dget agg ''grid_power''}"
  | (steps) bp lp pp gp st' where
      "coerce_power (dget agg ''battery_power'') = Inr bp"
      "coerce_power (dget agg ''load_power'') = Inr lp"
      "coerce_power (dget agg ''pv_power'') = Inr pp"
      "coerce_power (dget agg ''grid_power'') = Inr gp"
      "energy_update st agg e = Inr (st', kwh_spec (counter_of (wh st')))"
      "energy_ok st'" "counter_of (wh st') = stepped (pdivc e 3600) bp lp pp gp (counter_of (wh st))"
proof -
  have v: "is_finite e" "plt (Fin 0) e" "\<not> plt MAX_ELAPSED_S e"
    using e by (simp_all add: valid_elapsed_def)
  show thesis
  proof (cases "coerce_power (dget agg ''battery_power'')")
    case (Inl a)
    then show thesis by (intro raises [of a]) (simp_all add: energy_update_def v)
  next
    case bp: (Inr bp)
    show thesis
    proof (cases "coerce_power (dget agg ''load_power'')")
      case (Inl a)
      then show thesis by (intro raises [of a]) (simp_all add: energy_update_def v bp)
    next
      case lp: (Inr lp)
      show thesis
      proof (cases "coerce_power (dget agg ''pv_power'')")
        case (Inl a)
        then show thesis by (intro raises [of a]) (simp_all add: energy_update_def v bp lp)
      next
        case pp: (Inr pp)
        show thesis
        proof (cases "coerce_power (dget agg ''grid_power'')")
          case (Inl a)
          then show thesis by (intro raises [of a]) (simp_all add: energy_update_def v bp lp pp)
        next
          case gp: (Inr gp)
          from energy_update_step [OF ok e bp lp pp gp] show thesis
            by (elim exE conjE) (rule steps [OF bp lp pp gp])
        qed
      qed
    qed
  qed
qed

lemma coerce_error: "coerce_power v = Inl er \<Longrightarrow> er = EnOverflowError \<and> (\<exists>n. v = Some (PyInt n) \<and> float_of_int n = None)"
  by (cases v rule: coerce_power.cases) (auto simp: Let_def split: if_splits option.splits)

lemma stepped_grows:
  assumes "is_finite bp" "is_finite lp" "is_finite pp" "is_finite gp" "valid_elapsed e"
    and "pnonneg (f k)" "pdouble (f k)"
  shows "ple (f k) (stepped (pdivc e 3600) bp lp pp gp f k)"
proof -
  define v where "v = f k"
  have "pnonneg v" "pdouble v" "v \<noteq> NaN"
    using assms(6,7) by (auto simp: v_def)
  then show ?thesis
    using assms(1-4) valid_dt [OF assms(5)] unfolding stepped_def v_def [symmetric]
    by (simp add: part_grows ple_refl)
qed

interpretation energy_counter: monotone_counter energy_ok energy_step kwh_published
proof
  fix st ev k
  assume ok: "energy_ok st"
  have "energy_ok (energy_step ev st) \<and> ple (counter_of (wh st) k) (counter_of (wh (energy_step ev st)) k)"
  proof (cases "valid_elapsed (snd ev)")
    case False
    then show ?thesis
      using ok wh_ok_counter [of "wh st" k]
      by (auto simp: energy_step_def update_skips energy_ok_def intro: ple_refl)
  next
    case True
    then show ?thesis
    proof (cases rule: update_cases [OF ok True, of "fst ev"])
      case 1
      then show ?thesis
        using ok wh_ok_counter [of "wh st" k]
        by (auto simp: energy_step_def energy_ok_def intro: ple_refl)
    next
      case (2 bp lp pp gp st')
      then show ?thesis
        using True wh_ok_counter [of "wh st" k] ok
        by (simp add: energy_step_def energy_ok_def) (auto intro!: stepped_grows dest: coerce_finite)
    qed
  qed
  then show "energy_ok (energy_step ev st)"
    and "ple (kwh_published k st) (kwh_published k (energy_step ev st))"
    by (simp_all add: kwh_published_def pround_mono pdivc_mono)
qed

section \<open>Restoring\<close>

lemma not_negative: "is_finite f \<Longrightarrow> \<not> plt f (Fin 0) \<Longrightarrow> pnonneg f"
  by (cases f) auto

lemma restore_value_Inr:
  "restore_value v = Inr f \<Longrightarrow> pnonneg f \<and> pdouble f \<and> is_finite f"
  by (cases v rule: restore_value.cases) (auto simp: Let_def float_of_int_finite dbl_limit_def not_negative
      dest!: float_of_int_finite split: if_splits option.splits)

lemma restore_value_double:
  "pnonneg f \<Longrightarrow> pdouble f \<Longrightarrow> is_finite f \<Longrightarrow> restore_value (PyFloat f) = Inr f"
  by (cases f) (simp_all add: mkf_double)

lemma restore_keys_Inr:
  "restore_keys ks data = Inr d
     \<Longrightarrow> dkeys d = ks \<and> (\<forall>v \<in> snd ` set d. pnonneg v \<and> pdouble v \<and> is_finite v)"
proof (induction ks arbitrary: d)
  case (Cons k ks)
  then obtain v out where "restore_value (dget_or data k (PyFloat (Fin 0))) = Inr v"
      "restore_keys ks data = Inr out" "d = (k, v) # out"
    by (auto simp: bindE_Inr_iff)
  then show ?case
    using Cons.IH [of out] restore_value_Inr [of _ v] by (auto simp: dkeys_def)
qed (simp add: dkeys_def)

lemma restore_keys_Inl:
  "restore_keys ks data = Inl er \<longleftrightarrow> er = EnOverflowError
     \<and> (\<exists>k \<in> set ks. \<exists>n. dget data k = Some (PyInt n) \<and> float_of_int n = None)"
proof (induction ks)
  case (Cons k ks)
  have v: "restore_value v = Inl a \<longleftrightarrow> a = EnOverflowError \<and> (\<exists>n. v = PyInt n \<and> float_of_int n = None)"
    for v a
    by (cases v rule: restore_value.cases) (auto simp: Let_def split: if_splits option.splits)
  have g: "(\<exists>n. dget_or data k (PyFloat (Fin 0)) = PyInt n \<and> float_of_int n = None) \<longleftrightarrow>
      (\<exists>n. dget data k = Some (PyInt n) \<and> float_of_int n = None)"
    by (auto simp: dget_or_def split: option.splits)
  show ?case
  proof (cases "restore_value (dget_or data k (PyFloat (Fin 0)))")
    case (Inl a)
    then have "a = EnOverflowError" "\<exists>n. dget data k = Some (PyInt n) \<and> float_of_int n = None"
      using v g by auto
    with Inl show ?thesis by auto
  next
    case (Inr w)
    then have "\<not> (\<exists>n. dget data k = Some (PyInt n) \<and> float_of_int n = None)"
      unfolding g [symmetric] using v [of "dget_or data k (PyFloat (Fin 0))"] by fastforce
    with Inr Cons.IH show ?thesis
      by (cases "restore_keys ks data") auto
  qed
qed simp

lemma restore_keys_saved:
  assumes "\<forall>k \<in> set ks. \<exists>v. dget data k = Some (PyFloat v) \<and> dget d k = Some v
    \<and> pnonneg v \<and> pdouble v \<and> is_finite v"
  shows "restore_keys ks data = Inr (map (\<lambda>k. (k, the (dget d k))) ks)"
  using assms
proof (induction ks)
  case (Cons k ks)
  then obtain v where "dget data k = Some (PyFloat v)" "dget d k = Some v"
      "pnonneg v" "pdouble v" "is_finite v"
    by auto
  then show ?case
    using Cons by (simp add: dget_or_def restore_value_double del: restore_value.simps)
qed simp

lemma map_of_PyFloat: "dget (map (\<lambda>(k, v). (k, PyFloat v)) d) k = map_option PyFloat (dget d k)"
  by (induction d) auto

lemma rebuild_dict: "distinct (map fst d) \<Longrightarrow> map (\<lambda>k. (k, the (dget d k))) (map fst d) = d"
  by (simp add: comp_def) (rule map_idI, auto)

lemma load_saved:
  assumes "energy_ok st" and "all_finite (wh st)" and "persist_path st \<noteq> None"
  shows "energy_init (persist_path st) (JsonDoc (energy_payload st)) = Inr st"
proof -
  let ?data = "(''version'', PyInt PERSIST_VERSION) # map (\<lambda>(k, v). (k, PyFloat v)) (wh st)"
  have keys: "map fst (wh st) = WH_KEYS" and ok: "wh_ok (wh st)"
    using assms(1) by (simp_all add: energy_ok_def wh_ok_def dkeys_def)
  have "\<exists>v. dget ?data k = Some (PyFloat v) \<and> dget (wh st) k = Some v
      \<and> pnonneg v \<and> pdouble v \<and> is_finite v" if k: "k \<in> set WH_KEYS" for k
  proof -
    obtain v where v: "dget (wh st) k = Some v"
      using wh_ok_key [OF ok k] by blast
    have "k \<noteq> ''version''"
      using k by (auto simp: WH_KEYS_def)
    moreover have "is_finite v"
      using assms(2) map_of_SomeD [OF v] by (force simp: all_finite_def)
    ultimately show ?thesis
      using v wh_ok_get [OF ok v] by (simp add: map_of_PyFloat)
  qed
  then have "restore_keys WH_KEYS ?data = Inr (map (\<lambda>k. (k, the (dget (wh st) k))) WH_KEYS)"
    by (intro restore_keys_saved) blast
  also have "map (\<lambda>k. (k, the (dget (wh st) k))) WH_KEYS = wh st"
    using rebuild_dict [of "wh st"] distinct_WH_KEYS keys by simp
  finally show ?thesis
    using assms(3) by (cases st) (auto simp: energy_init_def energy_load_def energy_payload_def)
qed

lemma energy_init_ok:
  assumes "energy_init path file = Inr st"
  shows "energy_ok st \<and> persist_path st = path \<and> (all_finite (wh st))"
proof -
  have z: "all_finite zero_wh"
    by (auto simp: zero_wh_def all_finite_def)
  have r: "wh_ok d \<and> all_finite d" if "restore_keys WH_KEYS data = Inr d" for data d
    using restore_keys_Inr [OF that] by (auto simp: wh_ok_def all_finite_def)
  show ?thesis
    using assms z
    by (auto simp: energy_init_def energy_load_def energy_ok_def bindE_Inr_iff
        split: if_splits json_file.splits pyval.splits option.splits dest!: r)
qed

section \<open>Properties\<close>

text \<open>C16. The published energy totals never go back: from any start (no file, a corrupt one, a saved
  one), after any sequence of updates with any power values and any elapsed times, every further
  sequence of updates leaves each published total at least as high, and what \<open>update\<close> returns are
  those totals.\<close>

theorem energy_totals_monotone:
  assumes "energy_init path file = Inr st0"
  shows "ple (kwh_published k (fold energy_step es st0)) (kwh_published k (fold energy_step (es @ fs) st0))
    \<and> (let st = fold energy_step es st0 in snapshot_kwh st = Inr (kwh_spec (counter_of (wh st))))"
proof -
  have ok: "energy_ok (fold energy_step es st0)"
    using energy_init_ok [OF assms] by (intro energy_counter.inv_run) simp
  then show ?thesis
    using energy_counter.reading_run [OF ok, of k fs] by (simp add: snapshot_ok Let_def)
qed

theorem energy_totals_monotone_witness:
  "\<exists>st0. energy_init None NoFile = Inr st0
     \<and> ple (kwh_published ''pv_energy_wh'' (fold energy_step [([(''pv_power'', PyInt 3600)], Fin 3)] st0))
         (kwh_published ''pv_energy_wh'' (fold energy_step ([([(''pv_power'', PyInt 3600)], Fin 3)]
            @ [([(''pv_power'', PyFloat NaN)], Fin 3), ([], Fin (- 1))]) st0))"
proof -
  have i: "energy_init None NoFile = Inr \<lparr>persist_path = None, wh = zero_wh\<rparr>"
    by (simp add: energy_init_def energy_load_def)
  show ?thesis
    using energy_totals_monotone [OF i] i by blast
qed

text \<open>C25. One update does exactly what its powers say, in every case: an elapsed time that is not
  finite, not positive or above 600 s changes nothing; a power that is an integer beyond the range
  of a double raises before anything changes; otherwise battery and grid power go to the import or
  the export accumulator by sign, PV and load only count when positive, each addition is the
  rounded \<open>old + P * (dt / 3600)\<close>, and no other accumulator moves.\<close>

theorem energy_update_exact:
  assumes "energy_ok st"
  shows "case energy_update st agg e of
      Inl er \<Rightarrow> valid_elapsed e \<and> er = EnOverflowError
        \<and> (\<exists>k \<in> {''battery_power'', ''load_power'', ''pv_power'', ''grid_power''}. \<exists>n.
             dget agg k = Some (PyInt n) \<and> float_of_int n = None)
    | Inr (st', out) \<Rightarrow> energy_ok st' \<and> out = kwh_spec (counter_of (wh st'))
        \<and> (if valid_elapsed e
           then \<exists>bp lp pp gp. coerce_power (dget agg ''battery_power'') = Inr bp
             \<and> coerce_power (dget agg ''load_power'') = Inr lp
             \<and> coerce_power (dget agg ''pv_power'') = Inr pp
             \<and> coerce_power (dget agg ''grid_power'') = Inr gp
             \<and> counter_of (wh st') = stepped (pdivc e 3600) bp lp pp gp (counter_of (wh st))
           else st' = st)"
proof (cases "valid_elapsed e")
  case False
  then show ?thesis
    using assms by (simp add: update_skips)
next
  case True
  show ?thesis
  proof (cases rule: update_cases [OF assms True, of agg])
    case (1 er)
    from 1(2) have "er = EnOverflowError \<and> (\<exists>k \<in> {''battery_power'', ''load_power'', ''pv_power'', ''grid_power''}.
        \<exists>n. dget agg k = Some (PyInt n) \<and> float_of_int n = None)"
      by (auto dest!: coerce_error [OF sym])
    with True 1(1) show ?thesis by simp
  next
    case 2
    then show ?thesis
      using True by simp
  qed
qed

theorem energy_update_exact_witness:
  "case energy_update \<lparr>persist_path = None, wh = zero_wh\<rparr> [(''grid_power'', PyFloat (Fin (- 1200)))]
      (Fin 3) of
      Inl er \<Rightarrow> False
    | Inr (st', out) \<Rightarrow> energy_ok st' \<and> out = kwh_spec (counter_of (wh st'))"
proof -
  have ok: "energy_ok \<lparr>persist_path = None, wh = zero_wh\<rparr>"
    by (simp add: energy_ok_def)
  show ?thesis
    using energy_update_exact [OF ok, where agg = "[(''grid_power'', PyFloat (Fin (- 1200)))]"
      and e = "Fin 3"]
    by (auto split: sum.splits prod.splits if_splits)
qed

text \<open>C19. Saving is atomic and loses nothing: whichever system calls fail, the persist file is either
  untouched or holds a document from which a restart restores exactly the saved accumulators; when
  none fails it is the latter; and no temporary file is left unless removing it fails.\<close>

theorem energy_persist_roundtrip:
  assumes "energy_ok st" and "all_finite (wh st)" and "persist_path st = Some p"
    and "tmp fs = None"
  shows "let fs' = energy_save ok st fs in
     (target fs' = target fs \<or> energy_init (Some p) (target fs') = Inr st)
     \<and> ((\<forall>c. c \<noteq> UnlinkTmp \<longrightarrow> ok c) \<longrightarrow> energy_init (Some p) (target fs') = Inr st)
     \<and> (ok UnlinkTmp \<longrightarrow> tmp fs' = None)"
  using load_saved [OF assms(1,2)] assms(3,4)
  by (auto simp: energy_save_def unlink_tmp_def Let_def)

theorem energy_persist_roundtrip_witness:
  "energy_init (Some ''e.json'') (target (energy_save (\<lambda>_. True)
      \<lparr>persist_path = Some ''e.json'', wh = zero_wh\<rparr> \<lparr>target = NoFile, tmp = None\<rparr>))
    = Inr \<lparr>persist_path = Some ''e.json'', wh = zero_wh\<rparr>"
  using energy_persist_roundtrip [where st = "\<lparr>persist_path = Some ''e.json'', wh = zero_wh\<rparr>"
      and p = "''e.json''" and fs = "\<lparr>target = NoFile, tmp = None\<rparr>" and ok = "\<lambda>_. True"]
  by (simp add: energy_ok_def) (auto simp: Let_def zero_wh_def all_finite_def)

text \<open>Starting from a persist file, in full: whatever the file holds, the accumulators restored
  are the six expected ones, non-negative and finite, except that two kinds of file make the
  constructor raise although it is documented as tolerant: one that is not UTF-8, and a JSON object
  of the right version with an integer no double can hold.\<close>

theorem energy_load_total:
  "case energy_init path file of
     Inr st \<Rightarrow> energy_ok st \<and> persist_path st = path \<and> (all_finite (wh st))
   | Inl er \<Rightarrow> path \<noteq> None \<and>
       (er = EnUnicodeDecodeError \<and> file = NotUtf8
        \<or> er = EnOverflowError \<and> (\<exists>data k n. file = JsonDoc (PyDict data) \<and> k \<in> set WH_KEYS
            \<and> dget data k = Some (PyInt n) \<and> float_of_int n = None))"
proof (cases "energy_init path file")
  case (Inr st)
  then show ?thesis by (simp add: energy_init_ok)
next
  case (Inl er)
  have b: "bindE m (\<lambda>x. Inr (f x)) = Inl a \<longleftrightarrow> m = Inl a" for m and f :: "'b \<Rightarrow> 'c" and a :: energy_error
    by (cases m) auto
  from Inl have "path \<noteq> None \<and> (er = EnUnicodeDecodeError \<and> file = NotUtf8
      \<or> (\<exists>data. file = JsonDoc (PyDict data) \<and> restore_keys WH_KEYS data = Inl er))"
    by (auto simp: energy_init_def energy_load_def b
        split: if_splits json_file.splits pyval.splits option.splits)
  then show ?thesis
    unfolding restore_keys_Inl using Inl by auto
qed

end
