(* ===== verification/Inv_Aggregator.thy ===== *)
theory Inv_Aggregator
  imports Srne_Map "HOL-Library.Monad_Syntax"
begin

text \<open>
  \<open>aggregator.py\<close>: the readings of N inverters combined into the published dictionary. The one
  function of the module is modelled stage by stage, in its order; every loop over
  \<open>enumerate(per_inverter, start=1)\<close> is a recursion over the enumerated list, whose iteration \<open>i\<close>
  updates \<open>out\<close> with the assignments of its body. \<open>None\<close> is a \<open>KeyError\<close> (a subscript of a
  missing field). \<open>sum\<close> of floats depends on the Python version, a parameter.
\<close>

text \<open>A published value: a float or a string.\<close>

datatype sval = Num rat | Txt string

type_synonym readings = "(string, parsed_block) dict"
type_synonym sensors = "(string, sval) dict"

text \<open>\<open>f"inverter_{i}_{k}"\<close>.\<close>

definition ikey :: "nat \<Rightarrow> string \<Rightarrow> string" where
  "ikey i k = ''inverter_'' @ show_nat i @ ''_'' @ k"

text \<open>\<open>int(x)\<close> of a finite float truncates.\<close>

definition py_int :: "rat \<Rightarrow> int" where
  "py_int x = (if 0 \<le> x then \<lfloor>x\<rfloor> else \<lceil>x\<rceil>)"

text \<open>\<open>b.fields[k]\<close>.\<close>

abbreviation fld :: "parsed_block \<Rightarrow> string \<Rightarrow> rat option" where
  "fld b k \<equiv> dget (pb_fields b) k"

section \<open>Battery\<close>

definition charge_state :: "parsed_block \<Rightarrow> string" where
  "charge_state b =
     (let cs_code = (case fld b ''charge_state_code'' of None \<Rightarrow> - 1 | Some x \<Rightarrow> py_int x)
      in dget_or CHARGE_STATE_LOOKUP cs_code (''unknown_'' @ show_int cs_code))"

record battery_acc =
  ba_out :: sensors
  socs :: "rat list"
  vs :: "rat list"
  bank_currents :: "rat list"

fun battery_loop :: "(nat \<times> readings) list \<Rightarrow> battery_acc \<Rightarrow> battery_acc option" where
  "battery_loop [] a = Some a"
| "battery_loop ((i, rd) # rest) a =
     (case dget rd ''battery'' of
        None \<Rightarrow> battery_loop rest a
      | Some b \<Rightarrow> do {
          soc \<leftarrow> fld b ''battery_state_of_charge'';
          v \<leftarrow> fld b ''battery_voltage'';
          i_a \<leftarrow> fld b ''battery_current'';
          battery_loop rest
            \<lparr>ba_out = dupdate (ba_out a)
               [(ikey i ''battery_current'', Num i_a),
                (ikey i ''battery_voltage'', Num v),
                (ikey i ''charge_state'', Txt (charge_state b))],
             socs = socs a @ [soc], vs = vs a @ [v], bank_currents = bank_currents a @ [i_a]\<rparr>
        })"

definition battery_site :: "py_version \<Rightarrow> battery_acc \<Rightarrow> sensors" where
  "battery_site ver a =
     (if socs a = [] then ba_out a
      else
        let avg_v = fl (py_sum ver (vs a) / of_nat (length (vs a)));
            total_i = py_sum ver (bank_currents a)
        in dupdate (ba_out a)
          [(''battery_state_of_charge'',
              Num (py_round 1 (fl (py_sum ver (socs a) / of_nat (length (socs a)))))),
           (''battery_voltage'', Num (py_round 2 (fl (py_sum ver (vs a) / of_nat (length (vs a)))))),
           (''battery_power'', Num (py_round 1 (fl (avg_v * total_i))))])"

section \<open>State: load, grid, temperatures, mode\<close>

record state_acc =
  sa_out :: sensors
  inv1_state :: "parsed_block option"
  site_load_active_total :: rat
  site_load_any :: bool

definition state_entries :: "nat \<Rightarrow> parsed_block \<Rightarrow> parsed_block option \<Rightarrow> (sensors \<times> rat) option" where
  "state_entries i s phase_b = do {
     active_a \<leftarrow> fld s ''load_active_phase_a'';
     active_b \<leftarrow> (case phase_b of None \<Rightarrow> Some 0 | Some p \<Rightarrow> fld p ''load_active_phase_b'');
     let total_active = fl (active_a + active_b);
     apparent_a \<leftarrow> fld s ''load_apparent_phase_a'';
     let apparent = (case Option.bind phase_b (\<lambda>p. fld p ''load_apparent_phase_b'') of
         Some apparent_b \<Rightarrow>
           [(ikey i ''load_apparent_power_l2'', Num (py_round 1 apparent_b)),
            (ikey i ''load_apparent_power'', Num (py_round 1 (fl (apparent_a + apparent_b))))]
       | None \<Rightarrow> [(ikey i ''load_apparent_power'', Num (py_round 1 apparent_a))]);
     load_pct \<leftarrow> fld s ''load_percent'';
     ac_freq \<leftarrow> fld s ''ac_output_frequency'';
     g_freq \<leftarrow> fld s ''grid_frequency'';
     g_v \<leftarrow> fld s ''grid_voltage_l1'';
     g_i \<leftarrow> fld s ''grid_current_l1'';
     t_dc_dc \<leftarrow> fld s ''temperature_dc_dc'';
     t_dc_ac \<leftarrow> fld s ''temperature_dc_ac'';
     t_trans \<leftarrow> fld s ''temperature_transformer'';
     state_code \<leftarrow> fld s ''inverter_state_code'';
     let code = py_int state_code;
     bus_v \<leftarrow> fld s ''bus_voltage'';
     ac_v \<leftarrow> (case Option.bind phase_b (\<lambda>p. fld p ''ac_output_voltage_l2'') of
         None \<Rightarrow> Some []
       | Some v_l2 \<Rightarrow> do {
           v_l1 \<leftarrow> fld s ''ac_output_voltage_l1'';
           Some [(ikey i ''ac_output_voltage'', Num (py_round 1 (fl (v_l1 + v_l2))))]
         });
     Some
       ([(ikey i ''load_power'', Num (py_round 1 total_active)),
         (ikey i ''load_power_l1'', Num (py_round 1 active_a)),
         (ikey i ''load_power_l2'', Num (py_round 1 active_b)),
         (ikey i ''load_apparent_power_l1'', Num (py_round 1 apparent_a))]
        @ apparent @
        [(ikey i ''load_percentage'', Num load_pct),
         (ikey i ''ac_output_frequency'', Num ac_freq),
         (ikey i ''grid_frequency'', Num g_freq),
         (ikey i ''grid_voltage'', Num g_v),
         (ikey i ''grid_power'', Num (py_round 1 (fl (g_v * g_i)))),
         (ikey i ''temperature'', Num (py_round 1 (max (max t_dc_dc t_dc_ac) t_trans))),
         (ikey i ''temperature_dc_dc'', Num t_dc_dc),
         (ikey i ''temperature_dc_ac'', Num t_dc_ac),
         (ikey i ''temperature_transformer'', Num t_trans),
         (ikey i ''device_mode'',
            Txt (dget_or INVERTER_STATE_LOOKUP code (''unknown_code_'' @ show_int code))),
         (ikey i ''bus_voltage'', Num bus_v)]
        @ ac_v, total_active)
   }"

fun state_loop :: "(nat \<times> readings) list \<Rightarrow> state_acc \<Rightarrow> state_acc option" where
  "state_loop [] a = Some a"
| "state_loop ((i, rd) # rest) a =
     (case dget rd ''state'' of
        None \<Rightarrow> state_loop rest a
      | Some s \<Rightarrow> do {
          (entries, total_active) \<leftarrow> state_entries i s (dget rd ''phase_b'');
          state_loop rest
            \<lparr>sa_out = dupdate (sa_out a) entries,
             inv1_state = (if i = 1 then Some s else inv1_state a),
             site_load_active_total = fl (site_load_active_total a + total_active),
             site_load_any = True\<rparr>
        })"

definition state_site :: "state_acc \<Rightarrow> sensors option" where
  "state_site a = do {
     let out1 =
       (if site_load_any a then
          let o1 = dset ''load_power'' (Num (py_round 1 (site_load_active_total a))) (sa_out a)
          in (case dget o1 (ikey 1 ''device_mode'') of None \<Rightarrow> o1 | Some m \<Rightarrow> dset ''mode'' m o1)
        else sa_out a);
     (case inv1_state a of
        None \<Rightarrow> Some out1
      | Some s \<Rightarrow> do {
          g_v \<leftarrow> fld s ''grid_voltage_l1'';
          g_f \<leftarrow> fld s ''grid_frequency'';
          g_i \<leftarrow> fld s ''grid_current_l1'';
          bus_v \<leftarrow> fld s ''bus_voltage'';
          Some (dupdate out1
            [(''grid_voltage'', Num g_v), (''grid_frequency'', Num g_f),
             (''grid_power'', Num (py_round 1 (fl (g_v * g_i)))), (''bus_voltage'', Num bus_v)])
        })
   }"

section \<open>PV\<close>

text \<open>\<open>bat.fields.get(k, 0.0) if bat is not None else 0.0\<close>.\<close>

definition opt_field :: "parsed_block option \<Rightarrow> string \<Rightarrow> rat" where
  "opt_field b k = (case b of None \<Rightarrow> 0 | Some p \<Rightarrow> dget_or (pb_fields p) k 0)"

definition pv2_power_of :: "readings \<Rightarrow> rat" where
  "pv2_power_of rd =
     (let pv2_p = opt_field (dget rd ''pv2'') ''pv2_power'' in if pv2_p < 0 then 0 else pv2_p)"

definition pv_entries :: "nat \<Rightarrow> readings \<Rightarrow> sensors" where
  "pv_entries i rd =
     (let bat = dget rd ''battery''; pv2_block = dget rd ''pv2'';
          pv1_v = opt_field bat ''pv1_voltage''; pv1_i = opt_field bat ''pv1_current'';
          pv1_p = opt_field bat ''pv1_power'';
          pv2_v = opt_field pv2_block ''pv2_voltage''; pv2_i = opt_field pv2_block ''pv2_current'';
          pv2_p = pv2_power_of rd
      in [(ikey i ''pv_voltage_mppt1'', Num pv1_v),
          (ikey i ''pv_voltage_mppt2'', Num pv2_v),
          (ikey i ''pv_current_mppt1'', Num pv1_i),
          (ikey i ''pv_current_mppt2'', Num pv2_i),
          (ikey i ''pv_current'', Num (py_round 2 (fl (pv1_i + pv2_i)))),
          (ikey i ''pv_power_mppt1'', Num (py_round 1 pv1_p)),
          (ikey i ''pv_power_mppt2'', Num (py_round 1 pv2_p)),
          (ikey i ''pv_power'', Num (py_round 1 (fl (pv1_p + pv2_p))))])"

record pv_acc =
  pa_out :: sensors
  pv_total :: rat
  pv_any :: bool

fun pv_loop :: "(nat \<times> readings) list \<Rightarrow> pv_acc \<Rightarrow> pv_acc" where
  "pv_loop [] a = a"
| "pv_loop ((i, rd) # rest) a =
     pv_loop rest
       \<lparr>pa_out = dupdate (pa_out a) (pv_entries i rd),
        pv_total = fl (pv_total a + fl (opt_field (dget rd ''battery'') ''pv1_power'' + pv2_power_of rd)),
        pv_any = (pv_any a \<or> dget rd ''battery'' \<noteq> None \<or> dget rd ''pv2'' \<noteq> None)\<rparr>"

definition pv_site :: "pv_acc \<Rightarrow> sensors" where
  "pv_site a = (if pv_any a then dset ''pv_power'' (Num (py_round 1 (pv_total a))) (pa_out a) else pa_out a)"

section \<open>Daily statistics, history, diagnostics, faults\<close>

definition daily_keys :: "string list" where
  "daily_keys = [''battery_charge_ah_today'', ''battery_discharge_ah_today'', ''pv_energy_today'',
     ''load_energy_today'']"

definition history_keys :: "string list" where
  "history_keys = map (\<lambda>d. ''pv_energy_'' @ d)
     [''yesterday'', ''2_days_ago'', ''3_days_ago'', ''4_days_ago'', ''5_days_ago'', ''6_days_ago'',
      ''7_days_ago'']"

definition diag_keys :: "string list" where
  "diag_keys = [''firmware_version'', ''hardware_version'']"

text \<open>\<open>for k in ks: if k in block.fields: ...\<close>: the present fields, in the order of \<open>ks\<close>.\<close>

definition present_fields :: "readings \<Rightarrow> string \<Rightarrow> string list \<Rightarrow> (string \<times> rat) list" where
  "present_fields rd name ks =
     (case dget rd name of
        None \<Rightarrow> []
      | Some b \<Rightarrow> concat (map (\<lambda>k. case fld b k of None \<Rightarrow> [] | Some v \<Rightarrow> [(k, v)]) ks))"

definition fault_bits :: "parsed_block \<Rightarrow> string" where
  "fault_bits b = concat (case map hex4 (pb_regs_raw b) of [] \<Rightarrow> [] | h # hs \<Rightarrow> h # map (\<lambda>x. '' '' @ x) hs)"

definition cold_entries :: "nat \<Rightarrow> readings \<Rightarrow> sensors" where
  "cold_entries i rd =
     map (\<lambda>(k, v). (ikey i k, Num v))
       (present_fields rd ''daily_stats'' daily_keys
        @ present_fields rd ''runtime_ctrs'' history_keys
        @ present_fields rd ''device_info'' diag_keys)
     @ (case dget rd ''faults'' of None \<Rightarrow> [] | Some b \<Rightarrow> [(ikey i ''fault_bits'', Txt (fault_bits b))])"

definition add_daily :: "(string, rat) dict \<Rightarrow> readings \<Rightarrow> (string, rat) dict" where
  "add_daily acc rd =
     foldl (\<lambda>d (k, v). dset k (fl (dget_or d k 0 + v)) d) acc (present_fields rd ''daily_stats'' daily_keys)"

fun cold_loop :: "(nat \<times> readings) list \<Rightarrow> sensors \<times> (string, rat) dict \<Rightarrow> sensors \<times> (string, rat) dict" where
  "cold_loop [] a = a"
| "cold_loop ((i, rd) # rest) (out, daily_sums) =
     cold_loop rest (dupdate out (cold_entries i rd), add_daily daily_sums rd)"

definition cold_site :: "sensors \<times> (string, rat) dict \<Rightarrow> sensors" where
  "cold_site a = dupdate (fst a) (map (\<lambda>(k, total). (k, Num (py_round 2 total))) (snd a))"

section \<open>The whole function\<close>

definition aggregate_inverters :: "py_version \<Rightarrow> readings list \<Rightarrow> sensors option" where
  "aggregate_inverters ver per_inverter = do {
     a \<leftarrow> battery_loop (enum1 per_inverter) \<lparr>ba_out = [], socs = [], vs = [], bank_currents = []\<rparr>;
     s \<leftarrow> state_loop (enum1 per_inverter)
       \<lparr>sa_out = battery_site ver a, inv1_state = None, site_load_active_total = 0, site_load_any = False\<rparr>;
     out \<leftarrow> state_site s;
     let p = pv_loop (enum1 per_inverter) \<lparr>pa_out = out, pv_total = 0, pv_any = False\<rparr>;
     Some (cold_site (cold_loop (enum1 per_inverter) (pv_site p, [])))
   }"

section \<open>Assignments\<close>

lemma dupdate_append: "dupdate (dupdate d e) f = dupdate d (e @ f)"
  by (simp add: dupdate_def)

lemma dupdate_Nil [simp]: "dupdate d [] = d"
  by (simp add: dupdate_def)

lemma dset_dupdate: "dset k v d = dupdate d [(k, v)]"
  by (simp add: dupdate_def)

text \<open>The assignments of the four loops for one inverter.\<close>

definition battery_assign :: "nat \<times> readings \<Rightarrow> sensors" where
  "battery_assign = (\<lambda>(i, rd). case dget rd ''battery'' of None \<Rightarrow> [] | Some b \<Rightarrow>
     [(ikey i ''battery_current'', Num (the (fld b ''battery_current''))),
      (ikey i ''battery_voltage'', Num (the (fld b ''battery_voltage''))),
      (ikey i ''charge_state'', Txt (charge_state b))])"

definition state_assign :: "nat \<times> readings \<Rightarrow> sensors" where
  "state_assign = (\<lambda>(i, rd). case dget rd ''state'' of None \<Rightarrow> [] | Some s \<Rightarrow>
     (case state_entries i s (dget rd ''phase_b'') of None \<Rightarrow> [] | Some (e, _) \<Rightarrow> e))"

definition pv_assign :: "nat \<times> readings \<Rightarrow> sensors" where
  "pv_assign = (\<lambda>(i, rd). pv_entries i rd)"

definition cold_assign :: "nat \<times> readings \<Rightarrow> sensors" where
  "cold_assign = (\<lambda>(i, rd). cold_entries i rd)"

text \<open>The blocks of one name, over the inverters that returned it.\<close>

definition blocks_named :: "string \<Rightarrow> (nat \<times> readings) list \<Rightarrow> parsed_block list" where
  "blocks_named name xs = List.map_filter (\<lambda>(i, rd). dget rd name) xs"

lemma blocks_named_simps [simp]:
  "blocks_named n [] = []"
  "blocks_named n ((i, rd) # xs) = (case dget rd n of None \<Rightarrow> [] | Some b \<Rightarrow> [b]) @ blocks_named n xs"
  by (simp_all add: blocks_named_def split: option.split)

lemma battery_loop_Some:
  "battery_loop xs a = Some a' \<Longrightarrow>
     ba_out a' = dupdate (ba_out a) (concat (map battery_assign xs))
     \<and> socs a' = socs a @ map (\<lambda>b. the (fld b ''battery_state_of_charge'')) (blocks_named ''battery'' xs)
     \<and> vs a' = vs a @ map (\<lambda>b. the (fld b ''battery_voltage'')) (blocks_named ''battery'' xs)
     \<and> bank_currents a' = bank_currents a @ map (\<lambda>b. the (fld b ''battery_current'')) (blocks_named ''battery'' xs)"
proof (induction xs a arbitrary: a' rule: battery_loop.induct)
  case (2 i rd rest a)
  show ?case
  proof (cases "dget rd ''battery''")
    case None
    then show ?thesis
      using 2 by (simp add: battery_assign_def)
  next
    case (Some b)
    from 2(3) Some obtain soc v c where f: "fld b ''battery_state_of_charge'' = Some soc"
        "fld b ''battery_voltage'' = Some v" "fld b ''battery_current'' = Some c"
      by (auto split: Option.bind_splits)
    have "battery_loop rest
        \<lparr>ba_out = dupdate (ba_out a) [(ikey i ''battery_current'', Num c),
           (ikey i ''battery_voltage'', Num v), (ikey i ''charge_state'', Txt (charge_state b))],
         socs = socs a @ [soc], vs = vs a @ [v], bank_currents = bank_currents a @ [c]\<rparr> = Some a'"
      using 2(3) by (simp add: Some f)
    from 2(2) [OF Some f this] show ?thesis
      by (simp add: Some f battery_assign_def dupdate_append)
  qed
qed simp

definition state_total :: "nat \<times> readings \<Rightarrow> rat" where
  "state_total = (\<lambda>(i, rd). case dget rd ''state'' of None \<Rightarrow> 0 | Some s \<Rightarrow>
     (case state_entries i s (dget rd ''phase_b'') of None \<Rightarrow> 0 | Some (_, t) \<Rightarrow> t))"

definition has :: "string \<Rightarrow> nat \<times> readings \<Rightarrow> bool" where
  "has name = (\<lambda>(i, rd). dget rd name \<noteq> None)"

lemma state_loop_Some:
  "state_loop xs a = Some a' \<Longrightarrow>
     sa_out a' = dupdate (sa_out a) (concat (map state_assign xs))
     \<and> site_load_active_total a' = foldl (\<lambda>t x. fl (t + state_total x)) (site_load_active_total a) (filter (has ''state'') xs)
     \<and> site_load_any a' = (site_load_any a \<or> (\<exists>x \<in> set xs. has ''state'' x))
     \<and> inv1_state a' = (case filter (\<lambda>x. has ''state'' x \<and> fst x = 1) xs of [] \<Rightarrow> inv1_state a
          | y # ys \<Rightarrow> dget (snd (last (y # ys))) ''state'')"
proof (induction xs a arbitrary: a' rule: state_loop.induct)
  case (2 i rd rest a)
  show ?case
  proof (cases "dget rd ''state''")
    case None
    then show ?thesis
      using 2 by (simp add: state_assign_def has_def)
  next
    case (Some s)
    from 2(3) Some obtain e t where f: "state_entries i s (dget rd ''phase_b'') = Some (e, t)"
      by (auto split: Option.bind_splits)
    have "state_loop rest
        \<lparr>sa_out = dupdate (sa_out a) e, inv1_state = (if i = 1 then Some s else inv1_state a),
         site_load_active_total = fl (site_load_active_total a + t), site_load_any = True\<rparr> = Some a'"
      using 2(3) by (simp add: Some f)
    from 2(2) [OF Some f refl this] show ?thesis
      by (auto simp: Some f state_assign_def dupdate_append has_def state_total_def split: list.split)
  qed
qed simp

lemma pv_loop_eq:
  "pa_out (pv_loop xs a) = dupdate (pa_out a) (concat (map pv_assign xs))
     \<and> pv_any (pv_loop xs a) = (pv_any a \<or> (\<exists>x \<in> set xs. has ''battery'' x \<or> has ''pv2'' x))
     \<and> pv_total (pv_loop xs a) = foldl (\<lambda>t (i, rd).
         fl (t + fl (opt_field (dget rd ''battery'') ''pv1_power'' + pv2_power_of rd))) (pv_total a) xs"
  by (induction xs a rule: pv_loop.induct) (auto simp: pv_assign_def dupdate_append has_def)

lemma cold_loop_eq:
  "cold_loop xs (out, d) = (dupdate out (concat (map cold_assign xs)), foldl (\<lambda>d (i, rd). add_daily d rd) d xs)"
  by (induction xs "(out, d)" arbitrary: out d rule: cold_loop.induct)
    (simp_all add: cold_assign_def dupdate_append)


section \<open>Keys\<close>

lemma ikey_inj: "ikey i k = ikey j k' \<longleftrightarrow> i = j \<and> k = k'"
  by (simp add: ikey_def show_nat_sep_inj not_digit_underscore)

definition site_key :: "string \<Rightarrow> bool" where
  "site_key k \<longleftrightarrow> \<not> starts_with ''inverter_'' k"

lemma site_key_not_ikey: "site_key k \<Longrightarrow> k \<noteq> ikey i k'"
  unfolding site_key_def ikey_def by (auto simp: starts_with_def)

text \<open>Assignments for inverter \<open>i\<close> only, and for the site only.\<close>

definition keys_of :: "nat \<Rightarrow> sensors \<Rightarrow> bool" where
  "keys_of i e \<longleftrightarrow> (\<forall>x \<in> set e. \<exists>k. fst x = ikey i k)"

definition site_only :: "sensors \<Rightarrow> bool" where
  "site_only e \<longleftrightarrow> (\<forall>x \<in> set e. site_key (fst x))"

lemma keys_of_simps [simp]:
  "keys_of i []" "keys_of i ((ikey i k, v) # e) = keys_of i e" "keys_of i (e @ f) = (keys_of i e \<and> keys_of i f)"
  by (auto simp: keys_of_def)

lemma keys_of_battery: "keys_of i (battery_assign (i, rd))"
  by (simp add: battery_assign_def split: option.split)

lemma state_entries_shape:
  assumes "state_entries i s pb = Some (e, t)"
  obtains ap ac where
    "e = [(ikey i ''load_power'', Num (py_round 1 t)),
         (ikey i ''load_power_l1'', Num (py_round 1 (the (fld s ''load_active_phase_a'')))),
         (ikey i ''load_power_l2'', Num (py_round 1 (opt_field pb ''load_active_phase_b''))),
         (ikey i ''load_apparent_power_l1'', Num (py_round 1 (the (fld s ''load_apparent_phase_a''))))]
        @ ap @
        [(ikey i ''load_percentage'', Num (the (fld s ''load_percent''))),
         (ikey i ''ac_output_frequency'', Num (the (fld s ''ac_output_frequency''))),
         (ikey i ''grid_frequency'', Num (the (fld s ''grid_frequency''))),
         (ikey i ''grid_voltage'', Num (the (fld s ''grid_voltage_l1''))),
         (ikey i ''grid_power'', Num (py_round 1 (fl (the (fld s ''grid_voltage_l1'') * the (fld s ''grid_current_l1''))))),
         (ikey i ''temperature'', Num (py_round 1 (max (max (the (fld s ''temperature_dc_dc''))
            (the (fld s ''temperature_dc_ac''))) (the (fld s ''temperature_transformer''))))),
         (ikey i ''temperature_dc_dc'', Num (the (fld s ''temperature_dc_dc''))),
         (ikey i ''temperature_dc_ac'', Num (the (fld s ''temperature_dc_ac''))),
         (ikey i ''temperature_transformer'', Num (the (fld s ''temperature_transformer''))),
         (ikey i ''device_mode'', Txt (dget_or INVERTER_STATE_LOOKUP (py_int (the (fld s ''inverter_state_code'')))
            (''unknown_code_'' @ show_int (py_int (the (fld s ''inverter_state_code'')))))),
         (ikey i ''bus_voltage'', Num (the (fld s ''bus_voltage'')))]
        @ ac"
    "fst ` set ap \<subseteq> {ikey i ''load_apparent_power_l2'', ikey i ''load_apparent_power''}"
    "fst ` set ac \<subseteq> {ikey i ''ac_output_voltage''}"
    "t = fl (the (fld s ''load_active_phase_a'') + opt_field pb ''load_active_phase_b'')"
proof -
  have b: "opt_field pb ''load_active_phase_b'' = x"
    if "(case pb of None \<Rightarrow> Some 0 | Some p \<Rightarrow> fld p ''load_active_phase_b'') = Some x" for x
    using that by (auto simp: opt_field_def dget_or_def split: option.splits)
  have ac: "fst ` set ac \<subseteq> {ikey i ''ac_output_voltage''}"
    if "(case Option.bind pb (\<lambda>p. fld p ''ac_output_voltage_l2'') of None \<Rightarrow> Some [] | Some v_l2 \<Rightarrow>
        Option.bind (fld s ''ac_output_voltage_l1'') (\<lambda>v_l1.
          Some [(ikey i ''ac_output_voltage'', Num (py_round 1 (fl (v_l1 + v_l2))))])) = Some ac" for ac
    using that by (auto simp: Option.bind_eq_Some_conv split: option.splits)
  show thesis
    using assms unfolding state_entries_def Option.bind_eq_Some_conv Let_def
    apply (elim exE conjE)
    apply (simp only: option.inject prod.inject)
    apply (elim conjE)
    apply (rule that)
       apply (simp only: b option.sel)
       apply (erule sym)
      apply (simp split: option.split)
     apply (erule ac)
    apply (simp only: b option.sel)
    done
qed

lemma keys_of_sub: "fst ` set e \<subseteq> {ikey i a, ikey i b} \<Longrightarrow> keys_of i e" "fst ` set e \<subseteq> {ikey i a} \<Longrightarrow> keys_of i e"
  by (auto simp: keys_of_def)

lemma keys_of_state_entries: "state_entries i s pb = Some (e, t) \<Longrightarrow> keys_of i e"
  by (erule state_entries_shape) (simp only: keys_of_simps keys_of_sub simp_thms)

lemma keys_of_state: "keys_of i (state_assign (i, rd))"
  by (auto simp: state_assign_def keys_of_state_entries split: option.split)

lemma keys_of_pv: "keys_of i (pv_assign (i, rd))"
  by (simp add: pv_assign_def pv_entries_def Let_def)

lemma keys_of_map: "keys_of i (map (\<lambda>(k, v). (ikey i k, g v)) xs)"
  by (auto simp: keys_of_def)

lemma keys_of_cold: "keys_of i (cold_assign (i, rd))"
  by (simp add: cold_assign_def cold_entries_def keys_of_map split: option.split)

lemma keys_of_other: "keys_of j e \<Longrightarrow> i \<noteq> j \<Longrightarrow> dget (rev e) (ikey i k) = None"
  by (force simp: keys_of_def map_of_eq_None_iff ikey_inj)

lemma keys_of_site: "keys_of j e \<Longrightarrow> site_key k \<Longrightarrow> dget (rev e) k = None"
  by (force simp: keys_of_def map_of_eq_None_iff dest: site_key_not_ikey)

lemma site_only_ikey: "site_only e \<Longrightarrow> dget (rev e) (ikey i k) = None"
  by (force simp: site_only_def map_of_eq_None_iff dest: site_key_not_ikey)

lemma concat_ikey:
  assumes "\<And>i rd. keys_of i (f (i, rd))" and "distinct (map fst xs)" and "(i, rd) \<in> set xs"
  shows "dget (rev (concat (map f xs))) (ikey i k) = dget (rev (f (i, rd))) (ikey i k)"
  using assms(2,3)
proof (induction xs)
  case (Cons x xs)
  obtain j r where x: "x = (j, r)" by (cases x)
  show ?case
  proof (cases "j = i")
    case True
    then have "\<forall>y \<in> set xs. fst y \<noteq> i"
      using Cons.prems x by force
    then have "dget (rev (concat (map f xs))) (ikey i k) = None"
    proof (induction xs)
      case (Cons y ys)
      then show ?case
        using keys_of_other [OF assms(1) [of "fst y" "snd y"], of i k] by (simp add: map_add_def)
    qed simp
    moreover have "r = rd"
      using Cons.prems x True by force
    ultimately show ?thesis
      using x True by (simp add: map_add_def)
  next
    case False
    then show ?thesis
      using Cons x keys_of_other [OF assms(1) [of j r], of i k]
      by (auto simp: map_add_def split: option.split)
  qed
qed simp

lemma concat_site:
  assumes "\<And>i rd. keys_of i (f (i, rd))" and "site_key k"
  shows "dget (rev (concat (map f xs))) k = None"
proof (induction xs)
  case (Cons y ys)
  then show ?case
    using keys_of_site [OF assms(1) [of "fst y" "snd y"] assms(2)] by (simp add: map_add_def)
qed simp

section \<open>The shape of the result\<close>

definition battery_site_assign :: "py_version \<Rightarrow> parsed_block list \<Rightarrow> sensors" where
  "battery_site_assign ver bats =
     (if bats = [] then [] else
       let soc = map (\<lambda>b. the (fld b ''battery_state_of_charge'')) bats;
           v = map (\<lambda>b. the (fld b ''battery_voltage'')) bats;
           c = map (\<lambda>b. the (fld b ''battery_current'')) bats;
           n = of_nat (length bats)
       in [(''battery_state_of_charge'', Num (py_round 1 (fl (py_sum ver soc / n)))),
           (''battery_voltage'', Num (py_round 2 (fl (py_sum ver v / n)))),
           (''battery_power'', Num (py_round 1 (fl (fl (py_sum ver v / n) * py_sum ver c))))])"

definition state_site_assign :: "state_acc \<Rightarrow> sensors" where
  "state_site_assign a =
     (if site_load_any a then
        (''load_power'', Num (py_round 1 (site_load_active_total a)))
        # (case dget (sa_out a) (ikey 1 ''device_mode'') of None \<Rightarrow> [] | Some m \<Rightarrow> [(''mode'', m)])
      else [])
     @ (case inv1_state a of None \<Rightarrow> [] | Some s \<Rightarrow>
         [(''grid_voltage'', Num (the (fld s ''grid_voltage_l1''))),
          (''grid_frequency'', Num (the (fld s ''grid_frequency''))),
          (''grid_power'', Num (py_round 1 (fl (the (fld s ''grid_voltage_l1'') * the (fld s ''grid_current_l1''))))),
          (''bus_voltage'', Num (the (fld s ''bus_voltage'')))])"

lemma ikey_ne_load: "ikey i k \<noteq> ''load_power''"
  by (simp add: ikey_def)

lemma state_site_Some: "state_site a = Some out \<Longrightarrow> out = dupdate (sa_out a) (state_site_assign a)"
  unfolding state_site_def state_site_assign_def
  by (auto simp: dset_dupdate dupdate_append dget_dupdate ikey_ne_load Let_def
      split: if_splits option.splits Option.bind_splits)

lemma battery_site_eq:
  "battery_loop xs \<lparr>ba_out = [], socs = [], vs = [], bank_currents = []\<rparr> = Some a \<Longrightarrow>
     battery_site ver a = dupdate [] (concat (map battery_assign xs) @ battery_site_assign ver (blocks_named ''battery'' xs))"
  by (drule battery_loop_Some) (simp add: battery_site_def battery_site_assign_def Let_def dupdate_append)

definition pv_site_assign :: "(nat \<times> readings) list \<Rightarrow> sensors" where
  "pv_site_assign xs =
     (if \<exists>x \<in> set xs. has ''battery'' x \<or> has ''pv2'' x
      then [(''pv_power'', Num (py_round 1 (foldl (\<lambda>t (i, rd).
         fl (t + fl (opt_field (dget rd ''battery'') ''pv1_power'' + pv2_power_of rd))) 0 xs)))]
      else [])"

definition cold_site_assign :: "(nat \<times> readings) list \<Rightarrow> sensors" where
  "cold_site_assign xs =
     map (\<lambda>(k, total). (k, Num (py_round 2 total))) (foldl (\<lambda>d (i, rd). add_daily d rd) [] xs)"

lemma aggregate_Some:
  assumes "aggregate_inverters ver per = Some out"
  shows "\<exists>s. state_loop (enum1 per)
       \<lparr>sa_out = dupdate [] (concat (map battery_assign (enum1 per))
          @ battery_site_assign ver (blocks_named ''battery'' (enum1 per))),
        inv1_state = None, site_load_active_total = 0, site_load_any = False\<rparr> = Some s
     \<and> out = dupdate [] (concat (map battery_assign (enum1 per))
        @ battery_site_assign ver (blocks_named ''battery'' (enum1 per))
        @ concat (map state_assign (enum1 per)) @ state_site_assign s
        @ concat (map pv_assign (enum1 per)) @ pv_site_assign (enum1 per)
        @ concat (map cold_assign (enum1 per)) @ cold_site_assign (enum1 per))"
proof -
  let ?xs = "enum1 per"
  obtain a s o1 where a: "battery_loop ?xs \<lparr>ba_out = [], socs = [], vs = [], bank_currents = []\<rparr> = Some a"
    and s: "state_loop ?xs \<lparr>sa_out = battery_site ver a, inv1_state = None,
        site_load_active_total = 0, site_load_any = False\<rparr> = Some s"
    and o1: "state_site s = Some o1"
    and out: "out = cold_site (cold_loop ?xs (pv_site (pv_loop ?xs \<lparr>pa_out = o1, pv_total = 0, pv_any = False\<rparr>), []))"
    using assms unfolding aggregate_inverters_def by (auto split: Option.bind_splits)
  have "pv_site (pv_loop ?xs \<lparr>pa_out = o1, pv_total = 0, pv_any = False\<rparr>) =
      dupdate o1 (concat (map pv_assign ?xs) @ pv_site_assign ?xs)"
    by (simp add: pv_site_def pv_loop_eq pv_site_assign_def dset_dupdate dupdate_append)
  moreover have "cold_site (cold_loop ?xs (o2, [])) = dupdate o2 (concat (map cold_assign ?xs) @ cold_site_assign ?xs)"
    for o2
    by (simp add: cold_loop_eq cold_site_def cold_site_assign_def dupdate_append)
  moreover have "sa_out s = dupdate (battery_site ver a) (concat (map state_assign ?xs))"
    using state_loop_Some [OF s] by simp
  ultimately show ?thesis
    using s out state_site_Some [OF o1] battery_site_eq [OF a] by (auto simp: dupdate_append)
qed


lemma site_key_simps: "site_key ''battery_state_of_charge''" "site_key ''battery_voltage''"
  "site_key ''battery_power''" "site_key ''load_power''" "site_key ''mode''" "site_key ''grid_voltage''"
  "site_key ''grid_frequency''" "site_key ''grid_power''" "site_key ''bus_voltage''" "site_key ''pv_power''"
  "k \<in> set daily_keys \<Longrightarrow> site_key k"
  by (auto simp: site_key_def starts_with_def daily_keys_def)

lemma site_only_battery: "site_only (battery_site_assign ver bats)"
  by (simp add: battery_site_assign_def site_only_def site_key_simps Let_def)

lemma site_only_state: "site_only (state_site_assign s)"
  by (auto simp: state_site_assign_def site_only_def site_key_simps split: option.split)

lemma site_only_pv: "site_only (pv_site_assign xs)"
  by (simp add: pv_site_assign_def site_only_def site_key_simps)

lemma present_fields_keys: "x \<in> set (present_fields rd name ks) \<Longrightarrow> fst x \<in> set ks"
  by (auto simp: present_fields_def split: option.splits)

lemma add_daily_keys: "set (dkeys (add_daily d rd)) \<subseteq> set (dkeys d) \<union> set daily_keys"
proof -
  have "set (dkeys (foldl (\<lambda>d (k, v). dset k (fl (dget_or d k 0 + v)) d) d es))
      \<subseteq> set (dkeys d) \<union> fst ` set es" for es
  proof (induction es arbitrary: d)
    case (Cons e es)
    obtain k v where e: "e = (k, v)" by (cases e)
    show ?case
      using Cons [of "dset k (fl (dget_or d k 0 + v)) d"] by (auto simp: e dict_simps)
  qed simp
  then show ?thesis
    unfolding add_daily_def using present_fields_keys by blast
qed

lemma cold_site_keys: "set (dkeys (cold_site_assign xs)) \<subseteq> set daily_keys"
proof -
  have "set (dkeys (foldl (\<lambda>d (i, rd). add_daily d rd) d xs)) \<subseteq> set (dkeys d) \<union> set daily_keys" for d
  proof (induction xs arbitrary: d)
    case (Cons x xs)
    obtain i rd where x: "x = (i, rd)" by (cases x)
    show ?case
      using Cons [of "add_daily d rd"] add_daily_keys [of d rd] unfolding x by simp blast
  qed simp
  from this [of "[]"] show ?thesis
    by (force simp: cold_site_assign_def dkeys_def)
qed

lemma site_only_cold: "site_only (cold_site_assign xs)"
  using cold_site_keys [of xs] by (auto simp: site_only_def dkeys_def intro: site_key_simps)

lemma cold_site_other: "k \<notin> set daily_keys \<Longrightarrow> dget (rev (cold_site_assign xs)) k = None"
  using cold_site_keys [of xs] by (auto simp: map_of_eq_None_iff dkeys_def)

text \<open>The assignments of inverter \<open>i\<close>, in the order of the stages.\<close>

definition inverter_entries :: "nat \<Rightarrow> readings \<Rightarrow> sensors" where
  "inverter_entries i rd =
     battery_assign (i, rd) @ state_assign (i, rd) @ pv_assign (i, rd) @ cold_assign (i, rd)"

lemma enum1_in: "1 \<le> i \<Longrightarrow> i \<le> length per \<Longrightarrow> (i, per ! (i - 1)) \<in> set (enum1 per)"
  by (simp add: enum1_mem)

lemma inverter_lookup:
  assumes "aggregate_inverters ver per = Some out" and "1 \<le> i" "i \<le> length per"
  shows "dget out (ikey i k) = dget (dupdate [] (inverter_entries i (per ! (i - 1)))) (ikey i k)"
proof -
  note mem = enum1_in [OF assms(2,3)]
  note c = concat_ikey [OF _ distinct_fst_enum1 mem, of _ k]
  have s: "dget (rev (concat (map battery_assign (enum1 per)))) (ikey i k)
        = dget (rev (battery_assign (i, per ! (i - 1)))) (ikey i k)"
    "dget (rev (concat (map state_assign (enum1 per)))) (ikey i k)
        = dget (rev (state_assign (i, per ! (i - 1)))) (ikey i k)"
    "dget (rev (concat (map pv_assign (enum1 per)))) (ikey i k)
        = dget (rev (pv_assign (i, per ! (i - 1)))) (ikey i k)"
    "dget (rev (concat (map cold_assign (enum1 per)))) (ikey i k)
        = dget (rev (cold_assign (i, per ! (i - 1)))) (ikey i k)"
    by (intro c keys_of_battery keys_of_state keys_of_pv keys_of_cold)+
  from aggregate_Some [OF assms(1)] obtain st where out: "out = dupdate [] (concat (map battery_assign (enum1 per))
        @ battery_site_assign ver (blocks_named ''battery'' (enum1 per))
        @ concat (map state_assign (enum1 per)) @ state_site_assign st
        @ concat (map pv_assign (enum1 per)) @ pv_site_assign (enum1 per)
        @ concat (map cold_assign (enum1 per)) @ cold_site_assign (enum1 per))"
    by blast
  show ?thesis
    unfolding out dget_dupdate rev_append map_of_append map_add_def inverter_entries_def
    by (simp only: s site_only_ikey [OF site_only_battery] site_only_ikey [OF site_only_state]
        site_only_ikey [OF site_only_pv] site_only_ikey [OF site_only_cold] option.case
        rev_append map_of_append map_add_def)
      (simp split: option.split)
qed


lemma site_lookup:
  assumes "aggregate_inverters ver per = Some out" and k: "site_key k"
  obtains st where "state_loop (enum1 per)
       \<lparr>sa_out = dupdate [] (concat (map battery_assign (enum1 per))
          @ battery_site_assign ver (blocks_named ''battery'' (enum1 per))),
        inv1_state = None, site_load_active_total = 0, site_load_any = False\<rparr> = Some st"
    and "dget out k = dget (dupdate [] (battery_site_assign ver (blocks_named ''battery'' (enum1 per))
       @ state_site_assign st @ pv_site_assign (enum1 per) @ cold_site_assign (enum1 per))) k"
proof -
  from aggregate_Some [OF assms(1)] obtain st where st: "state_loop (enum1 per)
       \<lparr>sa_out = dupdate [] (concat (map battery_assign (enum1 per))
          @ battery_site_assign ver (blocks_named ''battery'' (enum1 per))),
        inv1_state = None, site_load_active_total = 0, site_load_any = False\<rparr> = Some st"
    and out: "out = dupdate [] (concat (map battery_assign (enum1 per))
        @ battery_site_assign ver (blocks_named ''battery'' (enum1 per))
        @ concat (map state_assign (enum1 per)) @ state_site_assign st
        @ concat (map pv_assign (enum1 per)) @ pv_site_assign (enum1 per)
        @ concat (map cold_assign (enum1 per)) @ cold_site_assign (enum1 per))"
    by blast
  have s: "dget (rev (concat (map battery_assign xs))) k = None"
    "dget (rev (concat (map state_assign xs))) k = None"
    "dget (rev (concat (map pv_assign xs))) k = None"
    "dget (rev (concat (map cold_assign xs))) k = None" for xs
    by (intro concat_site k keys_of_battery keys_of_state keys_of_pv keys_of_cold)+
  have "dget out k = dget (dupdate [] (battery_site_assign ver (blocks_named ''battery'' (enum1 per))
       @ state_site_assign st @ pv_site_assign (enum1 per) @ cold_site_assign (enum1 per))) k"
    unfolding out dget_dupdate rev_append map_of_append map_add_def
    by (simp only: s option.case) (simp split: option.split)
  with st show thesis by (rule that)
qed

lemma filter_first:
  "filter (\<lambda>x. P x \<and> fst x = 1) (enum1 per) =
     (case per of [] \<Rightarrow> [] | rd # _ \<Rightarrow> if P (1, rd) then [(1, rd)] else [])"
proof (cases per)
  case (Cons rd rest)
  have "enum1 per = (1, rd) # zip [2..<Suc (length per)] rest"
    by (simp add: Cons enum1_def upt_conv_Cons numeral_2_eq_2 del: upt_Suc)
  moreover have "filter (\<lambda>x. P x \<and> fst x = 1) (zip [2..<n] rest) = []" for n
    by (auto simp: filter_empty_conv dest: set_zip_leftD)
  ultimately show ?thesis
    by (simp add: Cons del: upt_Suc)
qed (simp add: enum1_def)

lemma cold_assign_other:
  assumes "k \<notin> set daily_keys" "k \<notin> set history_keys" "k \<notin> set diag_keys" "k \<noteq> ''fault_bits''"
  shows "dget (rev (cold_assign (i, rd))) (ikey i k) = None"
  using assms present_fields_keys [of _ rd]
  by (fastforce simp: map_of_eq_None_iff cold_assign_def cold_entries_def ikey_inj split: option.splits)

lemma other_keys: "''device_mode'' \<notin> set daily_keys \<union> set history_keys \<union> set diag_keys"
  "''grid_power'' \<notin> set daily_keys \<union> set history_keys \<union> set diag_keys"
  "''grid_voltage'' \<notin> set daily_keys \<union> set history_keys \<union> set diag_keys"
  "''grid_frequency'' \<notin> set daily_keys \<union> set history_keys \<union> set diag_keys"
  "''bus_voltage'' \<notin> set daily_keys \<union> set history_keys \<union> set diag_keys"
  by (simp_all add: daily_keys_def history_keys_def diag_keys_def)

definition pv_keys :: "string list" where
  "pv_keys = [''pv_voltage_mppt1'', ''pv_voltage_mppt2'', ''pv_current_mppt1'', ''pv_current_mppt2'',
     ''pv_current'', ''pv_power_mppt1'', ''pv_power_mppt2'', ''pv_power'']"

lemma pv_not_cold: "k \<in> set pv_keys \<Longrightarrow> k \<notin> set daily_keys \<union> set history_keys \<union> set diag_keys \<union> {''fault_bits''}"
  by (auto simp: pv_keys_def daily_keys_def history_keys_def diag_keys_def)

lemma pv_assign_other: "k \<notin> set pv_keys \<Longrightarrow> dget (rev (pv_assign (i, rd))) (ikey i k) = None"
  by (auto simp: map_of_eq_None_iff pv_assign_def pv_entries_def pv_keys_def ikey_inj Let_def)

text \<open>What the state block of an inverter publishes.\<close>

lemma list_lookup: "fst ` set ap \<subseteq> K \<Longrightarrow> k \<notin> K \<Longrightarrow> dget (rev ap) k = None"
  by (auto simp: map_of_eq_None_iff)

lemma state_entries_lookup:
  assumes "state_entries i s pb = Some (e, t)"
  shows "dget (rev e) (ikey i ''device_mode'') = Some (Txt (dget_or INVERTER_STATE_LOOKUP
        (py_int (the (fld s ''inverter_state_code'')))
        (''unknown_code_'' @ show_int (py_int (the (fld s ''inverter_state_code''))))))"
    and "dget (rev e) (ikey i ''grid_voltage'') = Some (Num (the (fld s ''grid_voltage_l1'')))"
    and "dget (rev e) (ikey i ''grid_frequency'') = Some (Num (the (fld s ''grid_frequency'')))"
    and "dget (rev e) (ikey i ''grid_power'') = Some (Num (py_round 1
        (fl (the (fld s ''grid_voltage_l1'') * the (fld s ''grid_current_l1'')))))"
    and "dget (rev e) (ikey i ''bus_voltage'') = Some (Num (the (fld s ''bus_voltage'')))"
    and "dget (rev e) (ikey i ''load_power'') = Some (Num (py_round 1 t))"
proof -
  show "dget (rev e) (ikey i ''device_mode'') = Some (Txt (dget_or INVERTER_STATE_LOOKUP
        (py_int (the (fld s ''inverter_state_code'')))
        (''unknown_code_'' @ show_int (py_int (the (fld s ''inverter_state_code''))))))"
    using assms
    by (rule state_entries_shape) (simp add: ikey_inj map_add_def list_lookup)
  show "dget (rev e) (ikey i ''grid_voltage'') = Some (Num (the (fld s ''grid_voltage_l1'')))"
    using assms
    by (rule state_entries_shape) (simp add: ikey_inj map_add_def list_lookup)
  show "dget (rev e) (ikey i ''grid_frequency'') = Some (Num (the (fld s ''grid_frequency'')))"
    using assms
    by (rule state_entries_shape) (simp add: ikey_inj map_add_def list_lookup)
  show "dget (rev e) (ikey i ''grid_power'') = Some (Num (py_round 1
        (fl (the (fld s ''grid_voltage_l1'') * the (fld s ''grid_current_l1'')))))"
    using assms
    by (rule state_entries_shape) (simp add: ikey_inj map_add_def list_lookup)
  show "dget (rev e) (ikey i ''bus_voltage'') = Some (Num (the (fld s ''bus_voltage'')))"
    using assms
    by (rule state_entries_shape) (simp add: ikey_inj map_add_def list_lookup)
  show "dget (rev e) (ikey i ''load_power'') = Some (Num (py_round 1 t))"
    using assms
    by (rule state_entries_shape) (simp add: ikey_inj map_add_def list_lookup)
qed


section \<open>Readings that the parser produces\<close>

definition parsed_ok :: "string \<Rightarrow> parsed_block \<Rightarrow> bool" where
  "parsed_ok name b \<longleftrightarrow> (\<exists>blk \<in> set BLOCKS. bl_name blk = name
     \<and> dkeys (pb_fields b) = map fd_key (fields_for (bl_addr blk)))"

definition readings_ok :: "readings \<Rightarrow> bool" where
  "readings_ok rd \<longleftrightarrow> (\<forall>name b. dget rd name = Some b \<longrightarrow> parsed_ok name b)"

lemma parse_block_ok:
  assumes "parse_block addr frame = Inr b" and "reg_range (mf_regs frame)"
  shows "parsed_ok (pb_block_name b) b"
proof -
  obtain blk where "find (\<lambda>b. bl_addr b = addr) BLOCKS = Some blk"
    and b: "b = \<lparr>pb_block_addr = addr, pb_block_name = bl_name blk, pb_slave = mf_slave frame,
      pb_regs_raw = mf_regs frame, pb_fields = spec_fields addr (mf_regs frame)\<rparr>"
    using assms parse_block_exact [OF assms(2), of addr]
    by (auto split: option.splits if_splits)
  then show ?thesis
    unfolding parsed_ok_def find_block_Some
    by (intro bexI [of _ blk]) (auto simp: spec_fields_def dkeys_def)
qed

lemma parsed_ok_named:
  "parsed_ok ''battery'' b \<longleftrightarrow> dkeys (pb_fields b) = map fd_key (fields_for 0x0100)"
  "parsed_ok ''state'' b \<longleftrightarrow> dkeys (pb_fields b) = map fd_key (fields_for 0x0210)"
  "parsed_ok ''phase_b'' b \<longleftrightarrow> dkeys (pb_fields b) = map fd_key (fields_for 0x0223)"
  by (simp_all add: parsed_ok_def BLOCKS_def)

lemma keys_battery: "map fd_key (fields_for 0x0100) = [''battery_state_of_charge'', ''battery_voltage'',
    ''battery_current'', ''pv1_voltage'', ''pv1_current'', ''pv1_power'', ''charge_state_code'']"
  by (simp add: fields_for_def FIELDS_def)

lemma keys_state: "map fd_key (fields_for 0x0210) = [''inverter_state_code'', ''inverter_substate_code'',
    ''bus_voltage'', ''grid_voltage_l1'', ''grid_current_l1'', ''grid_frequency'', ''ac_output_voltage_l1'',
    ''ac_output_current_l1'', ''ac_output_frequency'', ''load_percent_alt'', ''load_active_phase_a'',
    ''load_apparent_phase_a'', ''load_percent'', ''temperature_dc_dc'', ''temperature_dc_ac'',
    ''temperature_transformer'']"
  by (simp add: fields_for_def FIELDS_def)

lemma keys_phase_b: "map fd_key (fields_for 0x0223) = [''ac_output_voltage_l2'', ''ac_output_current_l2'',
    ''load_current_phase_b'', ''load_active_phase_b'', ''load_apparent_phase_b'']"
  by (simp add: fields_for_def FIELDS_def)

lemma key_field: "k \<in> set (dkeys d) \<Longrightarrow> \<exists>v. dget d k = Some v"
  using dget_none_iff [of d k] by auto

lemma battery_fields:
  assumes "parsed_ok ''battery'' b"
  shows "\<exists>v. fld b ''battery_state_of_charge'' = Some v" "\<exists>v. fld b ''battery_voltage'' = Some v"
    "\<exists>v. fld b ''battery_current'' = Some v"
  by (intro key_field, simp only: assms [unfolded parsed_ok_named] keys_battery, simp)+

lemma state_fields:
  assumes "parsed_ok ''state'' b"
  shows "\<exists>v. fld b ''load_active_phase_a'' = Some v" "\<exists>v. fld b ''load_apparent_phase_a'' = Some v"
    "\<exists>v. fld b ''load_percent'' = Some v" "\<exists>v. fld b ''ac_output_frequency'' = Some v"
    "\<exists>v. fld b ''grid_frequency'' = Some v" "\<exists>v. fld b ''grid_voltage_l1'' = Some v"
    "\<exists>v. fld b ''grid_current_l1'' = Some v" "\<exists>v. fld b ''temperature_dc_dc'' = Some v"
    "\<exists>v. fld b ''temperature_dc_ac'' = Some v" "\<exists>v. fld b ''temperature_transformer'' = Some v"
    "\<exists>v. fld b ''inverter_state_code'' = Some v" "\<exists>v. fld b ''bus_voltage'' = Some v"
    "\<exists>v. fld b ''ac_output_voltage_l1'' = Some v"
  by (intro key_field, simp only: assms [unfolded parsed_ok_named] keys_state, simp)+

lemma phase_b_field:
  assumes "parsed_ok ''phase_b'' b"
  shows "\<exists>v. fld b ''load_active_phase_b'' = Some v"
  by (intro key_field, simp only: assms [unfolded parsed_ok_named] keys_phase_b, simp)

lemma state_entries_total:
  assumes "parsed_ok ''state'' s" and "pb = None \<or> (\<exists>p. pb = Some p \<and> parsed_ok ''phase_b'' p)"
  shows "\<exists>r. state_entries i s pb = Some r"
proof -
  have "\<exists>v. (case pb of None \<Rightarrow> Some 0 | Some p \<Rightarrow> fld p ''load_active_phase_b'') = Some v"
    using assms(2) phase_b_field by auto
  moreover have "\<exists>v. (case Option.bind pb (\<lambda>p. fld p ''ac_output_voltage_l2'') of
         None \<Rightarrow> Some []
       | Some v_l2 \<Rightarrow> Option.bind (fld s ''ac_output_voltage_l1'') (\<lambda>v_l1.
           Some [(ikey i ''ac_output_voltage'', Num (py_round 1 (fl (v_l1 + v_l2))))])) = Some v"
    using state_fields(13) [OF assms(1)] by (auto split: option.split)
  ultimately show ?thesis
    using state_fields [OF assms(1)] unfolding state_entries_def Let_def
    by (elim exE) (simp only: Option.bind.bind_lunit, blast)
qed

lemma battery_loop_total: "\<forall>(i, rd) \<in> set xs. readings_ok rd \<Longrightarrow> \<exists>a'. battery_loop xs a = Some a'"
proof (induction xs a rule: battery_loop.induct)
  case (2 i rd rest a)
  show ?case
  proof (cases "dget rd ''battery''")
    case None
    then show ?thesis using 2 by simp
  next
    case (Some b)
    then have "parsed_ok ''battery'' b"
      using "2.prems" by (simp add: readings_ok_def)
    with battery_fields obtain soc v c where f: "fld b ''battery_state_of_charge'' = Some soc"
        "fld b ''battery_voltage'' = Some v" "fld b ''battery_current'' = Some c"
      by blast
    show ?thesis
      using 2(2) [OF Some f] "2.prems" by (simp add: Some f)
  qed
qed simp

lemma state_loop_total: "\<forall>(i, rd) \<in> set xs. readings_ok rd \<Longrightarrow> \<exists>a'. state_loop xs a = Some a'"
proof (induction xs a rule: state_loop.induct)
  case (2 i rd rest a)
  show ?case
  proof (cases "dget rd ''state''")
    case None
    then show ?thesis using 2 by simp
  next
    case (Some s)
    then have "parsed_ok ''state'' s"
      using "2.prems" by (simp add: readings_ok_def)
    moreover have "dget rd ''phase_b'' = None \<or> (\<exists>p. dget rd ''phase_b'' = Some p \<and> parsed_ok ''phase_b'' p)"
      using "2.prems" by (auto simp: readings_ok_def)
    ultimately obtain e t where f: "state_entries i s (dget rd ''phase_b'') = Some (e, t)"
      using state_entries_total by fastforce
    show ?thesis
      using 2(2) [OF Some f refl] "2.prems" by (simp add: Some f)
  qed
qed simp

lemma in_enum1: "(i, rd) \<in> set (enum1 per) \<Longrightarrow> rd \<in> set per"
  by (auto simp: enum1_mem)

lemma inv1_state_is:
  assumes "state_loop (enum1 per) a = Some st" and "inv1_state a = None"
  shows "inv1_state st = (case per of [] \<Rightarrow> None | rd # _ \<Rightarrow> dget rd ''state'')"
proof (cases per)
  case Nil
  then show ?thesis
    using state_loop_Some [OF assms(1)] assms(2) by (simp add: enum1_def)
next
  case (Cons rd rest)
  have "inv1_state st = (case filter (\<lambda>x. has ''state'' x \<and> fst x = 1) (enum1 per) of [] \<Rightarrow> inv1_state a
          | y # ys \<Rightarrow> dget (snd (last (y # ys))) ''state'')"
    using state_loop_Some [OF assms(1)] by blast
  then show ?thesis
    unfolding filter_first using assms(2) by (cases "dget rd ''state''") (simp_all add: Cons has_def)
qed

lemma state_site_total:
  assumes "\<forall>s. inv1_state a = Some s \<longrightarrow> parsed_ok ''state'' s"
  shows "\<exists>out. state_site a = Some out"
proof (cases "inv1_state a")
  case (Some s)
  have s: "parsed_ok ''state'' s"
    using assms Some by simp
  obtain v f c u where "fld s ''grid_voltage_l1'' = Some v" "fld s ''grid_frequency'' = Some f"
      "fld s ''grid_current_l1'' = Some c" "fld s ''bus_voltage'' = Some u"
    using state_fields(5,6,7,12) [OF s] by blast
  then show ?thesis
    unfolding state_site_def Let_def by (simp only: Some option.case Option.bind.bind_lunit) blast
qed (simp add: state_site_def Let_def)


lemma state_site_other:
  "k \<notin> {''load_power'', ''mode'', ''grid_voltage'', ''grid_frequency'', ''grid_power'', ''bus_voltage''}
     \<Longrightarrow> dget (rev (state_site_assign a)) k = None"
  by (auto simp: map_of_eq_None_iff state_site_assign_def split: if_splits option.splits)

lemma pv_site_other: "k \<noteq> ''pv_power'' \<Longrightarrow> dget (rev (pv_site_assign xs)) k = None"
  by (simp add: pv_site_assign_def)

lemma battery_site_other:
  "k \<notin> {''battery_state_of_charge'', ''battery_voltage'', ''battery_power''}
     \<Longrightarrow> dget (rev (battery_site_assign ver bats)) k = None"
  by (simp add: battery_site_assign_def Let_def)

lemma state_site_load: "dget (rev (state_site_assign a)) ''load_power'' =
    (if site_load_any a then Some (Num (py_round 1 (site_load_active_total a))) else None)"
  by (simp add: state_site_assign_def map_add_def split: option.split)

lemma state_site_mode: "dget (rev (state_site_assign a)) ''mode'' =
    (if site_load_any a then dget (sa_out a) (ikey 1 ''device_mode'') else None)"
  by (simp add: state_site_assign_def map_add_def split: option.split)

lemma state_site_grid:
  "dget (rev (state_site_assign a)) ''grid_voltage'' = map_option (\<lambda>s. Num (the (fld s ''grid_voltage_l1''))) (inv1_state a)"
  "dget (rev (state_site_assign a)) ''grid_frequency'' = map_option (\<lambda>s. Num (the (fld s ''grid_frequency''))) (inv1_state a)"
  "dget (rev (state_site_assign a)) ''grid_power'' = map_option (\<lambda>s. Num (py_round 1
     (fl (the (fld s ''grid_voltage_l1'') * the (fld s ''grid_current_l1''))))) (inv1_state a)"
  "dget (rev (state_site_assign a)) ''bus_voltage'' = map_option (\<lambda>s. Num (the (fld s ''bus_voltage''))) (inv1_state a)"
  by (cases "inv1_state a"; simp add: state_site_assign_def map_add_def split: option.split)+

lemma state_loop_entries:
  "state_loop xs a = Some a' \<Longrightarrow> (i, rd) \<in> set xs \<Longrightarrow> dget rd ''state'' = Some s
     \<Longrightarrow> \<exists>e t. state_entries i s (dget rd ''phase_b'') = Some (e, t)"
proof (induction xs a rule: state_loop.induct)
  case (2 j rd' rest a)
  show ?case
  proof (cases "dget rd' ''state''")
    case None
    then show ?thesis using 2 by auto
  next
    case (Some s')
    then obtain e t where f: "state_entries j s' (dget rd' ''phase_b'') = Some (e, t)"
      using "2.prems"(1) by (cases "state_entries j s' (dget rd' ''phase_b'')") auto
    have "state_loop rest \<lparr>sa_out = dupdate (sa_out a) e, inv1_state = (if j = 1 then Some s' else inv1_state a),
         site_load_active_total = fl (site_load_active_total a + t), site_load_any = True\<rparr> = Some a'"
      using "2.prems"(1) by (simp add: Some f)
    then show ?thesis
      using 2(2) [OF Some f refl] "2.prems"(2,3) Some f by auto
  qed
qed simp

section \<open>Properties\<close>

lemma aggregate_exists:
  assumes "\<forall>rd \<in> set per. readings_ok rd"
  shows "\<exists>out. aggregate_inverters ver per = Some out"
proof -
  have ok: "\<forall>(i, rd) \<in> set (enum1 per). readings_ok rd"
    using assms in_enum1 by fastforce
  obtain a where a: "battery_loop (enum1 per) \<lparr>ba_out = [], socs = [], vs = [], bank_currents = []\<rparr> = Some a"
    using battery_loop_total [OF ok] by blast
  obtain s where s: "state_loop (enum1 per) \<lparr>sa_out = battery_site ver a, inv1_state = None,
      site_load_active_total = 0, site_load_any = False\<rparr> = Some s"
    using state_loop_total [OF ok] by blast
  have "parsed_ok ''state'' b" if "inv1_state s = Some b" for b
    using inv1_state_is [OF s] that assms by (cases per) (auto simp: readings_ok_def)
  then obtain o1 where "state_site s = Some o1"
    using state_site_total [of s] by blast
  then show ?thesis
    by (simp add: aggregate_inverters_def a s)
qed

text \<open>Aggregation never fails on what the parser produces: if every block of every inverter is
  named after a block of the map and carries the fields of that block, as \<open>parse_block\<close> guarantees,
  no subscript of the function can raise \<open>KeyError\<close>, whichever blocks are missing.\<close>

theorem aggregate_total:
  assumes "\<forall>rd \<in> set per. readings_ok rd"
  shows "\<exists>out. aggregate_inverters ver per = Some out"
  by (rule aggregate_exists [OF assms])

theorem aggregate_total_witness:
  "\<exists>b out. parse_block 0x010F \<lparr>mf_slave = 1, mf_func = 3, mf_regs = [3635, 15, 575]\<rparr> = Inr b
     \<and> aggregate_inverters Py312 [[(pb_block_name b, b)], []] = Some out"
proof -
  let ?f = "\<lparr>mf_slave = 1, mf_func = 3, mf_regs = [3635, 15, 575]\<rparr>"
  have r: "reg_range (mf_regs ?f)"
    by (simp add: reg_range_def)
  obtain b where b: "parse_block 0x010F ?f = Inr b"
    using parse_block_exact [OF r, of "0x010F"] by (simp add: BLOCKS_def)
  have "\<forall>rd \<in> set [[(pb_block_name b, b)], []]. readings_ok rd"
    using parse_block_ok [OF b r] by (simp add: readings_ok_def)
  from aggregate_total [OF this] b show ?thesis by blast
qed

text \<open>C9. The sensors of an inverter are a function of that inverter's own blocks: two aggregations in
  which inverter \<open>i\<close> delivered the same blocks agree on every \<open>inverter_<i>_*\<close> sensor, whatever the
  other inverters delivered, however many there are, and whatever the Python version.\<close>

theorem inverter_isolation:
  assumes "aggregate_inverters ver per = Some out" and "aggregate_inverters ver' per' = Some out'"
    and "1 \<le> i" "i \<le> length per" "i \<le> length per'" and "per ! (i - 1) = per' ! (i - 1)"
  shows "dget out (ikey i k) = dget out' (ikey i k)"
  using inverter_lookup [OF assms(1,3,4), of k] inverter_lookup [OF assms(2,3,5), of k] assms(6) by simp

theorem inverter_isolation_witness:
  "\<exists>out out'. aggregate_inverters Py311 [[], []] = Some out \<and> aggregate_inverters Py312 [[]] = Some out'
     \<and> dget out (ikey 1 ''pv_power'') = dget out' (ikey 1 ''pv_power'')"
proof -
  have "\<exists>out. aggregate_inverters v (replicate n []) = Some out" for v n
    by (rule aggregate_total) (simp add: readings_ok_def)
  from this [of Py311 2] this [of Py312 1] obtain out out'
    where o: "aggregate_inverters Py311 [[], []] = Some out" "aggregate_inverters Py312 [[]] = Some out'"
    by (auto simp: numeral_2_eq_2)
  with inverter_isolation [OF o, of 1 "''pv_power''"] show ?thesis by auto
qed



text \<open>The site's mode, grid and bus sensors are inverter 1's: when inverter 1 delivered its state
  block they equal its own sensors, and when it did not they are not published, even if another
  inverter delivered one.\<close>

theorem site_follows_inverter_1:
  assumes "aggregate_inverters ver (rd # rest) = Some out"
  shows "if dget rd ''state'' = None
    then \<forall>k \<in> {''mode'', ''grid_voltage'', ''grid_frequency'', ''grid_power'', ''bus_voltage''}. dget out k = None
    else dget out ''mode'' = dget out (ikey 1 ''device_mode'') \<and> dget out ''mode'' \<noteq> None
      \<and> (\<forall>k \<in> {''grid_voltage'', ''grid_frequency'', ''grid_power'', ''bus_voltage''}.
           dget out k = dget out (ikey 1 k) \<and> dget out k \<noteq> None)"
proof -
  let ?K = "{''grid_voltage'', ''grid_frequency'', ''grid_power'', ''bus_voltage''}"
  let ?xs = "enum1 (rd # rest)"
  have mem: "(1, rd) \<in> set ?xs"
    using enum1_in [of 1 "rd # rest"] by simp
  have kk: "k \<notin> set daily_keys" if "k = ''mode'' \<or> k \<in> ?K" for k
    using that by (auto simp: daily_keys_def)
  from aggregate_Some [OF assms] obtain st where
    st: "state_loop ?xs \<lparr>sa_out = dupdate [] (concat (map battery_assign ?xs)
          @ battery_site_assign ver (blocks_named ''battery'' ?xs)),
        inv1_state = None, site_load_active_total = 0, site_load_any = False\<rparr> = Some st"
    by blast
  have look: "dget out k = dget (rev (state_site_assign st)) k" if k: "k = ''mode'' \<or> k \<in> ?K" for k
  proof -
    have "site_key k"
      using k site_key_simps by auto
    then show ?thesis
    proof (rule site_lookup [OF assms])
      fix st'
      assume "state_loop ?xs \<lparr>sa_out = dupdate [] (concat (map battery_assign ?xs)
          @ battery_site_assign ver (blocks_named ''battery'' ?xs)),
        inv1_state = None, site_load_active_total = 0, site_load_any = False\<rparr> = Some st'"
        and out: "dget out k = dget (dupdate [] (battery_site_assign ver (blocks_named ''battery'' ?xs)
          @ state_site_assign st' @ pv_site_assign ?xs @ cold_site_assign ?xs)) k"
      then have "st' = st"
        using st by simp
      moreover have "dget (rev (cold_site_assign ?xs)) k = None" "dget (rev (pv_site_assign ?xs)) k = None"
        "dget (rev (battery_site_assign ver (blocks_named ''battery'' ?xs))) k = None"
        using k by (intro cold_site_other kk pv_site_other battery_site_other; auto)+
      ultimately show ?thesis
        unfolding out dget_dupdate rev_append map_of_append map_add_def by (simp split: option.split)
    qed
  qed
  have i1: "inv1_state st = dget rd ''state''"
    using inv1_state_is [OF st] by simp
  have any: "dget rd ''state'' \<noteq> None \<Longrightarrow> site_load_any st"
    using state_loop_Some [OF st] mem by (auto simp: has_def)
  have "dget (sa_out st) (ikey 1 ''device_mode'') = dget (rev (state_assign (1, rd))) (ikey 1 ''device_mode'')"
  proof -
    have "dget (rev (concat (map battery_assign ?xs))) (ikey 1 ''device_mode'') = None"
      using concat_ikey [OF keys_of_battery distinct_fst_enum1 mem, of "''device_mode''"]
      by (simp add: battery_assign_def ikey_inj split: option.split)
    moreover have "dget (rev (concat (map state_assign ?xs))) (ikey 1 ''device_mode'') =
        dget (rev (state_assign (1, rd))) (ikey 1 ''device_mode'')"
      by (rule concat_ikey [OF keys_of_state distinct_fst_enum1 mem])
    ultimately show ?thesis
      using state_loop_Some [OF st] site_only_ikey [OF site_only_battery, of _ _ 1 "''device_mode''"]
      by (simp add: dget_dupdate map_add_def split: option.split)
  qed
  note sa = this
  show ?thesis
  proof (cases "dget rd ''state''")
    case None
    then have "dget (rev (state_assign (1, rd))) (ikey 1 ''device_mode'') = None"
      by (simp add: state_assign_def)
    then show ?thesis
      using None look sa by (simp add: state_site_mode state_site_grid i1)
  next
    case (Some s)
    obtain e t where e: "state_entries 1 s (dget rd ''phase_b'') = Some (e, t)"
      using state_loop_entries [OF st mem Some] by blast
    have sassign: "state_assign (1, rd) = e"
      by (simp add: state_assign_def Some e del: One_nat_def)
    have own: "dget out (ikey 1 k) = dget (rev e) (ikey 1 k)"
      if k: "k = ''device_mode'' \<or> k \<in> ?K" and v: "dget (rev e) (ikey 1 k) \<noteq> None" for k
    proof -
      have "k \<notin> set daily_keys \<union> set history_keys \<union> set diag_keys" "k \<noteq> ''fault_bits''" "k \<notin> set pv_keys"
        using k other_keys by (auto simp: pv_keys_def)
      then show ?thesis
        using inverter_lookup [OF assms, of 1 k] v
        by (auto simp: inverter_entries_def dget_dupdate map_add_def cold_assign_other pv_assign_other
            sassign simp del: One_nat_def split: option.split)
    qed
    note l = state_entries_lookup [OF e]
    show ?thesis
      using Some look sa own any l
      by (simp add: state_site_mode state_site_grid i1 sassign del: One_nat_def)
  qed
qed

theorem site_follows_inverter_1_witness:
  "\<exists>out. aggregate_inverters Py312 ([] # [[]]) = Some out \<and> dget out ''mode'' = None"
proof -
  obtain out where out: "aggregate_inverters Py312 ([] # [[]]) = Some out"
    using aggregate_total [of "[] # [[]]" Py312] by (auto simp: readings_ok_def)
  with site_follows_inverter_1 [OF out] show ?thesis by simp
qed

text \<open>The PV sensors of an inverter are published in every cycle, also when none of its PV registers
  was read: an inverter that returned neither its battery block nor its PV2 block is reported with
  all eight PV readings zero. The daemon's cold cycle never reads those blocks.\<close>

theorem pv_published_without_reading:
  assumes "aggregate_inverters ver per = Some out" and "1 \<le> i" "i \<le> length per"
    and "dget (per ! (i - 1)) ''battery'' = None" and "dget (per ! (i - 1)) ''pv2'' = None"
  shows "\<forall>k \<in> set pv_keys. dget out (ikey i k) = Some (Num 0)"
proof
  fix k
  assume k: "k \<in> set pv_keys"
  then have "dget (rev (cold_assign (i, per ! (i - 1)))) (ikey i k) = None"
    using pv_not_cold [OF k] by (intro cold_assign_other) simp_all
  moreover have "dget (rev (pv_assign (i, per ! (i - 1)))) (ikey i k) = Some (Num 0)"
    using k unfolding pv_keys_def list.set insert_iff empty_iff
    by (elim disjE) (simp_all add: pv_assign_def pv_entries_def Let_def assms(4,5) opt_field_def
        pv2_power_of_def ikey_inj del: One_nat_def)
  ultimately show "dget out (ikey i k) = Some (Num 0)"
    unfolding inverter_lookup [OF assms(1-3)] inverter_entries_def
    by (simp add: dget_dupdate map_add_def)
qed

theorem pv_published_without_reading_witness:
  "\<exists>out. aggregate_inverters Py312 [[], []] = Some out \<and> dget out (ikey 2 ''pv_power'') = Some (Num 0)"
proof -
  obtain out where out: "aggregate_inverters Py312 [[], []] = Some out"
    using aggregate_total [of "[[], []]" Py312] by (auto simp: readings_ok_def)
  with pv_published_without_reading [OF out, of 2] show ?thesis
    by (simp add: pv_keys_def numeral_2_eq_2)
qed


end
