(* ===== verification/Mqtt_Publisher.thy ===== *)
theory Mqtt_Publisher
  imports Inv_Aggregator Py_Value
begin

text \<open>
  \<open>mqtt_publisher.py\<close>: topics, unique ids and discovery payloads, and the publisher's life cycle.
  The paho client is third-party code: an operation of the publisher is the list of calls it makes
  on the client, in order. What the broker then holds is the standard meaning of retained messages
  (the last retained payload of each topic). A published value is the text Python makes of a
  float or string, left symbolic (\<open>StrOf\<close>); a JSON payload is the value that is dumped.
\<close>

section \<open>Tables\<close>

text \<open>Unit, device class, state class.\<close>

type_synonym sensor_meta = "string \<times> string option \<times> string option"

definition AGGREGATE_SENSORS :: "(string, sensor_meta) dict" where
  "AGGREGATE_SENSORS =
     [(''battery_state_of_charge'', (''%'', Some ''battery'', Some ''measurement'')),
      (''battery_voltage'', (''V'', Some ''voltage'', Some ''measurement'')),
      (''battery_power'', (''W'', Some ''power'', Some ''measurement'')),
      (''bus_voltage'', (''V'', Some ''voltage'', Some ''measurement'')),
      (''load_power'', (''W'', Some ''power'', Some ''measurement'')),
      (''pv_power'', (''W'', Some ''power'', Some ''measurement'')),
      (''grid_power'', (''W'', Some ''power'', Some ''measurement'')),
      (''grid_voltage'', (''V'', Some ''voltage'', Some ''measurement'')),
      (''grid_frequency'', (''Hz'', Some ''frequency'', Some ''measurement'')),
      (''mode'', ('''', None, None)),
      (''pv_energy_today'', (''kWh'', Some ''energy'', Some ''total_increasing'')),
      (''load_energy_today'', (''kWh'', Some ''energy'', Some ''total_increasing'')),
      (''battery_charge_ah_today'', (''Ah'', None, Some ''total_increasing'')),
      (''battery_discharge_ah_today'', (''Ah'', None, Some ''total_increasing''))]"

definition PER_INVERTER_SENSORS :: "(string, sensor_meta) dict" where
  "PER_INVERTER_SENSORS =
     [(''battery_current'', (''A'', Some ''current'', Some ''measurement'')),
      (''battery_voltage'', (''V'', Some ''voltage'', Some ''measurement'')),
      (''bus_voltage'', (''V'', Some ''voltage'', Some ''measurement'')),
      (''load_power'', (''W'', Some ''power'', Some ''measurement'')),
      (''load_power_l1'', (''W'', Some ''power'', Some ''measurement'')),
      (''load_power_l2'', (''W'', Some ''power'', Some ''measurement'')),
      (''load_apparent_power'', (''VA'', Some ''apparent_power'', Some ''measurement'')),
      (''load_apparent_power_l1'', (''VA'', Some ''apparent_power'', Some ''measurement'')),
      (''load_apparent_power_l2'', (''VA'', Some ''apparent_power'', Some ''measurement'')),
      (''load_percentage'', (''%'', None, Some ''measurement'')),
      (''ac_output_voltage'', (''V'', Some ''voltage'', Some ''measurement'')),
      (''ac_output_frequency'', (''Hz'', Some ''frequency'', Some ''measurement'')),
      (''grid_voltage'', (''V'', Some ''voltage'', Some ''measurement'')),
      (''grid_power'', (''W'', Some ''power'', Some ''measurement'')),
      (''grid_frequency'', (''Hz'', Some ''frequency'', Some ''measurement'')),
      (''temperature'', ([CHR 0xB0, CHR ''C''], Some ''temperature'', Some ''measurement'')),
      (''temperature_dc_dc'', ([CHR 0xB0, CHR ''C''], Some ''temperature'', Some ''measurement'')),
      (''temperature_dc_ac'', ([CHR 0xB0, CHR ''C''], Some ''temperature'', Some ''measurement'')),
      (''temperature_transformer'', ([CHR 0xB0, CHR ''C''], Some ''temperature'', Some ''measurement'')),
      (''pv_voltage_mppt1'', (''V'', Some ''voltage'', Some ''measurement'')),
      (''pv_voltage_mppt2'', (''V'', Some ''voltage'', Some ''measurement'')),
      (''pv_current'', (''A'', Some ''current'', Some ''measurement'')),
      (''pv_current_mppt1'', (''A'', Some ''current'', Some ''measurement'')),
      (''pv_current_mppt2'', (''A'', Some ''current'', Some ''measurement'')),
      (''pv_power'', (''W'', Some ''power'', Some ''measurement'')),
      (''pv_power_mppt1'', (''W'', Some ''power'', Some ''measurement'')),
      (''pv_power_mppt2'', (''W'', Some ''power'', Some ''measurement'')),
      (''device_mode'', ('''', None, None)),
      (''charge_state'', ('''', None, None)),
      (''pv_energy_today'', (''kWh'', Some ''energy'', Some ''total_increasing'')),
      (''load_energy_today'', (''kWh'', Some ''energy'', Some ''total_increasing'')),
      (''battery_charge_ah_today'', (''Ah'', None, Some ''total_increasing'')),
      (''battery_discharge_ah_today'', (''Ah'', None, Some ''total_increasing'')),
      (''pv_energy_yesterday'', (''kWh'', Some ''energy'', Some ''measurement'')),
      (''pv_energy_2_days_ago'', (''kWh'', Some ''energy'', Some ''measurement'')),
      (''pv_energy_3_days_ago'', (''kWh'', Some ''energy'', Some ''measurement'')),
      (''pv_energy_4_days_ago'', (''kWh'', Some ''energy'', Some ''measurement'')),
      (''pv_energy_5_days_ago'', (''kWh'', Some ''energy'', Some ''measurement'')),
      (''pv_energy_6_days_ago'', (''kWh'', Some ''energy'', Some ''measurement'')),
      (''pv_energy_7_days_ago'', (''kWh'', Some ''energy'', Some ''measurement'')),
      (''firmware_version'', ('''', None, None)),
      (''hardware_version'', ('''', None, None)),
      (''status'', ('''', None, None)),
      (''fault_bits'', ('''', None, None))]"

definition ENERGY_SENSORS :: "(string, sensor_meta) dict" where
  "ENERGY_SENSORS =
     [(''battery_energy_in'', (''kWh'', Some ''energy'', Some ''total_increasing'')),
      (''battery_energy_out'', (''kWh'', Some ''energy'', Some ''total_increasing'')),
      (''pv_energy'', (''kWh'', Some ''energy'', Some ''total_increasing'')),
      (''load_energy'', (''kWh'', Some ''energy'', Some ''total_increasing'')),
      (''grid_energy_in'', (''kWh'', Some ''energy'', Some ''total_increasing'')),
      (''grid_energy_out'', (''kWh'', Some ''energy'', Some ''total_increasing''))]"

definition META_SENSORS :: "(string, sensor_meta) dict" where
  "META_SENSORS =
     [(''_meta/poll_duration_ms'', (''ms'', None, Some ''measurement'')),
      (''_meta/poll_duration_per_inverter_ms'', ('''', None, None)),
      (''_meta/crc_fails_total'', ('''', None, Some ''total_increasing'')),
      (''_meta/uptime_s'', (''s'', Some ''duration'', Some ''total_increasing''))]"

definition FORCE_UPDATE_KEY_SUFFIXES :: "string list" where
  "FORCE_UPDATE_KEY_SUFFIXES =
     [''battery_state_of_charge'',
      ''mode'',
      ''device_mode'',
      ''charge_state'',
      ''load_percentage'',
      ''inverter_state_code'',
      ''grid_voltage'',
      ''grid_frequency'',
      ''grid_power'',
      ''grid_energy_in'',
      ''grid_energy_out'',
      ''battery_energy_in'',
      ''battery_energy_out'',
      ''pv_energy'',
      ''load_energy'']"

section \<open>Names\<close>

definition device_block :: pyval where
  "device_block = PyDict
     [(''identifiers'', PyList [PyStr ''sa_inverter'']),
      (''name'', PyStr ''SRNE Split-phase x 2''),
      (''manufacturer'', PyStr ''SRNE''),
      (''model'', PyStr ''SRNE Split-phase'')]"

text \<open>\<open>key[len("inverter_"):].split("_", 1)\<close>, when there is an underscore.\<close>

definition split_once :: "string \<Rightarrow> string \<times> string" where
  "split_once s = (takeWhile (\<lambda>c. c \<noteq> CHR ''_'') s, drop 1 (dropWhile (\<lambda>c. c \<noteq> CHR ''_'') s))"

definition key_to_topic_path :: "string \<Rightarrow> string" where
  "key_to_topic_path key =
     (if starts_with ''_meta/'' key then key
      else if starts_with ''inverter_'' key \<and> CHR ''_'' \<in> set (drop 9 key) then
        let (n, rest) = split_once (drop 9 key) in ''inverter_'' @ n @ ''/'' @ rest
      else ''total/'' @ key)"

definition key_to_unique_id :: "string \<Rightarrow> string" where
  "key_to_unique_id key =
     (if starts_with ''_meta/'' key then ''meta_'' @ drop 6 key
      else if starts_with ''inverter_'' key then key
      else ''total_'' @ key)"

definition needs_force_update :: "string \<Rightarrow> bool" where
  "needs_force_update key =
     (if starts_with ''_meta/'' key then True
      else list_ex (\<lambda>suffix. key = suffix \<or> ends_with (''_'' @ suffix) key) FORCE_UPDATE_KEY_SUFFIXES)"

text \<open>\<open>key.replace("_", " ").capitalize()\<close>, on ASCII.\<close>

definition spaced :: "string \<Rightarrow> string" where
  "spaced s = map (\<lambda>c. if c = CHR ''_'' then CHR '' '' else c) s"

fun capitalize :: "string \<Rightarrow> string" where
  "capitalize [] = []"
| "capitalize (c # cs) = to_upper c # map to_lower cs"

section \<open>Configuration and calls\<close>

record mqtt_cfg =
  host :: string
  username :: string
  password :: string
  port :: int
  client_id :: string
  topic_prefix :: string
  discovery_prefix :: string
  retain_discovery :: bool
  qos :: int

datatype payload = Text string | StrOf pyval | Json pyval

record message =
  topic :: string
  content :: payload
  msg_qos :: int
  retain :: bool

datatype paho_call =
    UsernamePwSet string string
  | WillSet message
  | SetOnConnect
  | SetOnDisconnect
  | ConnectTo string int
  | LoopStart
  | LoopStop
  | DisconnectCall
  | Publish message

record publisher =
  pub_cfg :: mqtt_cfg
  n_inverters :: nat
  connected :: bool

definition publisher_init :: "mqtt_cfg \<Rightarrow> nat \<Rightarrow> publisher" where
  "publisher_init cfg n = \<lparr>pub_cfg = cfg, n_inverters = n, connected = False\<rparr>"

definition availability_topic :: "mqtt_cfg \<Rightarrow> string" where
  "availability_topic cfg = topic_prefix cfg @ ''/availability''"

definition availability_msg :: "mqtt_cfg \<Rightarrow> string \<Rightarrow> message" where
  "availability_msg cfg s =
     \<lparr>topic = availability_topic cfg, content = Text s, msg_qos = qos cfg, retain = True\<rparr>"

definition state_topic :: "mqtt_cfg \<Rightarrow> string \<Rightarrow> string" where
  "state_topic cfg key = topic_prefix cfg @ ''/'' @ key_to_topic_path key @ ''/state''"

definition config_topic :: "mqtt_cfg \<Rightarrow> string \<Rightarrow> string" where
  "config_topic cfg key = discovery_prefix cfg @ ''/sensor/'' @ key_to_unique_id key @ ''/config''"

section \<open>Publishing\<close>

definition set_online :: "mqtt_cfg \<Rightarrow> paho_call list" where
  "set_online cfg = [Publish (availability_msg cfg ''online'')]"

definition publish_value :: "mqtt_cfg \<Rightarrow> string \<Rightarrow> pyval \<Rightarrow> paho_call list" where
  "publish_value cfg key v =
     [Publish \<lparr>topic = state_topic cfg key, content = StrOf v, msg_qos = qos cfg, retain = False\<rparr>]"

definition publish_values :: "mqtt_cfg \<Rightarrow> (string, pyval) dict \<Rightarrow> paho_call list" where
  "publish_values cfg kv = concat (map (\<lambda>(k, v). publish_value cfg k v) kv)"

text \<open>\<open>if s: payload[k] = s\<close>.\<close>

definition opt_entry :: "string \<Rightarrow> string option \<Rightarrow> (string \<times> pyval) list" where
  "opt_entry k v = (case v of None \<Rightarrow> [] | Some s \<Rightarrow> if s = [] then [] else [(k, PyStr s)])"

definition discovery_payload :: "mqtt_cfg \<Rightarrow> string \<Rightarrow> sensor_meta \<Rightarrow> string \<Rightarrow> bool option \<Rightarrow> pyval" where
  "discovery_payload cfg key meta display_name force =
     (let (unit, device_class, state_class) = meta; unique = key_to_unique_id key in
      PyDict
        ([(''name'', PyStr display_name),
          (''unique_id'', PyStr unique),
          (''object_id'', PyStr unique),
          (''state_topic'', PyStr (state_topic cfg key)),
          (''availability_topic'', PyStr (availability_topic cfg)),
          (''device'', device_block)]
         @ opt_entry ''unit_of_measurement'' (Some unit)
         @ opt_entry ''device_class'' device_class
         @ opt_entry ''state_class'' state_class
         @ (if (case force of None \<Rightarrow> needs_force_update key | Some b \<Rightarrow> b)
            then [(''force_update'', PyBool True)] else [])))"

definition publish_discovery_one :: "mqtt_cfg \<Rightarrow> string \<Rightarrow> sensor_meta \<Rightarrow> string \<Rightarrow> paho_call list" where
  "publish_discovery_one cfg key meta display_name =
     [Publish \<lparr>topic = config_topic cfg key,
        content = Json (discovery_payload cfg key meta display_name None),
        msg_qos = qos cfg, retain = retain_discovery cfg\<rparr>]"

definition publish_binary_sensor_discovery :: "mqtt_cfg \<Rightarrow> paho_call list" where
  "publish_binary_sensor_discovery cfg =
     (let unique = ''inverter_bridge_online'' in
      [Publish \<lparr>topic = discovery_prefix cfg @ ''/binary_sensor/'' @ unique @ ''/config'',
         content = Json (PyDict
           [(''name'', PyStr ''Inverter bridge online''),
            (''unique_id'', PyStr unique),
            (''object_id'', PyStr unique),
            (''state_topic'', PyStr (availability_topic cfg)),
            (''payload_on'', PyStr ''online''),
            (''payload_off'', PyStr ''offline''),
            (''device_class'', PyStr ''connectivity''),
            (''availability_topic'', PyStr (availability_topic cfg)),
            (''device'', device_block)]),
         msg_qos = qos cfg, retain = retain_discovery cfg\<rparr>])"

definition publish_discovery :: "publisher \<Rightarrow> paho_call list" where
  "publish_discovery p =
     (let cfg = pub_cfg p in
      concat (map (\<lambda>(key, meta). publish_discovery_one cfg key meta (capitalize (spaced key))) AGGREGATE_SENSORS)
      @ concat (map (\<lambda>(key, meta). publish_discovery_one cfg key meta (capitalize (spaced key))) ENERGY_SENSORS)
      @ concat (map (\<lambda>i. concat (map (\<lambda>(sub_key, meta).
           publish_discovery_one cfg (ikey i sub_key) meta
             (''Inverter '' @ show_nat i @ '' - '' @ capitalize (spaced sub_key)))
           PER_INVERTER_SENSORS)) [1..<Suc (n_inverters p)])
      @ concat (map (\<lambda>(key, meta).
           publish_discovery_one cfg key meta (''Meta '' @ spaced (drop 6 key))) META_SENSORS)
      @ publish_binary_sensor_discovery cfg)"

section \<open>Life cycle\<close>

definition mqtt_connect :: "publisher \<Rightarrow> paho_call list \<times> publisher" where
  "mqtt_connect p =
     (let cfg = pub_cfg p in
      ([UsernamePwSet (username cfg) (password cfg),
        WillSet (availability_msg cfg ''offline''),
        SetOnConnect, SetOnDisconnect,
        ConnectTo (host cfg) (port cfg), LoopStart],
       p\<lparr>connected := True\<rparr>))"

definition handle_connect :: "publisher \<Rightarrow> int \<Rightarrow> paho_call list" where
  "handle_connect p rc = (if rc \<noteq> 0 then [] else publish_discovery p @ set_online (pub_cfg p))"

text \<open>The two clean-up calls are in a \<open>finally\<close> block: they are made whether or not \<open>publish\<close>
  raises.\<close>

definition mqtt_disconnect :: "publisher \<Rightarrow> paho_call list \<times> publisher" where
  "mqtt_disconnect p =
     (if \<not> connected p then ([], p)
      else ([Publish (availability_msg (pub_cfg p) ''offline''), LoopStop, DisconnectCall],
            p\<lparr>connected := False\<rparr>))"

section \<open>What the broker retains\<close>

definition retain_call :: "paho_call \<Rightarrow> (string \<rightharpoonup> payload) \<Rightarrow> (string \<rightharpoonup> payload)" where
  "retain_call c store =
     (case c of Publish m \<Rightarrow> if retain m then store(topic m \<mapsto> content m) else store | _ \<Rightarrow> store)"

definition retained :: "paho_call list \<Rightarrow> (string \<rightharpoonup> payload) \<Rightarrow> (string \<rightharpoonup> payload)" where
  "retained cs store = fold retain_call cs store"

text \<open>The keys announced to Home Assistant.\<close>

definition announced_keys :: "nat \<Rightarrow> string list" where
  "announced_keys n =
     map fst AGGREGATE_SENSORS @ map fst ENERGY_SENSORS
     @ concat (map (\<lambda>i. map (\<lambda>(k, _). ikey i k) PER_INVERTER_SENSORS) [1..<Suc n])
     @ map fst META_SENSORS"

fun published :: "paho_call list \<Rightarrow> message list" where
  "published [] = []"
| "published (Publish m # cs) = m # published cs"
| "published (_ # cs) = published cs"

section \<open>Names\<close>

lemma unique_id_cases:
  obtains (meta) r where "key = ''_meta/'' @ r" "key_to_unique_id key = ''meta_'' @ r"
  | (inverter) r where "key = ''inverter_'' @ r" "key_to_unique_id key = ''inverter_'' @ r"
  | (site) "key_to_unique_id key = ''total_'' @ key"
proof -
  have m: "starts_with ''_meta/'' key \<Longrightarrow> \<exists>r. key = ''_meta/'' @ r"
    and i: "starts_with ''inverter_'' key \<Longrightarrow> \<exists>r. key = ''inverter_'' @ r"
    by (simp_all only: starts_with_iff)
  show thesis
    using m i that by (cases "starts_with ''_meta/'' key"; cases "starts_with ''inverter_'' key")
      (auto simp: key_to_unique_id_def)
qed

lemma key_to_unique_id_inj: "key_to_unique_id k = key_to_unique_id k' \<longleftrightarrow> k = k'"
proof
  assume "key_to_unique_id k = key_to_unique_id k'"
  then show "k = k'"
    by (cases k rule: unique_id_cases; cases k' rule: unique_id_cases) simp_all
qed simp

lemma topic_path_ikey: "key_to_topic_path (ikey i k) = ''inverter_'' @ show_nat i @ ''/'' @ k"
proof -
  have d: "\<forall>c \<in> set (show_nat i). c \<noteq> CHR ''_''"
    using show_nat_digits not_digit_underscore by blast
  have "takeWhile (\<lambda>c. c \<noteq> CHR ''_'') (show_nat i @ CHR ''_'' # k) = show_nat i"
    using d by (simp add: takeWhile_append2)
  moreover have "dropWhile (\<lambda>c. c \<noteq> CHR ''_'') (show_nat i @ CHR ''_'' # k) = CHR ''_'' # k"
    using d by (simp add: dropWhile_append2)
  ultimately show ?thesis
    by (simp add: key_to_topic_path_def ikey_def starts_with_def split_once_def)
qed

lemma topic_path_site: "site_key k \<Longrightarrow> \<not> starts_with ''_meta/'' k \<Longrightarrow> key_to_topic_path k = ''total/'' @ k"
  by (simp add: key_to_topic_path_def site_key_def)

lemma topic_path_meta: "starts_with ''_meta/'' k \<Longrightarrow> key_to_topic_path k = k"
  by (simp add: key_to_topic_path_def)

lemma site_tables: "\<forall>k \<in> fst ` set (AGGREGATE_SENSORS @ ENERGY_SENSORS). site_key k \<and> \<not> starts_with ''_meta/'' k"
  by (simp add: AGGREGATE_SENSORS_def ENERGY_SENSORS_def site_key_def starts_with_def)

lemma meta_table: "\<forall>k \<in> fst ` set META_SENSORS. site_key k \<and> starts_with ''_meta/'' k"
  by (simp add: META_SENSORS_def site_key_def starts_with_def)

lemma distinct_site_tables: "distinct (map fst AGGREGATE_SENSORS @ map fst ENERGY_SENSORS)"
  by (simp add: AGGREGATE_SENSORS_def ENERGY_SENSORS_def)

lemma distinct_meta: "distinct (map fst META_SENSORS)"
  by (simp add: META_SENSORS_def)

lemma distinct_per_inverter: "distinct (map fst PER_INVERTER_SENSORS)"
  by (simp add: PER_INVERTER_SENSORS_def)

definition inverter_keys :: "nat list \<Rightarrow> string list" where
  "inverter_keys is = concat (map (\<lambda>i. map (\<lambda>(k, _). ikey i k) PER_INVERTER_SENSORS) is)"

lemma inverter_keys_mem: "x \<in> set (inverter_keys is) \<longleftrightarrow> (\<exists>i \<in> set is. \<exists>k \<in> fst ` set PER_INVERTER_SENSORS. x = ikey i k)"
  by (force simp: inverter_keys_def)

lemma distinct_inverter_keys: "distinct is \<Longrightarrow> distinct (inverter_keys is)"
proof (induction "is")
  case (Cons i "is")
  have "distinct (map (\<lambda>(k, _). ikey i k) PER_INVERTER_SENSORS)"
    using distinct_per_inverter by (force simp: distinct_map inj_on_def ikey_inj)
  moreover have "set (map (\<lambda>(k, _). ikey i k) PER_INVERTER_SENSORS) \<inter> set (inverter_keys is) = {}"
    using Cons.prems by (auto simp: inverter_keys_mem ikey_inj)
  moreover have "inverter_keys (i # is) = map (\<lambda>(k, _). ikey i k) PER_INVERTER_SENSORS @ inverter_keys is"
    by (simp add: inverter_keys_def)
  ultimately show ?case
    using Cons by (simp only: distinct_append) simp
qed (simp add: inverter_keys_def)

lemma announced_keys_eq: "announced_keys n =
    (map fst AGGREGATE_SENSORS @ map fst ENERGY_SENSORS) @ inverter_keys [1..<Suc n] @ map fst META_SENSORS"
  by (simp add: announced_keys_def inverter_keys_def)

lemma distinct_announced: "distinct (announced_keys n)"
proof -
  have inv: "\<not> site_key k" if "k \<in> set (inverter_keys is)" for k "is"
    using that site_key_not_ikey by (auto simp: inverter_keys_mem)
  have site: "site_key k \<and> \<not> starts_with ''_meta/'' k" if "k \<in> set (map fst AGGREGATE_SENSORS) \<union> set (map fst ENERGY_SENSORS)" for k
    using that site_tables by (simp add: image_Un)
  have meta: "site_key k \<and> starts_with ''_meta/'' k" if "k \<in> set (map fst META_SENSORS)" for k
    using that meta_table by auto
  have apart: "set (inverter_keys is) \<inter> set (map fst META_SENSORS) = {}"
    "set (map fst AGGREGATE_SENSORS @ map fst ENERGY_SENSORS) \<inter> set (inverter_keys is @ map fst META_SENSORS) = {}"
    for "is"
    using inv [of _ "is"] site meta unfolding set_append by blast+
  show ?thesis
    unfolding announced_keys_eq
    by (intro distinct_append [THEN iffD2] conjI distinct_site_tables distinct_meta distinct_inverter_keys
        distinct_upt apart)
qed

lemma announced_path_inj:
  assumes "k \<in> set (announced_keys n)" and "k' \<in> set (announced_keys n)"
    and "key_to_topic_path k = key_to_topic_path k'"
  shows "k = k'"
proof -
  have c: "(\<exists>i s. x = ikey i s) \<or> site_key x \<and> starts_with ''_meta/'' x \<or> site_key x \<and> \<not> starts_with ''_meta/'' x"
    if "x \<in> set (announced_keys n)" for x
    using that site_tables meta_table unfolding announced_keys_eq by (auto simp: inverter_keys_mem simp del: upt_Suc)
  have sl: "\<not> is_digit (CHR ''/'')"
    by (simp add: is_digit_def)
  from c [OF assms(1)] c [OF assms(2)] assms(3) show ?thesis
    by (elim disjE exE conjE)
      (auto simp: topic_path_ikey topic_path_site topic_path_meta starts_with_iff show_nat_sep_inj [OF sl])
qed

lemma config_topic_inj: "config_topic cfg k = config_topic cfg k' \<longleftrightarrow> k = k'"
  by (simp add: config_topic_def key_to_unique_id_inj)


section \<open>Discovery\<close>

text \<open>The announcement of a key, as a message.\<close>

lemma published_append [simp]: "published (a @ b) = published a @ published b"
  by (induction a rule: published.induct) simp_all

lemma published_concat: "published (concat css) = concat (map published css)"
  by (induction css) simp_all

lemma topics_map:
  "map topic (published (concat (map (\<lambda>(k, meta). publish_discovery_one cfg (f k) meta (g k)) kvs)))
     = map (\<lambda>(k, _). config_topic cfg (f k)) kvs"
  by (induction kvs) (auto simp: publish_discovery_one_def)

lemma topics_inverters:
  "map topic (published (concat (map (\<lambda>i. concat (map (\<lambda>(k, meta).
       publish_discovery_one cfg (ikey i k) meta (g i k)) PER_INVERTER_SENSORS)) is)))
     = map (config_topic cfg) (inverter_keys is)"
  by (induction "is") (auto simp: inverter_keys_def topics_map)

definition online_config :: "mqtt_cfg \<Rightarrow> string" where
  "online_config cfg = discovery_prefix cfg @ ''/binary_sensor/inverter_bridge_online/config''"

lemma discovery_topics: "map topic (published (publish_discovery p)) =
    map (config_topic (pub_cfg p)) (announced_keys (n_inverters p)) @ [online_config (pub_cfg p)]"
  unfolding publish_discovery_def Let_def published_append map_append announced_keys_eq
    topics_inverters topics_map topics_map [of _ "\<lambda>k. k", simplified]
  by (simp add: publish_binary_sensor_discovery_def Let_def online_config_def comp_def split_beta)

lemma online_config_fresh: "config_topic cfg k \<noteq> online_config cfg"
  by (simp add: config_topic_def online_config_def)

lemma distinct_discovery_topics: "distinct (map topic (published (publish_discovery p)))"
  unfolding discovery_topics using distinct_announced online_config_fresh
  by (auto simp: distinct_map inj_on_def config_topic_inj dest: sym)

lemma availability_fresh: "m \<in> set (published (publish_discovery p)) \<Longrightarrow> topic m \<noteq> availability_topic (pub_cfg p)"
proof -
  assume "m \<in> set (published (publish_discovery p))"
  then have "topic m \<in> set (map topic (published (publish_discovery p)))"
    by simp
  then have "last (topic m) = CHR ''g''"
    unfolding discovery_topics by (auto simp: config_topic_def online_config_def)
  moreover have "last (availability_topic cfg) = CHR ''y''" for cfg
    by (simp add: availability_topic_def)
  ultimately show ?thesis by fastforce
qed

lemma discovery_retain: "m \<in> set (published (publish_discovery p)) \<Longrightarrow> retain m = retain_discovery (pub_cfg p)"
  unfolding publish_discovery_def Let_def
  by (auto simp: published_concat publish_discovery_one_def publish_binary_sensor_discovery_def Let_def)

lemma retained_published: "retained cs store =
    fold (\<lambda>m st. if retain m then st(topic m \<mapsto> content m) else st) (published cs) store"
  unfolding retained_def
  by (induction cs arbitrary: store rule: published.induct) (simp_all add: retain_call_def)

lemma fold_retain:
  assumes "\<forall>m \<in> set ms. retain m" and "distinct (map topic ms)"
  shows "m \<in> set ms \<Longrightarrow> fold (\<lambda>m st. if retain m then st(topic m \<mapsto> content m) else st) ms store (topic m) = Some (content m)"
    and "t \<notin> topic ` set ms \<Longrightarrow> fold (\<lambda>m st. if retain m then st(topic m \<mapsto> content m) else st) ms store t = store t"
proof -
  let ?f = "\<lambda>m st. if retain m then st(topic m \<mapsto> content m) else (st :: string \<rightharpoonup> payload)"
  have o: "t \<notin> topic ` set ms \<Longrightarrow> fold ?f ms store t = store t" for t ms store
    by (induction ms arbitrary: store) auto
  show "t \<notin> topic ` set ms \<Longrightarrow> fold ?f ms store t = store t"
    by (rule o)
  show "m \<in> set ms \<Longrightarrow> fold ?f ms store (topic m) = Some (content m)"
    using assms
  proof (induction ms arbitrary: store)
    case (Cons x xs)
    then show ?case
      by (auto simp: o)
  qed simp
qed

section \<open>Properties\<close>


text \<open>C35. Every (re)connection repairs the broker's retained state: whatever was retained before, after
  \<open>on_connect\<close> with result code 0 the availability topic says online and every config topic holds its
  discovery payload, and nothing else changed; a refused connection changes nothing.\<close>

theorem reconnect_restores:
  assumes "retain_discovery (pub_cfg p)"
  shows "retained (handle_connect p 0) store (availability_topic (pub_cfg p)) = Some (Text ''online'')
    \<and> (\<forall>m \<in> set (published (publish_discovery p)).
         retained (handle_connect p 0) store (topic m) = Some (content m))
    \<and> (\<forall>t. t \<noteq> availability_topic (pub_cfg p) \<and> t \<notin> topic ` set (published (publish_discovery p))
         \<longrightarrow> retained (handle_connect p 0) store t = store t)
    \<and> (rc \<noteq> 0 \<longrightarrow> retained (handle_connect p rc) store = store)"
proof -
  let ?ms = "published (publish_discovery p)"
  have r: "\<forall>m \<in> set ?ms. retain m"
    using discovery_retain assms by blast
  have "retained (handle_connect p 0) store = (\<lambda>t. if t = availability_topic (pub_cfg p) then Some (Text ''online'')
      else fold (\<lambda>m st. if retain m then st(topic m \<mapsto> content m) else st) ?ms store t)"
    by (rule ext) (simp add: retained_published handle_connect_def set_online_def availability_msg_def)
  moreover have "handle_connect p rc = []" if "rc \<noteq> 0"
    using that by (simp add: handle_connect_def)
  ultimately show ?thesis
    using fold_retain [OF r distinct_discovery_topics] availability_fresh
    by (auto simp: retained_def)
qed

theorem reconnect_restores_witness:
  "\<exists>p store. n_inverters p = 2 \<and> store ''solar_bridge/availability'' = Some (Text ''offline'')
     \<and> retained (handle_connect p 0) store ''solar_bridge/availability'' = Some (Text ''online'')
     \<and> retained (handle_connect p 5) store ''solar_bridge/availability'' = Some (Text ''offline'')"
proof -
  let ?cfg = "\<lparr>host = ''broker'', username = ''u'', password = ''p'', port = 1883, client_id = ''c'',
    topic_prefix = ''solar_bridge'', discovery_prefix = ''homeassistant'', retain_discovery = True, qos = 1\<rparr>"
  let ?p = "publisher_init ?cfg 2"
  let ?store = "Map.empty(''solar_bridge/availability'' \<mapsto> Text ''offline'') :: string \<rightharpoonup> payload"
  have r: "retain_discovery (pub_cfg ?p)" and n: "n_inverters ?p = 2"
    and a: "availability_topic (pub_cfg ?p) = ''solar_bridge/availability''"
    by (simp_all add: publisher_init_def availability_topic_def)
  show ?thesis
    using reconnect_restores [OF r, where store = ?store and rc = 5] n unfolding a
    by (intro exI [of _ ?p] exI [of _ ?store]) simp
qed

text \<open>Life cycle: the last will (availability offline, retained) is registered before the client
  connects; a disconnect leaves availability offline retained, stops the client and is made at most
  once, later ones make no call.\<close>

theorem mqtt_lifecycle:
  "let (calls, p1) = mqtt_connect p; (bye, p2) = mqtt_disconnect p1 in
     calls = [UsernamePwSet (username (pub_cfg p)) (password (pub_cfg p)),
       WillSet (availability_msg (pub_cfg p) ''offline''), SetOnConnect, SetOnDisconnect,
       ConnectTo (host (pub_cfg p)) (port (pub_cfg p)), LoopStart]
     \<and> retained (calls @ handle_connect p1 0 @ bye) store (availability_topic (pub_cfg p)) = Some (Text ''offline'')
     \<and> last bye = DisconnectCall \<and> mqtt_disconnect p2 = ([], p2)"
  by (simp add: mqtt_connect_def mqtt_disconnect_def Let_def retained_def retain_call_def availability_msg_def)

end
