(* ===== verification/Py_Parse.thy ===== *)
theory Py_Parse
  imports Py_Value
begin

text \<open>
  The conversions of text to numbers that the program takes from Python: \<open>int(s)\<close>, \<open>int(s, 0)\<close> and
  \<open>float(s)\<close>, with the blanks, signs, underscores and prefixes they accept, for text in the first
  256 code points; \<open>None\<close> is \<open>ValueError\<close>. The lemmas give the round trip of decimal text.
\<close>

definition is_space :: "char \<Rightarrow> bool" where
  "is_space c \<longleftrightarrow> (of_char c :: nat) \<in> {9, 10, 11, 12, 13, 28, 29, 30, 31, 32, 133, 160}"

definition strip :: "string \<Rightarrow> string" where
  "strip s = rev (dropWhile is_space (rev (dropWhile is_space s)))"

text \<open>Digits with single underscores between them; \<open>prev\<close>: the character before was a digit.\<close>

fun us_digits :: "(char \<Rightarrow> bool) \<Rightarrow> bool \<Rightarrow> string \<Rightarrow> string option" where
  "us_digits d prev [] = (if prev then Some [] else None)"
| "us_digits d prev (c # cs) =
     (if d c then map_option (Cons c) (us_digits d True cs)
      else if c = CHR ''_'' \<and> prev then us_digits d False cs
      else None)"

definition hex_val :: "char \<Rightarrow> nat" where
  "hex_val c = (let n = of_char (to_lower c) in if is_digit c then n - 48 else n - 87)"

definition is_base_digit :: "nat \<Rightarrow> char \<Rightarrow> bool" where
  "is_base_digit b c \<longleftrightarrow>
     (is_digit c \<or> 97 \<le> (of_char (to_lower c) :: nat) \<and> (of_char (to_lower c) :: nat) \<le> 102) \<and> hex_val c < b"

definition nat_of_base :: "nat \<Rightarrow> string \<Rightarrow> nat" where
  "nat_of_base b = foldl (\<lambda>n c. b * n + hex_val c) 0"

text \<open>The sign of a stripped text.\<close>

fun split_sign :: "string \<Rightarrow> bool \<times> string" where
  "split_sign (c # cs) = (if c = CHR ''-'' then (True, cs) else if c = CHR ''+'' then (False, cs) else (False, c # cs))"
| "split_sign [] = (False, [])"

definition signed_int :: "bool \<Rightarrow> nat \<Rightarrow> int" where
  "signed_int neg n = (if neg then - int n else int n)"

text \<open>Decimal text of more than 4300 digits is refused.\<close>

definition decimal :: "string \<Rightarrow> nat option" where
  "decimal s =
     (case us_digits is_digit False s of
        None \<Rightarrow> None
      | Some ds \<Rightarrow> if 4300 < length ds then None else Some (nat_of_digits ds))"

definition int_of_string :: "string \<Rightarrow> int option" where
  "int_of_string s =
     (case split_sign (strip s) of (neg, u) \<Rightarrow> map_option (signed_int neg) (decimal u))"

definition based :: "nat \<Rightarrow> string \<Rightarrow> nat option" where
  "based b s =
     (let r = (case s of c # cs \<Rightarrow> if c = CHR ''_'' then cs else s | [] \<Rightarrow> s) in
      map_option (nat_of_base b) (us_digits (is_base_digit b) False r))"

text \<open>\<open>int(s, 0)\<close>: the prefix gives the base; a decimal literal has no leading zeros unless it is zero.\<close>

definition int_base0 :: "string \<Rightarrow> int option" where
  "int_base0 s =
     (case split_sign (strip s) of (neg, u) \<Rightarrow>
        map_option (signed_int neg)
          (let p = map to_lower (take 2 u) in
           if p = ''0x'' then based 16 (drop 2 u)
           else if p = ''0o'' then based 8 (drop 2 u)
           else if p = ''0b'' then based 2 (drop 2 u)
           else
             (case decimal u of
                None \<Rightarrow> None
              | Some n \<Rightarrow> if take 1 u = ''0'' \<and> n \<noteq> 0 then None else Some n)))"

section \<open>Floats\<close>

definition part :: "string \<Rightarrow> string option" where
  "part s = (if s = [] then Some [] else us_digits is_digit False s)"

definition exponent :: "string \<Rightarrow> int option" where
  "exponent s =
     (case split_sign s of (neg, u) \<Rightarrow>
        map_option (\<lambda>ds. signed_int neg (nat_of_digits ds)) (us_digits is_digit False u))"

definition is_exp_char :: "char \<Rightarrow> bool" where
  "is_exp_char c \<longleftrightarrow> c = CHR ''e'' \<or> c = CHR ''E''"

definition scale10 :: "int \<Rightarrow> rat \<Rightarrow> rat" where
  "scale10 e x = (if 0 \<le> e then x * 10 ^ nat e else x / 10 ^ nat (- e))"

definition decimal_float :: "string \<Rightarrow> rat option" where
  "decimal_float u =
     (let mant = takeWhile (\<lambda>c. \<not> is_exp_char c) u;
          rest = dropWhile (\<lambda>c. \<not> is_exp_char c) u;
          ip = takeWhile (\<lambda>c. c \<noteq> CHR ''.'') mant;
          fp = drop 1 (dropWhile (\<lambda>c. c \<noteq> CHR ''.'') mant);
          ex = (if rest = [] then Some 0 else exponent (drop 1 rest))
      in case (part ip, part fp, ex) of
           (Some i, Some f, Some e) \<Rightarrow>
             if i = [] \<and> f = [] then None
             else Some (scale10 (e - int (length f)) (of_nat (nat_of_digits (i @ f))))
         | _ \<Rightarrow> None)"

definition float_of_string :: "string \<Rightarrow> pyfloat option" where
  "float_of_string s =
     (case split_sign (strip s) of (neg, u) \<Rightarrow>
        let l = map to_lower u in
        if l = ''inf'' \<or> l = ''infinity'' then Some (Inf neg)
        else if l = ''nan'' then Some NaN
        else map_option (\<lambda>x. mkf (if neg then - x else x)) (decimal_float u))"

section \<open>Conversions of any value\<close>

text \<open>\<open>float(v)\<close>, \<open>int(v)\<close> and the truth value; \<open>None\<close> is the exception (\<open>TypeError\<close>,
  \<open>ValueError\<close> or \<open>OverflowError\<close>).\<close>

fun py_float :: "pyval \<Rightarrow> pyfloat option" where
  "py_float (PyInt n) = float_of_int n"
| "py_float (PyFloat f) = Some (pfloat f)"
| "py_float (PyBool b) = Some (Fin (if b then 1 else 0))"
| "py_float (PyStr s) = float_of_string s"
| "py_float _ = None"

fun int_of_py :: "pyval \<Rightarrow> int option" where
  "int_of_py (PyInt n) = Some n"
| "int_of_py (PyFloat (Fin x)) = Some (if 0 \<le> x then \<lfloor>x\<rfloor> else \<lceil>x\<rceil>)"
| "int_of_py (PyBool b) = Some (if b then 1 else 0)"
| "int_of_py (PyStr s) = int_of_string s"
| "int_of_py _ = None"

fun py_bool :: "pyval \<Rightarrow> bool" where
  "py_bool PyNone = False"
| "py_bool (PyBool b) = b"
| "py_bool (PyInt n) = (n \<noteq> 0)"
| "py_bool (PyFloat f) = (f \<noteq> Fin 0)"
| "py_bool (PyStr s) = (s \<noteq> [])"
| "py_bool (PyList xs) = (xs \<noteq> [])"
| "py_bool (PyDict d) = (d \<noteq> [])"

text \<open>\<open>str(v)\<close>; of a float, a list or a mapping it is the parameter \<open>repr\<close>.\<close>

fun py_str :: "(pyval \<Rightarrow> string) \<Rightarrow> pyval \<Rightarrow> string" where
  "py_str repr (PyStr s) = s"
| "py_str repr PyNone = ''None''"
| "py_str repr (PyBool b) = (if b then ''True'' else ''False'')"
| "py_str repr (PyInt n) = show_int n"
| "py_str repr v = repr v"

section \<open>Decimal text\<close>

lemma digit_not_space: "is_digit c \<Longrightarrow> \<not> is_space c"
  by (auto simp: is_digit_def is_space_def)

lemma strip_id: "s = [] \<or> \<not> is_space (hd s) \<and> \<not> is_space (last s) \<Longrightarrow> strip s = s"
proof -
  assume a: "s = [] \<or> \<not> is_space (hd s) \<and> \<not> is_space (last s)"
  have d: "xs = [] \<or> \<not> is_space (hd xs) \<Longrightarrow> dropWhile is_space xs = xs" for xs
    by (cases xs) simp_all
  have "dropWhile is_space s = s" "dropWhile is_space (rev s) = rev s"
    using a by (auto intro!: d simp: hd_rev)
  then show ?thesis
    by (simp add: strip_def)
qed

lemma us_digits_all: "\<forall>c \<in> set s. d c \<Longrightarrow> prev \<or> s \<noteq> [] \<Longrightarrow> us_digits d prev s = Some s"
  by (induction s arbitrary: prev) auto

lemma us_digits_show: "us_digits is_digit False (show_nat n) = Some (show_nat n)"
  using show_nat_digits show_nat_nonempty by (intro us_digits_all) auto

lemma show_nat_ends: "is_digit (hd (show_nat n))" "is_digit (last (show_nat n))"
  using show_nat_digits [OF hd_in_set [OF show_nat_nonempty]] show_nat_digits [OF last_in_set [OF show_nat_nonempty]] .

lemma split_sign_show: "split_sign (show_nat n) = (False, show_nat n)"
proof (cases "show_nat n")
  case (Cons c cs)
  then have "is_digit c"
    using show_nat_ends(1) [of n] by simp
  then show ?thesis
    by (auto simp: Cons is_digit_def)
qed (simp add: show_nat_nonempty)

lemma int_of_show_int: "length (show_nat (nat \<bar>v\<bar>)) \<le> 4300 \<Longrightarrow> int_of_string (show_int v) = Some v"
proof (cases "v < 0")
  case True
  have "strip (CHR ''-'' # show_nat (nat (- v))) = CHR ''-'' # show_nat (nat (- v))"
    using show_nat_ends [of "nat (- v)"] by (intro strip_id) (auto simp: is_space_def dest: digit_not_space simp: show_nat_nonempty)
  moreover assume "length (show_nat (nat \<bar>v\<bar>)) \<le> 4300"
  ultimately show ?thesis
    using True by (simp add: int_of_string_def show_int_def decimal_def us_digits_show nat_of_digits_show signed_int_def)
next
  case False
  have "strip (show_nat (nat v)) = show_nat (nat v)"
    using show_nat_ends [of "nat v"] by (intro strip_id) (auto dest: digit_not_space)
  moreover assume "length (show_nat (nat \<bar>v\<bar>)) \<le> 4300"
  ultimately show ?thesis
    using False
    by (simp add: int_of_string_def show_int_def decimal_def us_digits_show nat_of_digits_show signed_int_def split_sign_show)
qed

end
