(* ===== verification/Bms_Discovery.thy ===== *)
theory Bms_Discovery
  imports Py_Value
begin

text \<open>
  \<open>bms/discovery.py\<close>: the catalogue of Home Assistant entities of the battery bank, the discovery
  payload of an entity and its topics. An optional string is an \<open>option\<close>; a payload is the JSON
  value that is dumped, its keys in insertion order.
\<close>

section \<open>Entities\<close>

record entity_def =
  e_object_id :: string
  e_name :: string
  e_unit :: "string option"
  e_device_class :: "string option"
  e_state_class :: "string option"
  e_icon :: "string option"
  e_accuracy :: "int option"
  e_force_update :: bool
  e_entity_category :: "string option"

text \<open>The constructor with its default arguments.\<close>

definition entity :: "string \<Rightarrow> string \<Rightarrow> string option \<Rightarrow> string option \<Rightarrow> entity_def" where
  "entity object_id name unit device_class =
     \<lparr>e_object_id = object_id, e_name = name, e_unit = unit, e_device_class = device_class,
      e_state_class = Some ''measurement'', e_icon = None, e_accuracy = None,
      e_force_update = False, e_entity_category = None\<rparr>"

definition pia_entities_for_pack :: "nat \<Rightarrow> entity_def list" where
  "pia_entities_for_pack p =
    (let pp = ''pack'' @ show2 p; PP = ''Pack'' @ show2 p in
     [(entity (''bluesun_'' @ pp @ ''_voltage'') (PP @ '' Voltage'') (Some ''V'') (Some ''voltage''))\<lparr>e_accuracy := Some 2\<rparr>,
      (entity (''bluesun_'' @ pp @ ''_current'') (PP @ '' Current'') (Some ''A'') (Some ''current''))\<lparr>e_accuracy := Some 2\<rparr>,
      (entity (''bluesun_'' @ pp @ ''_soc'') (PP @ '' SoC'') (Some ''%'') (Some ''battery''))\<lparr>e_accuracy := Some 1\<rparr>,
      (entity (''bluesun_'' @ pp @ ''_soh'') (PP @ '' SoH'') (Some ''%'') None)\<lparr>e_icon := Some ''mdi:battery-heart-variant'', e_accuracy := Some 1\<rparr>,
      (entity (''bluesun_'' @ pp @ ''_cycles'') (PP @ '' Cycles'') None None)\<lparr>e_state_class := Some ''total_increasing'', e_icon := Some ''mdi:counter'', e_accuracy := Some 0\<rparr>,
      (entity (''bluesun_'' @ pp @ ''_remaining_ah'') (PP @ '' Remaining Ah'') (Some ''Ah'') None)\<lparr>e_icon := Some ''mdi:battery-outline'', e_accuracy := Some 2\<rparr>,
      (entity (''bluesun_'' @ pp @ ''_nominal_ah'') (PP @ '' Nominal Ah'') (Some ''Ah'') None)\<lparr>e_icon := Some ''mdi:battery-high'', e_accuracy := Some 2\<rparr>])"

text \<open>The unit with the degree sign.\<close>

abbreviation DEGREES :: string where
  "DEGREES \<equiv> [CHR 0xB0, CHR ''C'']"

definition pib_entities_for_pack :: "nat \<Rightarrow> entity_def list" where
  "pib_entities_for_pack p =
    (let pp = ''pack'' @ show2 p; PP = ''Pack'' @ show2 p in
     [(entity (''bluesun_'' @ pp @ ''_cell_v_min'') (PP @ '' Cell V Min'') (Some ''mV'') (Some ''voltage''))\<lparr>e_accuracy := Some 0\<rparr>,
      (entity (''bluesun_'' @ pp @ ''_cell_v_max'') (PP @ '' Cell V Max'') (Some ''mV'') (Some ''voltage''))\<lparr>e_accuracy := Some 0\<rparr>,
      (entity (''bluesun_'' @ pp @ ''_cell_v_avg'') (PP @ '' Cell V Avg'') (Some ''mV'') (Some ''voltage''))\<lparr>e_accuracy := Some 0\<rparr>,
      (entity (''bluesun_'' @ pp @ ''_cell_v_delta'') (PP @ '' Cell V Delta'') (Some ''mV'') None)\<lparr>e_icon := Some ''mdi:arrow-expand-vertical'', e_accuracy := Some 0\<rparr>]
     @ map (\<lambda>i. (entity (''bluesun_'' @ pp @ ''_cell_temp_'' @ show_nat i) (PP @ '' Cell Temp '' @ show_nat i) (Some DEGREES) (Some ''temperature''))\<lparr>e_accuracy := Some 1\<rparr>) [1, 2, 3, 4]
     @ [(entity (''bluesun_'' @ pp @ ''_env_temp'') (PP @ '' Env Temp'') (Some DEGREES) (Some ''temperature''))\<lparr>e_accuracy := Some 1\<rparr>,
        (entity (''bluesun_'' @ pp @ ''_pcb_temp'') (PP @ '' PCB Temp'') (Some DEGREES) (Some ''temperature''))\<lparr>e_accuracy := Some 1\<rparr>])"

definition serial_entities :: "entity_def list" where
  "serial_entities = map (\<lambda>p. (entity (''bluesun_pack'' @ show2 p @ ''_serial'') (''Pack'' @ show2 p @ '' Serial'') None None)\<lparr>e_state_class := None, e_icon := Some ''mdi:identifier''\<rparr>) [1, 2, 3, 4]"

definition bank_entities :: "entity_def list" where
  "bank_entities =
     [(entity ''bluesun_bank_voltage_avg'' ''Bank Voltage Avg'' (Some ''V'') (Some ''voltage''))\<lparr>e_accuracy := Some 2\<rparr>,
      (entity ''bluesun_bank_current_total'' ''Bank Current Total'' (Some ''A'') (Some ''current''))\<lparr>e_accuracy := Some 2\<rparr>,
      (entity ''bluesun_bank_soc_avg'' ''Bank SoC Avg'' (Some ''%'') (Some ''battery''))\<lparr>e_accuracy := Some 1\<rparr>,
      (entity ''bluesun_bank_soc_min'' ''Bank SoC Min'' (Some ''%'') (Some ''battery''))\<lparr>e_icon := Some ''mdi:battery-arrow-down'', e_accuracy := Some 1\<rparr>,
      (entity ''bluesun_bank_soc_spread'' ''Bank SoC Spread'' (Some ''%'') None)\<lparr>e_icon := Some ''mdi:arrow-expand-horizontal'', e_accuracy := Some 1\<rparr>,
      (entity ''bluesun_bank_power'' ''Bank Power'' (Some ''W'') (Some ''power''))\<lparr>e_accuracy := Some 0\<rparr>,
      (entity ''bluesun_bank_power_charging'' ''Bank Power Charging'' (Some ''W'') (Some ''power''))\<lparr>e_icon := Some ''mdi:battery-plus-variant'', e_accuracy := Some 0\<rparr>,
      (entity ''bluesun_bank_power_discharging'' ''Bank Power Discharging'' (Some ''W'') (Some ''power''))\<lparr>e_icon := Some ''mdi:battery-minus-variant'', e_accuracy := Some 0\<rparr>,
      (entity ''bluesun_bank_remaining_ah'' ''Bank Remaining Ah'' (Some ''Ah'') None)\<lparr>e_icon := Some ''mdi:battery-outline'', e_accuracy := Some 2\<rparr>,
      (entity ''bluesun_bank_nominal_ah'' ''Bank Nominal Ah'' (Some ''Ah'') None)\<lparr>e_icon := Some ''mdi:battery-high'', e_accuracy := Some 2\<rparr>,
      (entity ''bluesun_bank_min_soh'' ''Bank Min SoH'' (Some ''%'') None)\<lparr>e_icon := Some ''mdi:battery-heart-variant'', e_accuracy := Some 1\<rparr>,
      (entity ''bluesun_bank_max_cycles'' ''Bank Max Cycles'' None None)\<lparr>e_icon := Some ''mdi:counter'', e_accuracy := Some 0\<rparr>,
      (entity ''bluesun_bank_max_cell_temp'' ''Bank Max Cell Temp'' (Some DEGREES) (Some ''temperature''))\<lparr>e_accuracy := Some 1\<rparr>,
      (entity ''bluesun_bank_charge_current_total'' ''Bank Charge Current Total'' (Some ''A'') (Some ''current''))\<lparr>e_icon := Some ''mdi:battery-plus-variant'', e_accuracy := Some 2\<rparr>,
      (entity ''bluesun_bank_discharge_current_total'' ''Bank Discharge Current Total'' (Some ''A'') (Some ''current''))\<lparr>e_icon := Some ''mdi:battery-minus-variant'', e_accuracy := Some 2\<rparr>,
      (entity ''bluesun_bank_charge_power_total'' ''Bank Charge Power Total'' (Some ''W'') (Some ''power''))\<lparr>e_icon := Some ''mdi:battery-plus-variant'', e_accuracy := Some 0\<rparr>,
      (entity ''bluesun_bank_discharge_power_total'' ''Bank Discharge Power Total'' (Some ''W'') (Some ''power''))\<lparr>e_icon := Some ''mdi:battery-minus-variant'', e_accuracy := Some 0\<rparr>]"

definition energy_entities :: "entity_def list" where
  "energy_entities =
     [(entity ''bluesun_battery_energy_in'' ''Battery Energy In'' (Some ''Wh'') (Some ''energy''))\<lparr>e_state_class := Some ''total_increasing'', e_icon := Some ''mdi:battery-arrow-up'', e_accuracy := Some 2\<rparr>,
      (entity ''bluesun_battery_energy_out'' ''Battery Energy Out'' (Some ''Wh'') (Some ''energy''))\<lparr>e_state_class := Some ''total_increasing'', e_icon := Some ''mdi:battery-arrow-down'', e_accuracy := Some 2\<rparr>]"

definition telemetry_entities :: "entity_def list" where
  "telemetry_entities =
     [(entity ''bluesun_octopus_parses_ok'' ''Octopus Parses OK'' None None)\<lparr>e_state_class := Some ''total_increasing'', e_icon := Some ''mdi:counter'', e_accuracy := Some 0, e_entity_category := Some ''diagnostic''\<rparr>]
     @ map (\<lambda>p. (entity (''bluesun_pack'' @ show2 p @ ''_parses'') (''Pack'' @ show2 p @ '' Parses'') None None)\<lparr>e_state_class := Some ''total_increasing'', e_icon := Some ''mdi:counter'', e_accuracy := Some 0, e_entity_category := Some ''diagnostic''\<rparr>) [1, 2, 3, 4]
     @ map (\<lambda>p. (entity (''bluesun_pack'' @ show2 p @ ''_soc_polls'') (''Pack'' @ show2 p @ '' SoC Polls'') None None)\<lparr>e_state_class := Some ''total_increasing'', e_icon := Some ''mdi:counter'', e_accuracy := Some 0, e_entity_category := Some ''diagnostic''\<rparr>) [1, 2, 3, 4]"

definition all_bms_entities :: "entity_def list" where
  "all_bms_entities =
     concat (map pia_entities_for_pack [1, 2, 3, 4])
     @ concat (map pib_entities_for_pack [1, 2, 3, 4])
     @ serial_entities @ bank_entities @ energy_entities @ telemetry_entities"

section \<open>Payloads and topics\<close>

definition entry :: "string \<Rightarrow> ('a \<Rightarrow> pyval) \<Rightarrow> 'a option \<Rightarrow> (string \<times> pyval) list" where
  "entry k f v = (case v of None \<Rightarrow> [] | Some x \<Rightarrow> [(k, f x)])"

definition build_discovery_payload ::
  "entity_def \<Rightarrow> string \<Rightarrow> string \<Rightarrow> string \<Rightarrow> string \<Rightarrow> pyval"
where
  "build_discovery_payload e topic_prefix device_id device_name availability_topic =
     PyDict
       ([(''name'', PyStr (e_name e)),
         (''unique_id'', PyStr (e_object_id e)),
         (''object_id'', PyStr (e_object_id e)),
         (''state_topic'', PyStr (topic_prefix @ ''/'' @ e_object_id e @ ''/state'')),
         (''availability_topic'', PyStr availability_topic),
         (''payload_available'', PyStr ''online''),
         (''payload_not_available'', PyStr ''offline''),
         (''device'', PyDict
            [(''identifiers'', PyList [PyStr device_id]),
             (''name'', PyStr device_name),
             (''manufacturer'', PyStr ''BlueSun / XZH-ElecTech''),
             (''model'', PyStr ''BMS16S200A-SP05B (4-pack 16s LiFePO4)''),
             (''configuration_url'', PyStr ''https://github.com/gabrielpc1190/SolarInverter2MQTT'')])]
        @ entry ''unit_of_measurement'' PyStr (e_unit e)
        @ entry ''device_class'' PyStr (e_device_class e)
        @ entry ''state_class'' PyStr (e_state_class e)
        @ entry ''icon'' PyStr (e_icon e)
        @ entry ''suggested_display_precision'' PyInt (e_accuracy e)
        @ (if e_force_update e then [(''force_update'', PyBool True)] else [])
        @ entry ''entity_category'' PyStr (e_entity_category e))"

definition discovery_topic_for :: "entity_def \<Rightarrow> string \<Rightarrow> string" where
  "discovery_topic_for e ha_prefix = ha_prefix @ ''/sensor/'' @ e_object_id e @ ''/config''"

definition state_topic_for :: "entity_def \<Rightarrow> string \<Rightarrow> string" where
  "state_topic_for e topic_prefix = topic_prefix @ ''/'' @ e_object_id e @ ''/state''"

section \<open>The object ids\<close>

definition pack_id :: "nat \<Rightarrow> string \<Rightarrow> string" where
  "pack_id p s = ''bluesun_pack'' @ show2 p @ CHR ''_'' # s"

definition pack_suffixes :: "string list" where
  "pack_suffixes =
     [''voltage'', ''current'', ''soc'', ''soh'', ''cycles'', ''remaining_ah'', ''nominal_ah'',
      ''cell_v_min'', ''cell_v_max'', ''cell_v_avg'', ''cell_v_delta'', ''cell_temp_1'', ''cell_temp_2'',
      ''cell_temp_3'', ''cell_temp_4'', ''env_temp'', ''pcb_temp'', ''serial'', ''parses'', ''soc_polls'']"

definition bank_ids :: "string list" where
  "bank_ids = map e_object_id bank_entities @ map e_object_id energy_entities @ [''bluesun_octopus_parses_ok'']"

lemma show_digit: "d < 10 \<Longrightarrow> show_nat d = [digit_char d]"
  by (subst show_nat.simps) simp

lemma show2_digit: "d < 10 \<Longrightarrow> show2 d = [CHR ''0'', digit_char d]"
  by (simp add: show2_def show_digit)

lemma digit_char_inj: "p < 10 \<Longrightarrow> q < 10 \<Longrightarrow> digit_char p = digit_char q \<longleftrightarrow> p = q"
  using digit_char_code by (metis add_left_cancel)

lemma digit_chars: "digit_char 1 = CHR ''1''" "digit_char 2 = CHR ''2''" "digit_char 3 = CHR ''3''" "digit_char 4 = CHR ''4''"
  by code_simp+

lemma pack_id_inj:
  assumes "p < 10" and "q < 10"
  shows "pack_id p s = pack_id q t \<longleftrightarrow> p = q \<and> s = t"
  using digit_char_inj [OF assms]
  unfolding pack_id_def show2_digit [OF assms(1)] show2_digit [OF assms(2)] append.simps list.inject same_append_eq
  by simp

lemma pia_ids: "map e_object_id (pia_entities_for_pack p) = map (pack_id p) (take 7 pack_suffixes)"
  by (simp add: pia_entities_for_pack_def entity_def pack_id_def pack_suffixes_def Let_def)

lemma pib_ids: "map e_object_id (pib_entities_for_pack p) = map (pack_id p) (take 10 (drop 7 pack_suffixes))"
  by (simp add: pib_entities_for_pack_def entity_def pack_id_def pack_suffixes_def Let_def show_digit digit_chars del: One_nat_def)

lemma serial_ids: "map e_object_id serial_entities = map (\<lambda>p. pack_id p ''serial'') [1, 2, 3, 4]"
  by (simp add: serial_entities_def entity_def pack_id_def)

lemma telemetry_ids: "map e_object_id telemetry_entities =
    ''bluesun_octopus_parses_ok'' # map (\<lambda>p. pack_id p ''parses'') [1, 2, 3, 4]
      @ map (\<lambda>p. pack_id p ''soc_polls'') [1, 2, 3, 4]"
  by (simp add: telemetry_entities_def entity_def pack_id_def)

lemma catalogue_ids: "e_object_id ` set all_bms_entities =
    (\<lambda>(p, s). pack_id p s) ` ({1, 2, 3, 4} \<times> set pack_suffixes) \<union> set bank_ids"
proof -
  have s: "pack_suffixes = take 7 pack_suffixes @ take 10 (drop 7 pack_suffixes) @ [''serial'', ''parses'', ''soc_polls'']"
    by (simp add: pack_suffixes_def)
  have p: "e_object_id ` set (pia_entities_for_pack p) = pack_id p ` set (take 7 pack_suffixes)"
    "e_object_id ` set (pib_entities_for_pack p) = pack_id p ` set (take 10 (drop 7 pack_suffixes))" for p
    using pia_ids [of p] pib_ids [of p] by (metis set_map)+
  have q: "e_object_id ` set serial_entities = (\<lambda>p. pack_id p ''serial'') ` {1, 2, 3, 4}"
    "e_object_id ` set telemetry_entities = insert ''bluesun_octopus_parses_ok''
       ((\<lambda>p. pack_id p ''parses'') ` {1, 2, 3, 4} \<union> (\<lambda>p. pack_id p ''soc_polls'') ` {1, 2, 3, 4})"
    using arg_cong [OF serial_ids, of set] arg_cong [OF telemetry_ids, of set]
    by (simp_all add: image_Un insert_commute)
  show ?thesis
    by (subst s) (auto simp: all_bms_entities_def bank_ids_def image_Un p q)
qed

lemma length_catalogue: "length all_bms_entities = 100"
proof -
  have "length (pia_entities_for_pack p) = 7" "length (pib_entities_for_pack p) = 10" for p
    by (simp_all add: pia_entities_for_pack_def pib_entities_for_pack_def Let_def)
  moreover have "length bank_entities = 17" "length energy_entities = 2" "length serial_entities = 4"
    "length telemetry_entities = 9"
    by (simp_all add: bank_entities_def energy_entities_def serial_entities_def telemetry_entities_def)
  ultimately show ?thesis
    by (simp add: all_bms_entities_def)
qed

lemma bank_ids_eq: "bank_ids = map (\<lambda>s. ''bluesun_'' @ s)
   [''bank_voltage_avg'', ''bank_current_total'', ''bank_soc_avg'', ''bank_soc_min'', ''bank_soc_spread'',
    ''bank_power'', ''bank_power_charging'', ''bank_power_discharging'', ''bank_remaining_ah'',
    ''bank_nominal_ah'', ''bank_min_soh'', ''bank_max_cycles'', ''bank_max_cell_temp'',
    ''bank_charge_current_total'', ''bank_discharge_current_total'', ''bank_charge_power_total'',
    ''bank_discharge_power_total'', ''battery_energy_in'', ''battery_energy_out'', ''octopus_parses_ok'']"
  by (simp add: bank_ids_def bank_entities_def energy_entities_def entity_def)

lemma distinct_bank_ids: "distinct bank_ids"
  by (simp add: bank_ids_eq)

lemma distinct_pack_suffixes: "distinct pack_suffixes"
  by (simp add: pack_suffixes_def)

lemma pack_id_not_bank: "pack_id p s \<notin> set bank_ids"
  by (simp add: bank_ids_eq pack_id_def)

lemma distinct_catalogue: "distinct (map e_object_id all_bms_entities)"
proof (rule card_distinct)
  let ?P = "(\<lambda>(p, s). pack_id p s) ` ({1, 2, 3, 4} \<times> set pack_suffixes)"
  have "inj_on (\<lambda>(p, s). pack_id p s) ({1, 2, 3, 4} \<times> set pack_suffixes)"
    by (intro inj_onI) (clarsimp, elim disjE; simp add: pack_id_inj)
  then have "card ?P = card ({1, 2, 3, 4 :: nat} \<times> set pack_suffixes)"
    by (rule card_image)
  also have "\<dots> = 80"
    using distinct_card [OF distinct_pack_suffixes] by (simp add: card_cartesian_product) (simp add: pack_suffixes_def)
  finally have "card ?P = 80" .
  moreover have "card (set bank_ids) = 20"
    using distinct_card [OF distinct_bank_ids] by (simp add: bank_ids_eq)
  moreover have "?P \<inter> set bank_ids = {}"
    using pack_id_not_bank by auto
  ultimately have "card (?P \<union> set bank_ids) = 100"
    by (subst card_Un_disjoint) auto
  then show "card (set (map e_object_id all_bms_entities)) = length (map e_object_id all_bms_entities)"
    by (simp only: set_map catalogue_ids length_map length_catalogue)
qed

lemma bms_ids: "\<forall>e \<in> set all_bms_entities. starts_with ''bluesun_'' (e_object_id e)"
  by code_simp

text \<open>The catalogue has exactly 100 entities with pairwise distinct object ids, so that for any
  prefixes no two entities share a discovery topic or a state topic, and the payload of an entity
  announces the very topic its values are published on.\<close>

theorem bms_catalogue_distinct:
  "length all_bms_entities = 100
   \<and> distinct (map (\<lambda>e. discovery_topic_for e ha) all_bms_entities)
   \<and> distinct (map (\<lambda>e. state_topic_for e pre) all_bms_entities)
   \<and> (\<exists>kvs. build_discovery_payload e pre dev_id dev_name avail = PyDict kvs
        \<and> dget kvs ''state_topic'' = Some (PyStr (state_topic_for e pre))
        \<and> dget kvs ''unique_id'' = Some (PyStr (e_object_id e))
        \<and> dget kvs ''availability_topic'' = Some (PyStr avail))"
  using distinct_catalogue
  by (auto simp: length_catalogue discovery_topic_for_def state_topic_for_def distinct_map inj_on_def
      build_discovery_payload_def)

end
