(* ===== verification/Bms_Aggregator.thy ===== *)
theory Bms_Aggregator
  imports Octopus
begin

text \<open>
  \<open>bms/aggregator.py\<close>: the bank aggregates of the packs' readings. The dictionaries are keyed by
  pack number, in insertion order; every reading is a finite double, \<open>None\<close> is the option's.
  The version of \<open>sum\<close> is a parameter. The lemmas bound the rounding error of \<open>sum\<close> in both
  versions, so that the published values can be compared with the exact formulas.
\<close>

section \<open>Aggregates\<close>

record bank_aggregates =
  voltage_avg_V :: "rat option"
  current_total_A :: "rat option"
  soc_avg_pct :: "rat option"
  soc_min_pct :: "rat option"
  soc_spread_pct :: "rat option"
  power_W :: "rat option"
  bank_remaining_Ah :: "rat option"
  bank_nominal_Ah :: "rat option"
  min_soh_pct :: "rat option"
  max_cycles :: "int option"
  max_cell_temp_C :: "rat option"
  power_charging_W :: "rat option"
  power_discharging_W :: "rat option"
  charge_current_total_A :: "rat option"
  discharge_current_total_A :: "rat option"
  charge_power_total_W :: "rat option"
  discharge_power_total_W :: "rat option"

definition avg_or_none :: "py_version \<Rightarrow> rat list \<Rightarrow> rat option" where
  "avg_or_none ver values =
     (if values = [] then None else Some (fl (py_sum ver values / of_nat (length values))))"

definition sum_or_none :: "py_version \<Rightarrow> rat list \<Rightarrow> rat option" where
  "sum_or_none ver values = (if values = [] then None else Some (py_sum ver values))"

definition max_or_none :: "'a :: linorder list \<Rightarrow> 'a option" where
  "max_or_none values = (if values = [] then None else Some (Max (set values)))"

definition min_or_none :: "'a :: linorder list \<Rightarrow> 'a option" where
  "min_or_none values = (if values = [] then None else Some (Min (set values)))"

text \<open>\<open>sum(xs) if xs else 0.0\<close>.\<close>

definition sum_or_zero :: "py_version \<Rightarrow> rat list \<Rightarrow> rat" where
  "sum_or_zero ver xs = (if xs \<noteq> [] then py_sum ver xs else 0)"

definition cell_temps :: "pib_data list \<Rightarrow> rat list" where
  "cell_temps pibs = concat (map (\<lambda>pib. map the (filter (\<lambda>t. t \<noteq> None) (cell_temp_C pib))) pibs)"

definition aggregate_bank ::
  "py_version \<Rightarrow> (nat, pia_data) dict \<Rightarrow> (nat, pib_data) dict option \<Rightarrow> bank_aggregates"
where
  "aggregate_bank ver pia_by_pack pib_by_pack =
     (let pibs = (case pib_by_pack of None \<Rightarrow> [] | Some d \<Rightarrow> map snd d);
          pias = map snd pia_by_pack;
          socs = map soc_pct pias;
          voltage_avg = avg_or_none ver (map voltage_V pias);
          current_total = sum_or_none ver (map current_A pias);
          power = (case (voltage_avg, current_total) of
              (Some v, Some i) \<Rightarrow> Some (fl (v * i)) | _ \<Rightarrow> None);
          pairs = map (\<lambda>p. (voltage_V p, current_A p)) pias;
          charging = filter (\<lambda>(_, cur). 0 < cur) pairs;
          discharging = filter (\<lambda>(_, cur). cur < 0) pairs;
          split = (\<lambda>xs. if pairs \<noteq> [] then Some (sum_or_zero ver xs) else None)
      in \<lparr>voltage_avg_V = voltage_avg,
          current_total_A = current_total,
          soc_avg_pct = avg_or_none ver socs,
          soc_min_pct = min_or_none socs,
          soc_spread_pct = (if socs \<noteq> [] then Some (fl (Max (set socs) - Min (set socs))) else None),
          power_W = power,
          bank_remaining_Ah = sum_or_none ver (map remaining_Ah pias),
          bank_nominal_Ah = sum_or_none ver (map nominal_Ah pias),
          min_soh_pct = min_or_none (map soh_pct pias),
          max_cycles = max_or_none (map cycles pias),
          max_cell_temp_C = max_or_none (cell_temps pibs),
          power_charging_W = map_option (\<lambda>p. if 0 < p then p else 0) power,
          power_discharging_W = map_option (\<lambda>p. if p < 0 then - p else 0) power,
          charge_current_total_A = split (map (\<lambda>(_, cur). cur) charging),
          discharge_current_total_A = split (map (\<lambda>(_, cur). - cur) discharging),
          charge_power_total_W = split (map (\<lambda>(volt, cur). fl (volt * cur)) charging),
          discharge_power_total_W = split (map (\<lambda>(volt, cur). fl (volt * - cur)) discharging)\<rparr>)"

section \<open>Rounding error of sum\<close>

text \<open>One operation on values below \<open>2 ^ 16\<close> is off by at most \<open>eps\<close>.\<close>

definition eps :: rat where
  "eps = 1 / 2 ^ 38"

lemma eps_pos: "0 < eps" "eps \<le> 1 / 10 ^ 11" "eps \<le> 1"
  by (simp_all add: eps_def)

lemma fl_eps:
  assumes "\<bar>x\<bar> < 65536"
  shows "\<bar>fl x - x\<bar> \<le> eps"
proof -
  have "pow2 16 = 65536" "pow2 (16 - 54) = eps"
    by (simp_all add: eps_def power_int_def power_divide)
  then show ?thesis
    using fl_abs_error [of x 16] assms by simp
qed

lemma foldl_near:
  assumes "\<forall>x \<in> set xs. \<bar>x\<bar> \<le> B" and "\<bar>s\<bar> + of_nat (length xs) * (B + 1) < 65536" and "0 \<le> B"
  shows "\<bar>foldl (\<lambda>s y. fl (s + y)) s xs - (s + sum_list xs)\<bar> \<le> of_nat (length xs) * eps"
  using assms(1,2)
proof (induction xs arbitrary: s)
  case (Cons x xs)
  have n: "0 \<le> of_nat (length xs) * (B + 1)"
    using assms(3) by simp
  have x: "\<bar>x\<bar> \<le> B" and l: "\<bar>s\<bar> + B + 1 + of_nat (length xs) * (B + 1) < 65536"
    using Cons.prems by (simp_all add: algebra_simps)
  have a: "\<bar>s + x\<bar> \<le> \<bar>s\<bar> + B"
    using x abs_triangle_ineq [of s x] by linarith
  have e: "\<bar>fl (s + x) - (s + x)\<bar> \<le> eps"
    using a l n by (intro fl_eps) linarith
  have t: "\<bar>fl (s + x)\<bar> \<le> \<bar>s\<bar> + B + 1"
    using e a eps_pos(3) by linarith
  have "\<bar>foldl (\<lambda>s y. fl (s + y)) (fl (s + x)) xs - (fl (s + x) + sum_list xs)\<bar> \<le> of_nat (length xs) * eps"
    using Cons.prems(1) t l by (intro Cons.IH) (simp, linarith)
  moreover have "of_nat (length (x # xs)) * eps = of_nat (length xs) * eps + eps"
    by (simp add: algebra_simps)
  ultimately show ?case
    using e unfolding foldl_Cons sum_list.Cons by linarith
qed simp

lemma neumaier_near:
  assumes "\<forall>x \<in> set xs. \<bar>x\<bar> \<le> B" and "\<bar>f\<bar> + of_nat (length xs) * (B + 1) < 32768" and "0 \<le> B"
    and "\<bar>c\<bar> + of_nat (length xs) * (4 * eps) < 1"
  shows "\<bar>fst (neumaier (f, c) xs) - (f + sum_list xs)\<bar> \<le> of_nat (length xs) * eps"
    and "\<bar>snd (neumaier (f, c) xs)\<bar> \<le> \<bar>c\<bar> + of_nat (length xs) * (4 * eps)"
proof -
  have "\<bar>fst (neumaier (f, c) xs) - (f + sum_list xs)\<bar> \<le> of_nat (length xs) * eps
    \<and> \<bar>snd (neumaier (f, c) xs)\<bar> \<le> \<bar>c\<bar> + of_nat (length xs) * (4 * eps)"
    using assms(1,2,4)
  proof (induction xs arbitrary: f c)
    case (Cons x xs)
    have n: "0 \<le> of_nat (length xs) * (B + 1)" "0 \<le> of_nat (length xs) * (4 * eps)"
      using assms(3) eps_pos by simp_all
    have x: "\<bar>x\<bar> \<le> B" and l: "\<bar>f\<bar> + B + 1 + of_nat (length xs) * (B + 1) < 32768"
      and lc: "\<bar>c\<bar> + 4 * eps + of_nat (length xs) * (4 * eps) < 1"
      using Cons.prems by (simp_all add: algebra_simps)
    define t where "t = fl (f + x)"
    have e: "\<bar>t - (f + x)\<bar> \<le> eps"
      unfolding t_def using x l n by (intro fl_eps) linarith
    have part: "\<bar>fl (c + fl (fl (a - t) + b))\<bar> \<le> \<bar>c\<bar> + 4 * eps" if ab: "a + b = f + x" "\<bar>a\<bar> + \<bar>b\<bar> \<le> \<bar>f\<bar> + B" for a b
    proof -
      have 1: "\<bar>fl (a - t) - (a - t)\<bar> \<le> eps"
        using ab e x l n eps_pos by (intro fl_eps) linarith
      have 2: "\<bar>fl (a - t) + b\<bar> \<le> 2 * eps"
        using 1 e ab by linarith
      have 3: "\<bar>fl (fl (a - t) + b) - (fl (a - t) + b)\<bar> \<le> eps"
        using 2 eps_pos by (intro fl_eps) linarith
      have 4: "\<bar>fl (c + fl (fl (a - t) + b)) - (c + fl (fl (a - t) + b))\<bar> \<le> eps"
        using 2 3 lc n eps_pos by (intro fl_eps) linarith
      show ?thesis
        using 2 3 4 by linarith
    qed
    define c' where "c' = (if \<bar>x\<bar> \<le> \<bar>f\<bar> then fl (c + fl (fl (f - t) + x)) else fl (c + fl (fl (x - t) + f)))"
    have c': "\<bar>c'\<bar> \<le> \<bar>c\<bar> + 4 * eps"
      unfolding c'_def using part [of f x] part [of x f] x by (simp add: add.commute)
    have "\<bar>fst (neumaier (t, c') xs) - (t + sum_list xs)\<bar> \<le> of_nat (length xs) * eps
      \<and> \<bar>snd (neumaier (t, c') xs)\<bar> \<le> \<bar>c'\<bar> + of_nat (length xs) * (4 * eps)"
    proof (rule Cons.IH)
      show "\<forall>x \<in> set xs. \<bar>x\<bar> \<le> B"
        using Cons.prems(1) by simp
      show "\<bar>t\<bar> + of_nat (length xs) * (B + 1) < 32768"
        using e x l eps_pos by linarith
      show "\<bar>c'\<bar> + of_nat (length xs) * (4 * eps) < 1"
        using c' lc by linarith
    qed
    moreover have "neumaier (f, c) (x # xs) = neumaier (t, c') xs"
      by (simp add: t_def c'_def Let_def)
    moreover have "of_nat (length (x # xs)) * eps = of_nat (length xs) * eps + eps"
      "of_nat (length (x # xs)) * (4 * eps) = of_nat (length xs) * (4 * eps) + 4 * eps"
      by (simp_all add: algebra_simps)
    ultimately show ?case
      using e c' by simp linarith
  qed simp
  then show "\<bar>fst (neumaier (f, c) xs) - (f + sum_list xs)\<bar> \<le> of_nat (length xs) * eps"
    and "\<bar>snd (neumaier (f, c) xs)\<bar> \<le> \<bar>c\<bar> + of_nat (length xs) * (4 * eps)"
    by blast+
qed

text \<open>Up to four values of at most 7000: the sum is exact to \<open>10 ^ -10\<close> in both versions.\<close>

lemma py_sum_near:
  assumes "\<forall>x \<in> set xs. \<bar>x\<bar> \<le> 7000" and "length xs \<le> 4"
  shows "\<bar>py_sum ver xs - sum_list xs\<bar> \<le> 1 / 10 ^ 10"
proof (cases xs)
  case (Cons x ys)
  have x: "\<bar>x\<bar> \<le> 7000" and ys: "\<forall>y \<in> set ys. \<bar>y\<bar> \<le> 7000"
    using assms Cons by simp_all
  have n: "(of_nat (length ys) :: rat) \<le> 3"
    using assms(2) Cons by (simp del: of_nat_le_iff add: of_nat_le_iff [of "length ys" 3, where 'a = rat, simplified])
  have "of_nat (length ys) * (7000 + 1) \<le> (3 * (7000 + 1) :: rat)"
    using n by (intro mult_right_mono) simp_all
  then have l: "\<bar>x\<bar> + of_nat (length ys) * (7000 + 1) < (32768 :: rat)"
    by (rule le_less_trans [OF add_mono [OF x]]) simp
  have ne: "of_nat (length ys) * eps \<le> 3 * eps" "of_nat (length ys) * (4 * eps) \<le> 3 * (4 * eps)"
    using n eps_pos by (intro mult_right_mono; simp)+
  have small: "16 * eps \<le> 1 / 10 ^ 10"
    by (simp add: eps_def)
  have small1: "3 * (4 * eps) < 1"
    by (simp add: eps_def)
  show ?thesis
  proof (cases ver)
    case Py311
    have "\<bar>foldl (\<lambda>s y. fl (s + y)) x ys - (x + sum_list ys)\<bar> \<le> of_nat (length ys) * eps"
      using ys l by (intro foldl_near [where B = 7000]) simp_all
    moreover have "py_sum ver xs = foldl (\<lambda>s y. fl (s + y)) x ys" "sum_list xs = x + sum_list ys"
      by (simp_all add: Py311 Cons)
    ultimately show ?thesis
      using ne small eps_pos by linarith
  next
    case Py312
    obtain f c where fc: "neumaier (x, 0) ys = (f, c)"
      by fastforce
    have cond: "\<bar>0\<bar> + of_nat (length ys) * (4 * eps) < 1"
      using ne(2) small1 by (simp only: abs_zero add_0_left)
    have "\<bar>f - (x + sum_list ys)\<bar> \<le> of_nat (length ys) * eps"
      and "\<bar>c\<bar> \<le> of_nat (length ys) * (4 * eps)"
      using neumaier_near [OF ys l _ cond] fc by simp_all
    then have f: "\<bar>f - (x + sum_list ys)\<bar> \<le> 3 * eps" and c: "\<bar>c\<bar> \<le> 12 * eps"
      using order_trans [OF _ ne(1)] order_trans [OF _ ne(2)] by force+
    have s: "\<bar>sum_list ys\<bar> \<le> 21000"
    proof -
      have "\<bar>sum_list ys\<bar> \<le> sum_list (map abs ys)"
        by (rule sum_list_abs)
      also have "\<dots> \<le> of_nat (length ys) * 7000"
        using sum_list_mono [of ys abs "\<lambda>_. 7000"] ys by (simp add: sum_list_triv)
      finally show ?thesis
        using n by linarith
    qed
    have "\<bar>fl (f + c) - (f + c)\<bar> \<le> eps"
      using f c s x eps_pos(3) by (intro fl_eps) linarith
    then have "\<bar>py_sum ver xs - (f + c)\<bar> \<le> eps"
      using eps_pos(1) by (simp add: Py312 Cons fc)
    moreover have "sum_list xs = x + sum_list ys"
      by (simp add: Cons)
    ultimately show ?thesis
      using f c small by linarith
  qed
qed simp

section \<open>The aggregates of decoded readings\<close>

text \<open>Bounds of a decoded reading.\<close>

definition pia_bounded :: "pia_data \<Rightarrow> bool" where
  "pia_bounded d \<longleftrightarrow> 0 \<le> voltage_V d \<and> voltage_V d \<le> 656 \<and> \<bar>current_A d\<bar> \<le> 328
     \<and> 0 \<le> soc_pct d \<and> soc_pct d \<le> 6554 \<and> 0 \<le> remaining_Ah d \<and> remaining_Ah d \<le> 656
     \<and> 0 \<le> nominal_Ah d \<and> nominal_Ah d \<le> 656"

lemma fl_upper: "x \<le> of_int m \<Longrightarrow> \<bar>m\<bar> \<le> 2 ^ 53 \<Longrightarrow> fl x \<le> of_int m"
  using fl_mono [of x "of_int m"] fl_int [of m] by simp

lemma fl_lower: "of_int m \<le> x \<Longrightarrow> \<bar>m\<bar> \<le> 2 ^ 53 \<Longrightarrow> of_int m \<le> fl x"
  using fl_mono [of "of_int m" x] fl_int [of m] by simp

lemma decoded_bounded:
  assumes "oct_parse_response frame = Inr (Pia d)"
  shows "pia_bounded d"
proof -
  obtain pack r where r: "reg_range r" "length r = 18" and d: "d = pia_spec pack r frame"
    using assms unfolding oct_parse_exact_aux by auto
  have rng: "0 \<le> r ! i \<and> r ! i < 65536" if "i < 18" for i
    using that r by (simp add: reg_range_def)
  have reg: "0 \<le> (of_int (r ! i) :: rat) \<and> (of_int (r ! i) :: rat) \<le> 65535" if "i < 18" for i
    using rng [OF that] by (simp add: of_int_le_iff [of "r ! i" 65535, where 'a = rat, simplified])
  define cur :: int where "cur = sint (word_of_int (r ! 1) :: 16 word)"
  have "- 32768 \<le> cur \<and> cur < 32768"
    using sint_greater_eq [of "word_of_int (r ! 1) :: 16 word"] sint_less [of "word_of_int (r ! 1) :: 16 word"]
    by (simp add: cur_def del: of_int_sint)
  then have c: "- 32768 \<le> (of_int cur :: rat) \<and> (of_int cur :: rat) \<le> 32768"
    by (simp add: of_int_le_iff [of cur 32768, where 'a = rat, simplified] of_int_le_iff [of "- 32768" cur, where 'a = rat, simplified])
  have v: "0 \<le> fl (of_int (r ! i) / 100) \<and> fl (of_int (r ! i) / 100) \<le> 656" if "i < 18" for i
    using reg [OF that] fl_nonneg [of "of_int (r ! i) / 100"] fl_upper [of "of_int (r ! i) / 100" 656] by simp
  have s: "0 \<le> fl (of_int (r ! i) / 10) \<and> fl (of_int (r ! i) / 10) \<le> 6554" if "i < 18" for i
    using reg [OF that] fl_nonneg [of "of_int (r ! i) / 10"] fl_upper [of "of_int (r ! i) / 10" 6554] by simp
  have "\<bar>fl (of_int cur / 100)\<bar> \<le> 328"
    using c fl_upper [of "of_int cur / 100" 328] fl_lower [of "- 328" "of_int cur / 100"] by simp
  then show ?thesis
    using v s unfolding d pia_bounded_def pia_spec_def cur_def by simp
qed

definition decoded :: "(nat, pia_data) dict \<Rightarrow> bool" where
  "decoded pias \<longleftrightarrow> length pias \<le> 4 \<and> (\<forall>d \<in> snd ` set pias. \<exists>frame. oct_parse_response frame = Inr (Pia d))"

lemma decoded_bounds: "decoded pias \<Longrightarrow> d \<in> snd ` set pias \<Longrightarrow> pia_bounded d"
  unfolding decoded_def using decoded_bounded by blast

text \<open>Closeness to an exact value.\<close>

definition near :: "rat \<Rightarrow> rat option \<Rightarrow> rat \<Rightarrow> bool" where
  "near tol v x \<longleftrightarrow> (case v of None \<Rightarrow> False | Some y \<Rightarrow> \<bar>y - x\<bar> \<le> tol)"

lemma sum_list_bound:
  assumes "\<forall>x \<in> set xs. \<bar>x\<bar> \<le> B"
  shows "\<bar>sum_list xs\<bar> \<le> of_nat (length xs) * (B :: rat)"
proof -
  have "\<bar>sum_list xs\<bar> \<le> sum_list (map abs xs)"
    by (rule sum_list_abs)
  also have "\<dots> \<le> of_nat (length xs) * B"
    using sum_list_mono [of xs abs "\<lambda>_. B"] assms by (simp add: sum_list_triv)
  finally show ?thesis .
qed

lemma sum_near:
  assumes "xs \<noteq> []" and "\<forall>x \<in> set xs. \<bar>x\<bar> \<le> 7000" and "length xs \<le> 4"
  shows "near (1 / 10 ^ 10) (sum_or_none ver xs) (sum_list xs)"
  using assms py_sum_near [of xs ver] by (simp add: near_def sum_or_none_def)

lemma tolerances: "1 / 10 ^ 10 \<le> (1 :: rat)" "1 / 10 ^ 10 + eps \<le> 1 / 10 ^ 9"
    "2 / 10 ^ 6 + 1 / 10 ^ 9 \<le> (1 / 10 ^ 5 :: rat)" "2 / 10 ^ 6 \<le> (1 :: rat)"
  by (simp_all add: eps_def)

lemma nearE:
  assumes "near tol v x"
  obtains y where "v = Some y" "\<bar>y - x\<bar> \<le> tol"
  using assms by (auto simp: near_def split: option.splits)

lemma avg_near:
  assumes "xs \<noteq> []" and "\<forall>x \<in> set xs. \<bar>x\<bar> \<le> 7000" and "length xs \<le> 4"
  shows "near (1 / 10 ^ 9) (avg_or_none ver xs) (sum_list xs / of_nat (length xs))"
proof -
  define n :: rat where "n = of_nat (length xs)"
  have n: "1 \<le> n"
    using assms(1) unfolding n_def by (metis One_nat_def Suc_leI length_greater_0_conv of_nat_1 of_nat_mono)
  have d: "\<bar>a / n\<bar> \<le> \<bar>a\<bar>" for a
    using n by (simp add: abs_divide divide_le_eq mult_le_cancel_left1)
  have e: "\<bar>py_sum ver xs - sum_list xs\<bar> \<le> 1 / 10 ^ 10"
    by (rule py_sum_near [OF assms(2,3)])
  have "\<bar>sum_list xs / n\<bar> \<le> 7000"
    using sum_list_bound [OF assms(2)] n by (simp add: n_def [symmetric] abs_divide divide_le_eq mult.commute)
  moreover have 1: "\<bar>py_sum ver xs / n - sum_list xs / n\<bar> \<le> 1 / 10 ^ 10"
    using e d [of "py_sum ver xs - sum_list xs"] by (simp add: diff_divide_distrib)
  ultimately have "\<bar>fl (py_sum ver xs / n) - py_sum ver xs / n\<bar> \<le> eps"
    using tolerances(1) by (intro fl_eps) linarith
  then have "\<bar>fl (py_sum ver xs / n) - sum_list xs / n\<bar> \<le> 1 / 10 ^ 10 + eps"
    using 1 by linarith
  then have "\<bar>fl (py_sum ver xs / n) - sum_list xs / n\<bar> \<le> 1 / 10 ^ 9"
    using tolerances(2) by linarith
  then show ?thesis
    using assms(1) by (simp add: near_def avg_or_none_def n_def)
qed

lemma fl_power: "\<bar>x\<bar> \<le> 1000000 \<Longrightarrow> \<bar>fl x - x\<bar> \<le> 1 / 10 ^ 9"
proof -
  assume "\<bar>x\<bar> \<le> 1000000"
  moreover have "pow2 20 = 1048576" "pow2 (20 - 54) = 1 / 2 ^ 34"
    by (simp_all add: power_int_def power_divide)
  ultimately have "\<bar>fl x - x\<bar> \<le> 1 / 2 ^ 34"
    using fl_abs_error [of x 20] by simp
  also have "\<dots> \<le> 1 / 10 ^ 9"
    by simp
  finally show ?thesis .
qed

lemma product_near:
  assumes "\<bar>v' - v\<bar> \<le> 1 / 10 ^ 9" "\<bar>i' - i\<bar> \<le> 1 / 10 ^ 10" "\<bar>v\<bar> \<le> 656" "\<bar>i\<bar> \<le> 1312"
  shows "\<bar>fl (v' * i') - v * i\<bar> \<le> 1 / 10 ^ 5"
proof -
  have i': "\<bar>i'\<bar> \<le> 1313"
    using assms(2,4) tolerances(1) by linarith
  have "\<bar>v' * i' - v * i\<bar> \<le> \<bar>(v' - v) * i'\<bar> + \<bar>v * (i' - i)\<bar>"
    using abs_triangle_ineq [of "(v' - v) * i'" "v * (i' - i)"] by (simp add: algebra_simps)
  also have "\<dots> \<le> 1 / 10 ^ 9 * 1313 + 656 * (1 / 10 ^ 10)"
    unfolding abs_mult using assms i' by (intro add_mono mult_mono) simp_all
  finally have 1: "\<bar>v' * i' - v * i\<bar> \<le> 2 / 10 ^ 6"
    by simp
  have "\<bar>v * i\<bar> \<le> 656 * 1312"
    unfolding abs_mult using assms by (intro mult_mono) simp_all
  then have "\<bar>v' * i'\<bar> \<le> 1000000"
    using 1 tolerances(4) by linarith
  from fl_power [OF this] show ?thesis
    using 1 tolerances(3) by linarith
qed

lemma pias_bounds:
  assumes "decoded pias" and "\<And>d. pia_bounded d \<Longrightarrow> \<bar>f d\<bar> \<le> B"
  shows "\<forall>x \<in> set (map f (map snd pias)). \<bar>x\<bar> \<le> B"
  using decoded_bounds [OF assms(1)] assms(2) by auto

lemma bank_near:
  fixes pias :: "(nat, pia_data) dict" and pibs :: "(nat, pib_data) dict option" and ver :: py_version
  assumes "decoded pias" and "pias \<noteq> []"
  defines "n \<equiv> of_nat (length pias)"
    and "tot \<equiv> \<lambda>f. sum_list (map f (map snd pias))"
    and "agg \<equiv> aggregate_bank ver pias pibs"
  shows "near (1 / 10 ^ 9) (voltage_avg_V agg) (tot voltage_V / n)
    \<and> near (1 / 10 ^ 10) (current_total_A agg) (tot current_A)
    \<and> near (1 / 10 ^ 9) (soc_avg_pct agg) (tot soc_pct / n)
    \<and> near (1 / 10 ^ 10) (bank_remaining_Ah agg) (tot remaining_Ah)
    \<and> near (1 / 10 ^ 10) (bank_nominal_Ah agg) (tot nominal_Ah)
    \<and> near (1 / 10 ^ 5) (power_W agg) (tot voltage_V / n * tot current_A)"
proof -
  let ?xs = "\<lambda>f. map f (map snd pias)"
  note b = pias_bounds [OF assms(1)]
  have bv: "\<forall>x \<in> set (?xs voltage_V). \<bar>x\<bar> \<le> 656" and bi: "\<forall>x \<in> set (?xs current_A). \<bar>x\<bar> \<le> 328"
    by (rule b; simp add: pia_bounded_def)+
  have "\<forall>x \<in> set (?xs voltage_V). \<bar>x\<bar> \<le> 7000" "\<forall>x \<in> set (?xs current_A). \<bar>x\<bar> \<le> 7000"
    "\<forall>x \<in> set (?xs soc_pct). \<bar>x\<bar> \<le> 7000" "\<forall>x \<in> set (?xs remaining_Ah). \<bar>x\<bar> \<le> 7000"
    "\<forall>x \<in> set (?xs nominal_Ah). \<bar>x\<bar> \<le> 7000"
    by (rule b; simp add: pia_bounded_def)+
  note large = this
  have len: "?xs f \<noteq> []" "length (?xs f) \<le> 4" for f :: "pia_data \<Rightarrow> rat"
    using assms(1,2) by (simp_all add: decoded_def)
  have v: "near (1 / 10 ^ 9) (avg_or_none ver (?xs voltage_V)) (tot voltage_V / n)"
    and i: "near (1 / 10 ^ 10) (sum_or_none ver (?xs current_A)) (tot current_A)"
    using avg_near [OF len(1) large(1) len(2), of ver] sum_near [OF len(1) large(2) len(2), of ver]
    by (simp_all add: tot_def n_def)
  have n1: "1 \<le> n" "n \<le> 4"
    using assms(2) len(2) unfolding n_def
    by (metis One_nat_def Suc_leI length_greater_0_conv of_nat_1 of_nat_mono)
      (use len(2) [of voltage_V] in \<open>simp add: of_nat_le_iff [of "length pias" 4, where 'a = rat, simplified]\<close>)
  have "\<bar>tot voltage_V / n\<bar> \<le> 656"
    using sum_list_bound [OF bv] n1 by (simp add: tot_def n_def [symmetric] abs_divide divide_le_eq mult.commute)
  moreover have "\<bar>tot current_A\<bar> \<le> n * 328"
    using sum_list_bound [OF bi] by (simp add: tot_def n_def)
  then have "\<bar>tot current_A\<bar> \<le> 1312"
    using n1 by linarith
  ultimately have *: "\<bar>tot voltage_V / n\<bar> \<le> 656" "\<bar>tot current_A\<bar> \<le> 1312"
    by blast+
  have p: "near (1 / 10 ^ 5) (power_W agg) (tot voltage_V / n * tot current_A)"
  proof -
    obtain va where va: "avg_or_none ver (?xs voltage_V) = Some va" "\<bar>va - tot voltage_V / n\<bar> \<le> 1 / 10 ^ 9"
      using v by (rule nearE)
    obtain ct where ct: "sum_or_none ver (?xs current_A) = Some ct" "\<bar>ct - tot current_A\<bar> \<le> 1 / 10 ^ 10"
      using i by (rule nearE)
    have "power_W agg = Some (fl (va * ct))"
      unfolding agg_def aggregate_bank_def Let_def va(1) ct(1) by simp
    then show ?thesis
      using product_near [OF va(2) ct(2) *] unfolding near_def by (simp only: option.case)
  qed
  show ?thesis
    using v i p avg_near [OF len(1) large(3) len(2), of ver] sum_near [OF len(1) large(4) len(2), of ver]
      sum_near [OF len(1) large(5) len(2), of ver]
    by (simp add: agg_def aggregate_bank_def Let_def tot_def n_def)
qed

text \<open>C33. The bank aggregates of any one to four decoded readings, in either version of \<open>sum\<close>,
  are the exact formulas up to rounding: means and sums within 1e-9 of the exact ones, the power
  within 1e-5 W of mean voltage times total current.\<close>

theorem bank_aggregates_near:
  fixes pias :: "(nat, pia_data) dict" and pibs :: "(nat, pib_data) dict option" and ver :: py_version
  assumes "decoded pias" and "pias \<noteq> []"
  defines "n \<equiv> of_nat (length pias)"
    and "tot \<equiv> \<lambda>f. sum_list (map f (map snd pias))"
    and "agg \<equiv> aggregate_bank ver pias pibs"
  shows "near (1 / 10 ^ 9) (voltage_avg_V agg) (tot voltage_V / n)
    \<and> near (1 / 10 ^ 10) (current_total_A agg) (tot current_A)
    \<and> near (1 / 10 ^ 9) (soc_avg_pct agg) (tot soc_pct / n)
    \<and> near (1 / 10 ^ 10) (bank_remaining_Ah agg) (tot remaining_Ah)
    \<and> near (1 / 10 ^ 10) (bank_nominal_Ah agg) (tot nominal_Ah)
    \<and> near (1 / 10 ^ 5) (power_W agg) (tot voltage_V / n * tot current_A)"
  unfolding assms(3-5) by (rule bank_near [OF assms(1,2)])

lemma sum_or_zero_near:
  assumes "\<forall>x \<in> set xs. \<bar>x\<bar> \<le> 7000" and "length xs \<le> 4"
  shows "\<bar>sum_or_zero ver xs - sum_list xs\<bar> \<le> 1 / 10 ^ 10"
  using py_sum_near [OF assms, of ver] by (simp add: sum_or_zero_def split: if_splits)

lemma filter_near:
  assumes "\<forall>x \<in> snd ` set ps. \<bar>x\<bar> \<le> 328" and "length ps \<le> 4"
  shows "\<bar>sum_or_zero ver (map (\<lambda>(_, c). c) (filter P ps)) - sum_list (map (\<lambda>(_, c). c) (filter P ps))\<bar> \<le> 1 / 10 ^ 10"
    and "\<bar>sum_or_zero ver (map (\<lambda>(_, c). - c) (filter P ps)) - sum_list (map (\<lambda>(_, c). - c) (filter P ps))\<bar> \<le> 1 / 10 ^ 10"
  using assms by (intro sum_or_zero_near; force intro: order_trans [OF length_filter_le])+

text \<open>The charging and discharging splits of one to four decoded readings: the two bank powers
  are non-negative, at most one is positive and their difference is the bank power; the per-pack
  charge and discharge currents are the sums over the packs of that sign, so their difference is
  the net current (all up to rounding), also when packs charge and discharge at once; the smallest
  state of charge is that of a pack and no pack is below it.\<close>

theorem bank_splits:
  fixes pias :: "(nat, pia_data) dict" and pibs :: "(nat, pib_data) dict option" and ver :: py_version
  assumes "decoded pias" and "pias \<noteq> []"
  defines "agg \<equiv> aggregate_bank ver pias pibs"
  shows "(\<exists>p pc pd. power_W agg = Some p \<and> power_charging_W agg = Some pc \<and> power_discharging_W agg = Some pd
        \<and> 0 \<le> pc \<and> 0 \<le> pd \<and> (pc = 0 \<or> pd = 0) \<and> pc - pd = p)
    \<and> (\<exists>ci di. charge_current_total_A agg = Some ci \<and> discharge_current_total_A agg = Some di
        \<and> \<bar>ci - (\<Sum>(_, d) \<leftarrow> pias. max 0 (current_A d))\<bar> \<le> 1 / 10 ^ 10
        \<and> \<bar>di - (\<Sum>(_, d) \<leftarrow> pias. max 0 (- current_A d))\<bar> \<le> 1 / 10 ^ 10)
    \<and> (\<exists>m. soc_min_pct agg = Some m \<and> m \<in> (\<lambda>(_, d). soc_pct d) ` set pias
        \<and> list_all (\<lambda>(_, d). m \<le> soc_pct d) pias)"
proof (intro conjI)
  show "\<exists>p pc pd. power_W agg = Some p \<and> power_charging_W agg = Some pc \<and> power_discharging_W agg = Some pd
        \<and> 0 \<le> pc \<and> 0 \<le> pd \<and> (pc = 0 \<or> pd = 0) \<and> pc - pd = p"
    using assms(2) by (simp add: agg_def aggregate_bank_def Let_def avg_or_none_def sum_or_none_def)
  show "\<exists>m. soc_min_pct agg = Some m \<and> m \<in> (\<lambda>(_, d). soc_pct d) ` set pias
        \<and> list_all (\<lambda>(_, d). m \<le> soc_pct d) pias"
  proof -
    let ?S = "(soc_pct \<circ> snd) ` set pias"
    have "soc_min_pct agg = Some (Min ?S)"
      using assms(2) by (simp add: agg_def aggregate_bank_def Let_def min_or_none_def image_image)
    moreover have "Min ?S \<in> ?S" "\<forall>x \<in> ?S. Min ?S \<le> x"
      using assms(2) by simp_all
    ultimately show ?thesis
      by (intro exI [of _ "Min ?S"]) (auto simp: list_all_iff split_beta)
  qed
  let ?ps = "map (\<lambda>p. (voltage_V p, current_A p)) (map snd pias)"
  have b: "\<forall>x \<in> snd ` set ?ps. \<bar>x\<bar> \<le> 328" "length ?ps \<le> 4"
    using decoded_bounds [OF assms(1)] assms(1) by (auto simp: pia_bounded_def decoded_def)
  have s: "sum_list (map (\<lambda>(_, c). c) (filter (\<lambda>(_, c). 0 < c) (map (\<lambda>p. (voltage_V p, current_A p)) (map snd ds))))
        = (\<Sum>(_, d) \<leftarrow> ds. max 0 (current_A d))"
    "sum_list (map (\<lambda>(_, c). - c) (filter (\<lambda>(_, c). c < 0) (map (\<lambda>p. (voltage_V p, current_A p)) (map snd ds))))
        = (\<Sum>(_, d) \<leftarrow> ds. max 0 (- current_A d))" for ds :: "(nat, pia_data) dict"
    by (induction ds) auto
  show "\<exists>ci di. charge_current_total_A agg = Some ci \<and> discharge_current_total_A agg = Some di
        \<and> \<bar>ci - (\<Sum>(_, d) \<leftarrow> pias. max 0 (current_A d))\<bar> \<le> 1 / 10 ^ 10
        \<and> \<bar>di - (\<Sum>(_, d) \<leftarrow> pias. max 0 (- current_A d))\<bar> \<le> 1 / 10 ^ 10"
    using filter_near [OF b, of ver] assms(2) unfolding s [symmetric]
    by (simp add: agg_def aggregate_bank_def Let_def)
qed

text \<open>Without a fresh reading every aggregate is missing: nothing of the bank is published and
  the energy integrator gets no power.\<close>

theorem bank_empty:
  "aggregate_bank ver [] pibs = \<lparr>voltage_avg_V = None, current_total_A = None, soc_avg_pct = None,
     soc_min_pct = None, soc_spread_pct = None, power_W = None, bank_remaining_Ah = None,
     bank_nominal_Ah = None, min_soh_pct = None, max_cycles = None,
     max_cell_temp_C = max_or_none (cell_temps (case pibs of None \<Rightarrow> [] | Some d \<Rightarrow> map snd d)),
     power_charging_W = None, power_discharging_W = None, charge_current_total_A = None,
     discharge_current_total_A = None, charge_power_total_W = None, discharge_power_total_W = None\<rparr>"
  by (simp add: aggregate_bank_def avg_or_none_def sum_or_none_def min_or_none_def max_or_none_def)

text \<open>Two packs, one charging with 2 A and one discharging with 1 A.\<close>

definition demo_pack :: "int \<Rightarrow> int \<Rightarrow> bytes" where
  "demo_pack pack current =
     encode_pack pack ([5300, current, 10000, 20000, 0, 500 + pack, 1000, 12] @ replicate 10 0)"

definition demo_pias :: "(nat, pia_data) dict" where
  "demo_pias =
     [(1, pia_spec 1 ([5300, 200, 10000, 20000, 0, 501, 1000, 12] @ replicate 10 0) (demo_pack 1 200)),
      (2, pia_spec 2 ([5300, 65436, 10000, 20000, 0, 502, 1000, 12] @ replicate 10 0) (demo_pack 2 65436))]"

lemma demo_decoded: "decoded demo_pias" "demo_pias \<noteq> []" "length demo_pias = 2"
proof -
  have "oct_parse_response (demo_pack pack cur) =
      Inr (Pia (pia_spec pack ([5300, cur, 10000, 20000, 0, 500 + pack, 1000, 12] @ replicate 10 0) (demo_pack pack cur)))"
    if "1 \<le> pack" "pack \<le> 4" "0 \<le> cur" "cur < 65536" for pack cur
    using that unfolding demo_pack_def
    by (subst encode_pack_parses) (auto simp: reg_range_def numeral_eq_Suc)
  from this [of 1 200] this [of 2 65436] show "decoded demo_pias"
    unfolding decoded_def demo_pias_def by auto
qed (simp_all add: demo_pias_def)

theorem bank_aggregates_near_witness:
  "near (1 / 10 ^ 9) (voltage_avg_V (aggregate_bank Py312 demo_pias None))
     (sum_list (map voltage_V (map snd demo_pias)) / of_nat (length demo_pias))"
  using bank_aggregates_near [OF demo_decoded(1,2), of Py312 None] by blast

theorem bank_splits_witness:
  "\<exists>ci di. charge_current_total_A (aggregate_bank Py311 demo_pias None) = Some ci
     \<and> discharge_current_total_A (aggregate_bank Py311 demo_pias None) = Some di
     \<and> \<bar>ci - 2\<bar> \<le> 1 / 10 ^ 9 \<and> \<bar>di - 1\<bar> \<le> 1 / 10 ^ 9"
proof -
  have "map (current_A \<circ> snd) demo_pias = [2, - 1]"
    by (simp add: demo_pias_def pia_spec_def fl_int [of 2, simplified] fl_int [of "-1", simplified])
  then have s: "(\<Sum>(_, d) \<leftarrow> demo_pias. max 0 (current_A d)) = 2"
    "(\<Sum>(_, d) \<leftarrow> demo_pias. max 0 (- current_A d)) = 1"
    by (auto simp: demo_pias_def)
  have "1 / 10 ^ 10 \<le> (1 / 10 ^ 9 :: rat)"
    by simp
  then show ?thesis
    using bank_splits [OF demo_decoded(1,2), of Py311 None] unfolding s by (meson order_trans)
qed

end
