(* ===== verification/Ble_Client.thy ===== *)
theory Ble_Client
  imports Octopus
begin

text \<open>
  \<open>bms/ble_client.py\<close>: the client of the bank's master pack. \<open>bleak\<close> is third-party code: the link
  is its \<open>is_connected\<close> flag, and what it does during one request is a record of its effects
  (whether the write raises, the frames notified in time for the waits, the frames notified later,
  the link afterwards). A wait on an empty queue is a timeout. The queue is the list of notified
  frames; the methods are functions on the state, with the frames they write.
\<close>

datatype ble_error =
    BleakError
  | BleTimeout
  | BleDecode decode_error
  | BleValueError int
  | BleRuntimeError
  | BleOther

text \<open>\<open>link\<close>: no client object, or one with its connection flag.\<close>

record ble_client =
  link :: "bool option"
  notify_q :: "bytes list"

definition ble_init :: ble_client where
  "ble_init = \<lparr>link = None, notify_q = []\<rparr>"

definition is_connected :: "ble_client \<Rightarrow> bool" where
  "is_connected c \<longleftrightarrow> link c = Some True"

section \<open>Connection\<close>

text \<open>The two calls of \<open>connect\<close> and the two of \<open>disconnect\<close>, each with the exception it raises.\<close>

definition ble_connect :: "ble_error option \<Rightarrow> ble_error option \<Rightarrow> ble_client \<Rightarrow> ble_error option \<times> ble_client" where
  "ble_connect connect_err notify_err c =
     (if is_connected c then (None, c)
      else
        case connect_err of
          Some e \<Rightarrow> (Some e, c\<lparr>link := Some False\<rparr>)
        | None \<Rightarrow> (notify_err, c\<lparr>link := Some True\<rparr>))"

fun drain :: "bytes list \<Rightarrow> bytes list" where
  "drain [] = []"
| "drain (f # q) = drain q"

definition ble_disconnect :: "ble_error option \<Rightarrow> ble_error option \<Rightarrow> ble_client \<Rightarrow> ble_error option \<times> ble_client" where
  "ble_disconnect stop_err disconnect_err c =
     (if link c = None then (None, c)
      else
        let err =
          (if is_connected c
           then case stop_err of
                  Some BleakError \<Rightarrow> disconnect_err
                | Some e \<Rightarrow> Some e
                | None \<Rightarrow> disconnect_err
           else None)
        in (err, c\<lparr>link := None, notify_q := drain (notify_q c)\<rparr>))"

definition on_notify :: "bytes \<Rightarrow> ble_client \<Rightarrow> ble_client" where
  "on_notify frame c = c\<lparr>notify_q := notify_q c @ [frame]\<rparr>"

section \<open>Requests\<close>

record ble_event =
  write_error :: "ble_error option"
  arrivals :: "bytes list"
  late :: "bytes list"
  link_after :: bool

definition frame_matches :: "int \<Rightarrow> int \<Rightarrow> bytes \<Rightarrow> bool" where
  "frame_matches slave expected_byte_count response \<longleftrightarrow>
     3 \<le> length response \<and> uint (response ! 0) = slave \<and> uint (response ! 1) = 0x04
     \<and> uint (response ! 2) = expected_byte_count"

text \<open>The loop over the remaining attempts, on the frames it gets from the queue.\<close>

fun await_match :: "nat \<Rightarrow> int \<Rightarrow> int \<Rightarrow> bytes list \<Rightarrow> (ble_error + bytes) \<times> bytes list" where
  "await_match 0 slave bc q = (Inl BleTimeout, q)"
| "await_match (Suc k) slave bc [] = (Inl BleTimeout, [])"
| "await_match (Suc k) slave bc (response # q) =
     (if length response < 3 then await_match k slave bc q
      else if uint (response ! 0) \<noteq> slave then await_match k slave bc q
      else if uint (response ! 1) \<noteq> 0x04 then await_match k slave bc q
      else if uint (response ! 2) \<noteq> bc then await_match k slave bc q
      else (Inr response, q))"

definition ble_request ::
  "bytes \<Rightarrow> int \<Rightarrow> int \<Rightarrow> ble_event \<Rightarrow> ble_client \<Rightarrow> (ble_error + bytes) \<times> bytes list \<times> ble_client"
where
  "ble_request frame slave bc ev c =
     (if \<not> is_connected c then (Inl BleakError, [], c)
      else
        let q = drain (notify_q c) in
        case write_error ev of
          Some e \<Rightarrow> (Inl e, [frame], c\<lparr>link := Some (link_after ev), notify_q := q @ arrivals ev @ late ev\<rparr>)
        | None \<Rightarrow>
            (case await_match 3 slave bc (q @ arrivals ev) of
               (res, rest) \<Rightarrow> (res, [frame], c\<lparr>link := Some (link_after ev), notify_q := rest @ late ev\<rparr>)))"

definition poll_pia :: "int \<Rightarrow> ble_event \<Rightarrow> ble_client \<Rightarrow> (ble_error + pia_data) \<times> bytes list \<times> ble_client" where
  "poll_pia pack ev c =
     (if \<not> (1 \<le> pack \<and> pack \<le> 4) then (Inl (BleValueError pack), [], c)
      else
        case pia_request pack of
          None \<Rightarrow> (Inl BleOther, [], c)
        | Some frame \<Rightarrow>
            (case ble_request frame pack 0x24 ev c of
               (Inl e, w, c') \<Rightarrow> (Inl e, w, c')
             | (Inr response, w, c') \<Rightarrow>
                 (case oct_parse_response response of
                    Inl e \<Rightarrow> (Inl (BleDecode e), w, c')
                  | Inr (Pia d) \<Rightarrow> (Inr d, w, c')
                  | Inr (Pib _) \<Rightarrow> (Inl BleRuntimeError, w, c'))))"

definition poll_pib :: "int \<Rightarrow> ble_event \<Rightarrow> ble_client \<Rightarrow> (ble_error + pib_data) \<times> bytes list \<times> ble_client" where
  "poll_pib pack ev c =
     (if \<not> (1 \<le> pack \<and> pack \<le> 4) then (Inl (BleValueError pack), [], c)
      else
        case pib_request pack of
          None \<Rightarrow> (Inl BleOther, [], c)
        | Some frame \<Rightarrow>
            (case ble_request frame pack 0x34 ev c of
               (Inl e, w, c') \<Rightarrow> (Inl e, w, c')
             | (Inr response, w, c') \<Rightarrow>
                 (case oct_parse_response response of
                    Inl e \<Rightarrow> (Inl (BleDecode e), w, c')
                  | Inr (Pib d) \<Rightarrow> (Inr d, w, c')
                  | Inr (Pia _) \<Rightarrow> (Inl BleRuntimeError, w, c'))))"

section \<open>Lemmas\<close>

lemma drain_empty [simp]: "drain q = []"
  by (induction q) simp_all

lemma await_match_find: "await_match k slave bc q =
    (case find (frame_matches slave bc) (take k q) of
       None \<Rightarrow> (Inl BleTimeout, drop k q)
     | Some r \<Rightarrow> (Inr r, drop (Suc (length (takeWhile (\<lambda>f. \<not> frame_matches slave bc f) q))) q))"
  by (induction k slave bc q rule: await_match.induct)
    (auto simp: frame_matches_def not_less split: option.split)

lemma requests_exist: "1 \<le> pack \<Longrightarrow> pack \<le> 4 \<Longrightarrow> \<exists>f. pia_request pack = Some f"
  "1 \<le> pack \<Longrightarrow> pack \<le> 4 \<Longrightarrow> \<exists>f. pib_request pack = Some f"
  by (simp_all add: pia_request_def pib_request_def build_request_def Let_def)

text \<open>A matching frame that decodes has the type that was asked for, and is that pack's.\<close>

lemma parsed_Inr:
  assumes "oct_parse_response r = Inr d"
  shows "case d of Pia x \<Rightarrow> uint (r ! 2) = PIA_BYTE_COUNT \<and> pia_pack x = uint (r ! 0)
    | Pib x \<Rightarrow> uint (r ! 2) = PIB_BYTE_COUNT \<and> pib_pack x = uint (r ! 0)"
  using assms
  by (auto simp: oct_parse_response_def Let_def parse_pia_def parse_pib_def split: if_splits sum.splits)

lemma matches_Pia:
  assumes "frame_matches pack 0x24 r" and "oct_parse_response r = Inr d"
  shows "\<exists>x. d = Pia x \<and> pia_pack x = pack"
  using parsed_Inr [OF assms(2)] assms(1)
  by (cases d) (auto simp: frame_matches_def PIA_BYTE_COUNT_def PIB_BYTE_COUNT_def)

lemma matches_Pib:
  assumes "frame_matches pack 0x34 r" and "oct_parse_response r = Inr d"
  shows "\<exists>x. d = Pib x \<and> pib_pack x = pack"
  using parsed_Inr [OF assms(2)] assms(1)
  by (cases d) (auto simp: frame_matches_def PIA_BYTE_COUNT_def PIB_BYTE_COUNT_def)

lemma find_matches: "find (frame_matches pack bc) fs = Some r \<Longrightarrow> r \<in> set fs \<and> frame_matches pack bc r"
  by (induction fs) (auto split: if_splits)

section \<open>Properties\<close>

text \<open>C29. A poll of a pack on a live link writes that pack's request once and its outcome is decided
  by the first three frames notified after the request: the first of them with the pack's header is
  decoded, without one it is a timeout, and a bad checksum is a decode error. Frames queued before
  the request never count, data returned is the polled pack's, and the type check after decoding
  never fires.\<close>

theorem poll_exact:
  assumes "1 \<le> pack" and "pack \<le> 4" and "is_connected c" and "write_error ev = None"
  shows "(\<exists>frame res c'. pia_request pack = Some frame \<and> poll_pia pack ev c = (res, [frame], c')
      \<and> (case find (frame_matches pack 0x24) (take 3 (arrivals ev)) of
           None \<Rightarrow> res = Inl BleTimeout
         | Some r \<Rightarrow> (case oct_parse_response r of
              Inl e \<Rightarrow> res = Inl (BleDecode e)
            | Inr d \<Rightarrow> \<exists>x. d = Pia x \<and> pia_pack x = pack \<and> res = Inr x)))
    \<and> (\<exists>frame res c'. pib_request pack = Some frame \<and> poll_pib pack ev c = (res, [frame], c')
      \<and> (case find (frame_matches pack 0x34) (take 3 (arrivals ev)) of
           None \<Rightarrow> res = Inl BleTimeout
         | Some r \<Rightarrow> (case oct_parse_response r of
              Inl e \<Rightarrow> res = Inl (BleDecode e)
            | Inr d \<Rightarrow> \<exists>x. d = Pib x \<and> pib_pack x = pack \<and> res = Inr x)))"
proof -
  obtain f g where f: "pia_request pack = Some f" and g: "pib_request pack = Some g"
    using requests_exist [OF assms(1,2)] by blast
  have a: "poll_pia pack ev c = (case await_match 3 pack 0x24 (arrivals ev) of
      (Inl e, rest) \<Rightarrow> (Inl e, [f], c\<lparr>link := Some (link_after ev), notify_q := rest @ late ev\<rparr>)
    | (Inr r, rest) \<Rightarrow> (case oct_parse_response r of Inl e \<Rightarrow> Inl (BleDecode e) | Inr (Pia d) \<Rightarrow> Inr d
        | Inr (Pib _) \<Rightarrow> Inl BleRuntimeError, [f], c\<lparr>link := Some (link_after ev), notify_q := rest @ late ev\<rparr>))"
    and b: "poll_pib pack ev c = (case await_match 3 pack 0x34 (arrivals ev) of
      (Inl e, rest) \<Rightarrow> (Inl e, [g], c\<lparr>link := Some (link_after ev), notify_q := rest @ late ev\<rparr>)
    | (Inr r, rest) \<Rightarrow> (case oct_parse_response r of Inl e \<Rightarrow> Inl (BleDecode e) | Inr (Pib d) \<Rightarrow> Inr d
        | Inr (Pia _) \<Rightarrow> Inl BleRuntimeError, [g], c\<lparr>link := Some (link_after ev), notify_q := rest @ late ev\<rparr>))"
    using assms by (simp_all add: poll_pia_def poll_pib_def f g ble_request_def Let_def
        split: prod.split sum.split oct_data.split)
  show ?thesis
    unfolding a b f g await_match_find
    by (auto split: option.split sum.split oct_data.split dest: matches_Pia matches_Pib dest!: find_matches)
qed

theorem poll_exact_witness:
  "\<exists>x c'. poll_pia 2 \<lparr>write_error = None, arrivals = [[1, 2], encode_pack 2 (replicate 18 7)], late = [], link_after = True\<rparr>
      \<lparr>link = Some True, notify_q = [encode_pack 2 (replicate 18 9)]\<rparr> = (Inr x, [snd (PIA_FRAMES_LITERAL ! 1)], c')
     \<and> pia_pack x = 2 \<and> cycles x = 7"
proof -
  let ?r = "encode_pack 2 (replicate 18 7)"
  let ?ev = "\<lparr>write_error = None, arrivals = [[1, 2], ?r], late = [], link_after = True\<rparr>"
  let ?c = "\<lparr>link = Some True, notify_q = [encode_pack 2 (replicate 18 9)]\<rparr>"
  have m: "frame_matches 2 0x24 ?r" "\<not> frame_matches 2 0x24 [1, 2]"
    by (simp_all add: frame_matches_def encode_pack_def Let_def)
  have p: "oct_parse_response ?r = Inr (Pia (pia_spec 2 (replicate 18 7) ?r))"
    by (subst encode_pack_parses) (auto simp: reg_range_def)
  have q: "pia_request 2 = Some (snd (PIA_FRAMES_LITERAL ! 1))"
    by code_simp
  have "\<exists>frame res c'. pia_request 2 = Some frame \<and> poll_pia 2 ?ev ?c = (res, [frame], c')
      \<and> (case find (frame_matches 2 0x24) (take 3 (arrivals ?ev)) of
           None \<Rightarrow> res = Inl BleTimeout
         | Some r \<Rightarrow> (case oct_parse_response r of
              Inl e \<Rightarrow> res = Inl (BleDecode e)
            | Inr d \<Rightarrow> \<exists>x. d = Pia x \<and> pia_pack x = 2 \<and> res = Inr x))"
    using poll_exact [of 2 ?c ?ev] by (simp add: is_connected_def)
  then show ?thesis
    using m p q by (auto simp: pia_spec_def)
qed

text \<open>No frame survives a connection: whatever \<open>bleak\<close> raises while disconnecting, the client
  object and the queue are gone, a poll before the next connect raises without writing, and
  a later connect starts with an empty queue.\<close>

theorem disconnect_clean:
  "let (err, c1) = ble_disconnect stop_err disconnect_err c in
     link c1 = None \<and> notify_q c1 = (if link c = None then notify_q c else [])
     \<and> ble_request frame slave bc ev c1 = (Inl BleakError, [], c1)
     \<and> ble_disconnect e1 e2 c1 = (None, c1)
     \<and> (is_connected (snd (ble_connect e3 e4 c1)) \<longleftrightarrow> e3 = None)
     \<and> notify_q (snd (ble_connect e3 e4 c1)) = notify_q c1"
  by (simp add: ble_disconnect_def ble_connect_def ble_request_def is_connected_def Let_def split: option.split)

end
