(* ===== verification/Bms_Service.thy ===== *)
theory Bms_Service
  imports Bms_Aggregator Bms_Discovery Ble_Client Energy Py_Parse
begin

text \<open>
  \<open>bms/service.py\<close>: the service that polls the battery bank, aggregates, integrates energy and
  publishes. The state is a record of the attributes of \<open>BmsService\<close>; \<open>monotonic\<close> readings are
  finite doubles and are inputs, as are the effects of the Bluetooth library, the stop event and the
  outcome of every system call of a save. A method gives the messages it publishes, in order. The
  poll loop runs over a list of cycle inputs; a list that ends before the loop returns is a run in
  progress.
\<close>

section \<open>Configuration\<close>

record bms_cfg =
  b_enabled :: bool
  b_master_mac :: string
  b_pack_count :: int
  b_poll_fast_interval_s :: pyfloat
  b_poll_slow_interval_s :: pyfloat
  b_inter_pack_delay_s :: pyfloat
  b_connect_timeout_s :: pyfloat
  b_reconnect_initial_backoff_s :: pyfloat
  b_reconnect_max_backoff_s :: pyfloat
  b_max_failed_cycles :: int
  b_stale_pack_timeout_s :: pyfloat
  b_mqtt_topic_prefix :: string
  b_mqtt_device_name :: string
  b_mqtt_device_id :: string
  b_energy_persist_path :: string
  b_pack_serials :: "string list"

section \<open>State\<close>

record bms_service =
  pia_state :: "(nat, pia_data) dict"
  pib_state :: "(nat, pib_data) dict"
  pia_seen_t :: "(nat, rat) dict"
  pib_seen_t :: "(nat, rat) dict"
  stale_warned :: "nat set"
  energy_in_Wh :: pyfloat
  energy_out_Wh :: pyfloat
  last_energy_sample_t :: "rat option"
  last_energy_save_t :: rat
  parses_ok :: int
  parses_by_pack :: "(nat, int) dict"
  pia_parses_by_pack :: "(nat, int) dict"
  disk :: energy_fs

definition bms_init :: "rat \<Rightarrow> energy_fs \<Rightarrow> bms_service" where
  "bms_init now fs =
     \<lparr>pia_state = [], pib_state = [], pia_seen_t = [], pib_seen_t = [], stale_warned = {},
      energy_in_Wh = Fin 0, energy_out_Wh = Fin 0, last_energy_sample_t = None,
      last_energy_save_t = now, parses_ok = 0,
      parses_by_pack = map (\<lambda>p. (p, 0)) [1, 2, 3, 4],
      pia_parses_by_pack = map (\<lambda>p. (p, 0)) [1, 2, 3, 4], disk = fs\<rparr>"

section \<open>Energy persistence\<close>

text \<open>The two conversions are made and stored one after the other, inside the \<open>try\<close>.\<close>

definition load_energy_state :: "bms_service \<Rightarrow> bms_service" where
  "load_energy_state svc =
     (case target (disk svc) of
        JsonDoc (PyDict d) \<Rightarrow>
          (case py_float (dget_or d ''energy_in_Wh'' (PyFloat (Fin 0))) of
             None \<Rightarrow> svc
           | Some ein \<Rightarrow>
               (case py_float (dget_or d ''energy_out_Wh'' (PyFloat (Fin 0))) of
                  None \<Rightarrow> svc\<lparr>energy_in_Wh := ein\<rparr>
                | Some eout \<Rightarrow> svc\<lparr>energy_in_Wh := ein, energy_out_Wh := eout\<rparr>))
      | _ \<Rightarrow> svc)"

definition bms_energy_payload :: "rat \<Rightarrow> bms_service \<Rightarrow> pyval" where
  "bms_energy_payload unix svc =
     PyDict [(''energy_in_Wh'', PyFloat (energy_in_Wh svc)),
             (''energy_out_Wh'', PyFloat (energy_out_Wh svc)),
             (''saved_at_unix'', PyFloat (Fin unix))]"

text \<open>Any failure ends in the handler, which removes the temporary file if it can.\<close>

definition save_energy_state :: "(save_op \<Rightarrow> bool) \<Rightarrow> rat \<Rightarrow> bms_service \<Rightarrow> bms_service" where
  "save_energy_state ok unix svc =
     (let fs = disk svc;
          doc = JsonDoc (bms_energy_payload unix svc);
          failed = (\<lambda>fs. svc\<lparr>disk := unlink_tmp ok fs\<rparr>)
      in
        if \<not> ok MkDir then failed fs
        else if \<not> ok CreateTmp then failed fs
        else if \<not> ok WriteTmp then failed (fs\<lparr>tmp := Some BadJson\<rparr>)
        else if \<not> ok Replace then failed (fs\<lparr>tmp := Some doc\<rparr>)
        else svc\<lparr>disk := fs\<lparr>target := doc, tmp := None\<rparr>\<rparr>)"

section \<open>Messages\<close>

text \<open>\<open>BFixed4 x\<close> is \<open>f"{x:.4f}"\<close>, \<open>BInt n\<close> is \<open>str(n)\<close>.\<close>

datatype bms_payload = BText string | BFixed4 pyfloat | BInt int | BJson pyval

record bms_msg =
  m_topic :: string
  m_payload :: bms_payload
  m_qos :: int
  m_retain :: bool

datatype bms_val = VFloat pyfloat | VInt int

definition bms_availability_topic :: "bms_cfg \<Rightarrow> string" where
  "bms_availability_topic cfg = b_mqtt_topic_prefix cfg @ ''/availability''"

definition bms_publish_discovery :: "bms_cfg \<Rightarrow> bms_msg list" where
  "bms_publish_discovery cfg =
     map (\<lambda>e. \<lparr>m_topic = discovery_topic_for e ''homeassistant'',
            m_payload = BJson (build_discovery_payload e (b_mqtt_topic_prefix cfg)
              (b_mqtt_device_id cfg) (b_mqtt_device_name cfg) (bms_availability_topic cfg)),
            m_qos = 1, m_retain = True\<rparr>) all_bms_entities
     @ [\<lparr>m_topic = bms_availability_topic cfg, m_payload = BText ''online'', m_qos = 1, m_retain = True\<rparr>]
     @ map (\<lambda>(i, serial).
          \<lparr>m_topic = b_mqtt_topic_prefix cfg @ ''/'' @ (''bluesun_pack'' @ show2 i @ ''_serial'') @ ''/state'',
           m_payload = BText serial, m_qos = 1, m_retain = True\<rparr>) (enum1 (b_pack_serials cfg))"

definition handle_mqtt_connect :: "bms_cfg \<Rightarrow> int \<Rightarrow> bool \<Rightarrow> bms_msg list \<times> bool" where
  "handle_mqtt_connect cfg rc was_set =
     (if rc \<noteq> 0 then ([], was_set) else (bms_publish_discovery cfg, True))"

definition publish_state :: "bms_cfg \<Rightarrow> entity_def \<Rightarrow> bms_val option \<Rightarrow> bms_msg list" where
  "publish_state cfg e v =
     (case v of
        None \<Rightarrow> []
      | Some x \<Rightarrow>
          [\<lparr>m_topic = state_topic_for e (b_mqtt_topic_prefix cfg),
            m_payload = (case x of VFloat f \<Rightarrow> BFixed4 f | VInt n \<Rightarrow> BInt n),
            m_qos = 0, m_retain = False\<rparr>])"

definition entity_by_object :: "string \<Rightarrow> entity_def option" where
  "entity_by_object object_id = find (\<lambda>e. e_object_id e = object_id) all_bms_entities"

definition pub :: "bms_cfg \<Rightarrow> string \<Rightarrow> bms_val option \<Rightarrow> bms_msg list" where
  "pub cfg object_id v =
     (case entity_by_object object_id of None \<Rightarrow> [] | Some e \<Rightarrow> publish_state cfg e v)"

abbreviation flt :: "rat \<Rightarrow> bms_val option" where
  "flt x \<equiv> Some (VFloat (Fin x))"

abbreviation flt_opt :: "rat option \<Rightarrow> bms_val option" where
  "flt_opt v \<equiv> map_option (\<lambda>x. VFloat (Fin x)) v"

definition publish_pia_state :: "bms_cfg \<Rightarrow> pia_data \<Rightarrow> bms_msg list" where
  "publish_pia_state cfg p =
     (let pp = ''pack'' @ show2 (nat (pia_pack p)) in
      pub cfg (''bluesun_'' @ pp @ ''_voltage'') (flt (voltage_V p))
      @ pub cfg (''bluesun_'' @ pp @ ''_current'') (flt (current_A p))
      @ pub cfg (''bluesun_'' @ pp @ ''_soc'') (flt (soc_pct p))
      @ pub cfg (''bluesun_'' @ pp @ ''_soh'') (flt (soh_pct p))
      @ pub cfg (''bluesun_'' @ pp @ ''_cycles'') (Some (VInt (cycles p)))
      @ pub cfg (''bluesun_'' @ pp @ ''_remaining_ah'') (flt (remaining_Ah p))
      @ pub cfg (''bluesun_'' @ pp @ ''_nominal_ah'') (flt (nominal_Ah p)))"

definition publish_pib_state :: "bms_cfg \<Rightarrow> pib_data \<Rightarrow> bms_msg list" where
  "publish_pib_state cfg p =
     (let pp = ''pack'' @ show2 (nat (pib_pack p)) in
      pub cfg (''bluesun_'' @ pp @ ''_cell_v_min'') (Some (VInt (cell_v_min_mV p)))
      @ pub cfg (''bluesun_'' @ pp @ ''_cell_v_max'') (Some (VInt (cell_v_max_mV p)))
      @ pub cfg (''bluesun_'' @ pp @ ''_cell_v_avg'') (Some (VInt (cell_v_avg_mV p)))
      @ pub cfg (''bluesun_'' @ pp @ ''_cell_v_delta'') (Some (VInt (cell_v_delta_mV p)))
      @ concat (map (\<lambda>(i, t). pub cfg (''bluesun_'' @ pp @ ''_cell_temp_'' @ show_nat i) (flt_opt t))
          (enum1 (cell_temp_C p)))
      @ pub cfg (''bluesun_'' @ pp @ ''_env_temp'') (flt_opt (env_temp_C p))
      @ pub cfg (''bluesun_'' @ pp @ ''_pcb_temp'') (flt_opt (pcb_temp_C p)))"

definition bank_values :: "bank_aggregates \<Rightarrow> (string \<times> bms_val option) list" where
  "bank_values agg =
     [(''bluesun_bank_voltage_avg'', flt_opt (voltage_avg_V agg)),
      (''bluesun_bank_current_total'', flt_opt (current_total_A agg)),
      (''bluesun_bank_soc_avg'', flt_opt (soc_avg_pct agg)),
      (''bluesun_bank_soc_min'', flt_opt (soc_min_pct agg)),
      (''bluesun_bank_soc_spread'', flt_opt (soc_spread_pct agg)),
      (''bluesun_bank_power'', flt_opt (power_W agg)),
      (''bluesun_bank_power_charging'', flt_opt (power_charging_W agg)),
      (''bluesun_bank_power_discharging'', flt_opt (power_discharging_W agg)),
      (''bluesun_bank_remaining_ah'', flt_opt (bank_remaining_Ah agg)),
      (''bluesun_bank_nominal_ah'', flt_opt (bank_nominal_Ah agg)),
      (''bluesun_bank_min_soh'', flt_opt (min_soh_pct agg)),
      (''bluesun_bank_max_cycles'', map_option VInt (max_cycles agg)),
      (''bluesun_bank_max_cell_temp'', flt_opt (max_cell_temp_C agg)),
      (''bluesun_bank_charge_current_total'', flt_opt (charge_current_total_A agg)),
      (''bluesun_bank_discharge_current_total'', flt_opt (discharge_current_total_A agg)),
      (''bluesun_bank_charge_power_total'', flt_opt (charge_power_total_W agg)),
      (''bluesun_bank_discharge_power_total'', flt_opt (discharge_power_total_W agg))]"

definition publish_bank_state :: "bms_cfg \<Rightarrow> bank_aggregates \<Rightarrow> bms_msg list" where
  "publish_bank_state cfg agg = concat (map (\<lambda>(k, v). pub cfg k v) (bank_values agg))"

section \<open>Fresh readings\<close>

definition age :: "rat \<Rightarrow> (nat, rat) dict \<Rightarrow> nat \<Rightarrow> rat" where
  "age now seen pack = fl (now - dget_or seen pack 0)"

definition fresh_states :: "bms_cfg \<Rightarrow> rat \<Rightarrow> bms_service
    \<Rightarrow> (nat, pia_data) dict \<times> (nat, pib_data) dict \<times> bms_service" where
  "fresh_states cfg now svc =
     (let pia_cutoff = b_stale_pack_timeout_s cfg;
          pib_cutoff = pmul (Fin 2) (b_poll_slow_interval_s cfg);
          fresh = (\<lambda>pack. ple (Fin (age now (pia_seen_t svc) pack)) pia_cutoff);
          stale = filter (\<lambda>pack. \<not> fresh pack) (dkeys (pia_state svc))
      in (filter (\<lambda>(pack, _). fresh pack) (pia_state svc),
          filter (\<lambda>(pack, _). ple (Fin (age now (pib_seen_t svc) pack)) pib_cutoff) (pib_state svc),
          svc\<lparr>stale_warned := stale_warned svc \<union> set stale\<rparr>))"

section \<open>Energy integration\<close>

definition pub_energy :: "bms_cfg \<Rightarrow> bms_service \<Rightarrow> bms_msg list" where
  "pub_energy cfg svc =
     pub cfg ''bluesun_battery_energy_in'' (Some (VFloat (energy_in_Wh svc)))
     @ pub cfg ''bluesun_battery_energy_out'' (Some (VFloat (energy_out_Wh svc)))"

definition integrate_energy ::
  "bms_cfg \<Rightarrow> rat \<Rightarrow> (save_op \<Rightarrow> bool) \<Rightarrow> rat \<Rightarrow> bank_aggregates \<Rightarrow> bms_service \<Rightarrow> bms_msg list \<times> bms_service"
where
  "integrate_energy cfg now ok unix agg svc =
     (case (last_energy_sample_t svc, power_charging_W agg, power_discharging_W agg) of
        (Some prev, Some pc, Some pd) \<Rightarrow>
          let dt_s = fl (now - prev);
              svc1 = svc\<lparr>last_energy_sample_t := Some now\<rparr>;
              svc2 =
                (if 0 < dt_s \<and> dt_s < 60
                 then
                   let dt_h = fl (dt_s / 3600) in
                   svc1\<lparr>energy_in_Wh := padd (energy_in_Wh svc1) (pmul (Fin pc) (Fin dt_h)),
                        energy_out_Wh := padd (energy_out_Wh svc1) (pmul (Fin pd) (Fin dt_h))\<rparr>
                 else svc1);
              svc3 =
                (if 30 \<le> fl (now - last_energy_save_t svc2)
                 then (save_energy_state ok unix svc2)\<lparr>last_energy_save_t := now\<rparr>
                 else svc2)
          in (pub_energy cfg svc2, svc3)
      | _ \<Rightarrow> (pub_energy cfg svc, svc\<lparr>last_energy_sample_t := Some now\<rparr>))"

section \<open>The poll loop\<close>

text \<open>Inputs of one poll: what the link does, the clock after it, the stop event after the pause.\<close>

record poll_in =
  pi_event :: ble_event
  pi_time :: rat
  pi_stop :: bool

datatype round_end = RoundDone | RoundReturn | RoundRaise ble_error

definition bump :: "nat \<Rightarrow> (nat, int) dict \<Rightarrow> (nat, int) dict" where
  "bump pack d = dset pack (dget_or d pack 0 + 1) d"

definition pia_success :: "nat \<Rightarrow> pia_data \<Rightarrow> rat \<Rightarrow> bms_service \<Rightarrow> bms_service" where
  "pia_success pack d now svc =
     svc\<lparr>pia_state := dset pack d (pia_state svc),
         pia_seen_t := dset pack now (pia_seen_t svc),
         stale_warned := stale_warned svc - {pack},
         parses_ok := parses_ok svc + 1,
         parses_by_pack := bump pack (parses_by_pack svc),
         pia_parses_by_pack := bump pack (pia_parses_by_pack svc)\<rparr>"

definition pib_success :: "nat \<Rightarrow> pib_data \<Rightarrow> rat \<Rightarrow> bms_service \<Rightarrow> bms_service" where
  "pib_success pack d now svc =
     svc\<lparr>pib_state := dset pack d (pib_state svc),
         pib_seen_t := dset pack now (pib_seen_t svc),
         parses_ok := parses_ok svc + 1,
         parses_by_pack := bump pack (parses_by_pack svc)\<rparr>"

text \<open>\<open>except (TimeoutError, BleakError, DecodeError)\<close>.\<close>

fun caught :: "ble_error \<Rightarrow> bool" where
  "caught BleTimeout = True"
| "caught BleakError = True"
| "caught (BleDecode _) = True"
| "caught _ = False"

text \<open>A round over the packs: a failed poll leaves the loop when the link is gone, an exception that
  is not caught leaves the loop with it, and the stop event is looked at after every pack. The
  result has the number of parses and the messages of the round.\<close>

fun poll_round ::
  "(int \<Rightarrow> ble_event \<Rightarrow> ble_client \<Rightarrow> (ble_error + 'd) \<times> bytes list \<times> ble_client)
   \<Rightarrow> (nat \<Rightarrow> 'd \<Rightarrow> rat \<Rightarrow> bms_service \<Rightarrow> bms_service) \<Rightarrow> ('d \<Rightarrow> bms_msg list)
   \<Rightarrow> (nat \<Rightarrow> poll_in) \<Rightarrow> nat list \<Rightarrow> bms_service \<times> ble_client
   \<Rightarrow> round_end \<times> nat \<times> bms_msg list \<times> bms_service \<times> ble_client"
where
  "poll_round poll success publish inp [] (svc, c) = (RoundDone, 0, [], svc, c)"
| "poll_round poll success publish inp (pack # packs) (svc, c) =
     (case poll (int pack) (pi_event (inp pack)) c of
        (Inr d, _, c1) \<Rightarrow>
          let svc1 = success pack d (pi_time (inp pack)) svc in
          if pi_stop (inp pack) then (RoundReturn, 1, publish d, svc1, c1)
          else
            (case poll_round poll success publish inp packs (svc1, c1) of
               (r, n, msgs, svc2, c2) \<Rightarrow> (r, n + 1, publish d @ msgs, svc2, c2))
      | (Inl e, _, c1) \<Rightarrow>
          if \<not> caught e then (RoundRaise e, 0, [], svc, c1)
          else if \<not> is_connected c1 then (RoundReturn, 0, [], svc, c1)
          else if pi_stop (inp pack) then (RoundReturn, 0, [], svc, c1)
          else poll_round poll success publish inp packs (svc, c1))"

text \<open>Inputs of a cycle, in the order they are read.\<close>

record cycle_in =
  ci_stop :: bool
  ci_start :: rat
  ci_pia :: "nat \<Rightarrow> poll_in"
  ci_pib :: "nat \<Rightarrow> poll_in"
  ci_fresh_now :: rat
  ci_energy_now :: rat
  ci_save_ok :: "save_op \<Rightarrow> bool"
  ci_unix :: rat
  ci_end :: rat
  ci_stop_in_wait :: bool

text \<open>The local variables \<open>last_slow\<close> and \<open>failed_cycles\<close>.\<close>

record loop_vars =
  last_slow :: rat
  failed_cycles :: int

datatype cycle_end = Again | LoopReturn | LoopRaise ble_error

definition telemetry :: "bms_cfg \<Rightarrow> bms_service \<Rightarrow> bms_msg list" where
  "telemetry cfg svc =
     pub cfg ''bluesun_octopus_parses_ok'' (Some (VInt (parses_ok svc)))
     @ concat (map (\<lambda>(p, n). pub cfg (''bluesun_pack'' @ show2 p @ ''_parses'') (Some (VInt n))) (parses_by_pack svc))
     @ concat (map (\<lambda>(p, n). pub cfg (''bluesun_pack'' @ show2 p @ ''_soc_polls'') (Some (VInt n))) (pia_parses_by_pack svc))"

definition finish_cycle :: "py_version \<Rightarrow> bms_cfg \<Rightarrow> cycle_in \<Rightarrow> bms_service \<Rightarrow> bms_msg list \<times> bms_service" where
  "finish_cycle ver cfg ci svc =
     (case fresh_states cfg (ci_fresh_now ci) svc of
        (pias, pibs, svc1) \<Rightarrow>
          let agg = aggregate_bank ver pias (Some pibs) in
          (case integrate_energy cfg (ci_energy_now ci) (ci_save_ok ci) (ci_unix ci) agg svc1 of
             (emsgs, svc2) \<Rightarrow> (publish_bank_state cfg agg @ emsgs @ telemetry cfg svc2, svc2)))"

definition pack_numbers :: "bms_cfg \<Rightarrow> nat list" where
  "pack_numbers cfg = [1..<Suc (nat (b_pack_count cfg))]"

definition poll_cycle ::
  "py_version \<Rightarrow> bms_cfg \<Rightarrow> cycle_in \<Rightarrow> loop_vars \<Rightarrow> bms_service \<times> ble_client
   \<Rightarrow> cycle_end \<times> bms_msg list \<times> loop_vars \<times> bms_service \<times> ble_client"
where
  "poll_cycle ver cfg ci lv st =
     (case poll_round poll_pia pia_success (publish_pia_state cfg) (ci_pia ci) (pack_numbers cfg) st of
        (RoundReturn, _, m1, st1) \<Rightarrow> (LoopReturn, m1, lv, st1)
      | (RoundRaise e, _, m1, st1) \<Rightarrow> (LoopRaise e, m1, lv, st1)
      | (RoundDone, n1, m1, st1) \<Rightarrow>
          let slow = ple (b_poll_slow_interval_s cfg) (Fin (fl (ci_start ci - last_slow lv)));
              lv1 = (if slow then lv\<lparr>last_slow := ci_start ci\<rparr> else lv)
          in
            (case (if slow
                   then poll_round poll_pib pib_success (publish_pib_state cfg) (ci_pib ci) (pack_numbers cfg) st1
                   else (RoundDone, 0, [], st1)) of
               (RoundReturn, _, m2, st2) \<Rightarrow> (LoopReturn, m1 @ m2, lv1, st2)
             | (RoundRaise e, _, m2, st2) \<Rightarrow> (LoopRaise e, m1 @ m2, lv1, st2)
             | (RoundDone, n2, m2, svc2, c2) \<Rightarrow>
                 let lv2 = lv1\<lparr>failed_cycles := if n1 + n2 = 0 then failed_cycles lv1 + 1 else 0\<rparr> in
                 if n1 + n2 = 0 \<and> b_max_failed_cycles cfg \<le> failed_cycles lv2
                 then (LoopReturn, m1 @ m2, lv2, svc2, c2)
                 else
                   (case finish_cycle ver cfg ci svc2 of
                      (m3, svc3) \<Rightarrow>
                        let elapsed = Fin (fl (ci_end ci - ci_start ci));
                            remaining = padd (b_poll_fast_interval_s cfg) (pneg elapsed)
                        in (if plt (Fin 0) remaining \<and> ci_stop_in_wait ci then LoopReturn else Again,
                            m1 @ m2 @ m3, lv2, svc3, c2))))"

text \<open>The loop over the inputs that are there: the outcome \<open>Again\<close> is a run in progress.\<close>

fun poll_cycles ::
  "py_version \<Rightarrow> bms_cfg \<Rightarrow> cycle_in list \<Rightarrow> loop_vars \<Rightarrow> bms_service \<times> ble_client
   \<Rightarrow> cycle_end \<times> bms_msg list \<times> bms_service \<times> ble_client"
where
  "poll_cycles ver cfg [] lv st = (Again, [], st)"
| "poll_cycles ver cfg (ci # ins) lv st =
     (if ci_stop ci then (LoopReturn, [], st)
      else
        case poll_cycle ver cfg ci lv st of
          (Again, msgs, lv1, st1) \<Rightarrow>
            (case poll_cycles ver cfg ins lv1 st1 of (r, ms, st2) \<Rightarrow> (r, msgs @ ms, st2))
        | (r, msgs, _, st1) \<Rightarrow> (r, msgs, st1))"

definition poll_loop ::
  "py_version \<Rightarrow> bms_cfg \<Rightarrow> cycle_in list \<Rightarrow> bms_service \<times> ble_client
   \<Rightarrow> cycle_end \<times> bms_msg list \<times> bms_service \<times> ble_client"
where
  "poll_loop ver cfg ins st = poll_cycles ver cfg ins \<lparr>last_slow = 0, failed_cycles = 0\<rparr> st"

section \<open>Sessions and backoff\<close>

text \<open>One iteration of \<open>_run_async\<close>: the outcome of the connection, the cycles, what the disconnect
  raises, and whether the stop event comes while waiting for the backoff.\<close>

record session_in =
  si_stop :: bool
  si_connect_err :: "ble_error option"
  si_notify_err :: "ble_error option"
  si_cycles :: "cycle_in list"
  si_stop_in_wait :: bool

text \<open>\<open>min(a, b)\<close> of Python.\<close>

definition pmin :: "pyfloat \<Rightarrow> pyfloat \<Rightarrow> pyfloat" where
  "pmin a b = (if plt b a then b else a)"

text \<open>The waits made, in order, with the messages and the final state. A session that is still
  running, or a list of sessions that ends, is a run in progress.\<close>

fun run_async ::
  "py_version \<Rightarrow> bms_cfg \<Rightarrow> session_in list \<Rightarrow> pyfloat \<Rightarrow> bms_service
   \<Rightarrow> pyfloat list \<times> bms_msg list \<times> bms_service"
where
  "run_async ver cfg [] backoff svc = ([], [], svc)"
| "run_async ver cfg (s # ss) backoff svc =
     (if si_stop s then ([], [], svc)
      else
        case ble_connect (si_connect_err s) (si_notify_err s) ble_init of
          (err, c) \<Rightarrow>
            (case (if err = None
                   then (case poll_loop ver cfg (si_cycles s) (svc, c) of
                           (r, msgs, svc1, _) \<Rightarrow> (r = Again, b_reconnect_initial_backoff_s cfg, msgs, svc1))
                   else (False, backoff, [], svc)) of
               (running, b1, msgs, svc1) \<Rightarrow>
                 if running then ([], msgs, svc1)
                 else if si_stop_in_wait s then ([b1], msgs, svc1)
                 else
                   (case run_async ver cfg ss (pmin (pmul b1 (Fin 2)) (b_reconnect_max_backoff_s cfg)) svc1 of
                      (ws, ms, svc2) \<Rightarrow> (b1 # ws, msgs @ ms, svc2))))"

text \<open>The body of the service thread.\<close>

definition bms_run :: "py_version \<Rightarrow> bms_cfg \<Rightarrow> session_in list \<Rightarrow> bms_service \<Rightarrow> pyfloat list \<times> bms_msg list \<times> bms_service" where
  "bms_run ver cfg ss svc = run_async ver cfg ss (b_reconnect_initial_backoff_s cfg) svc"

section \<open>Life cycle\<close>

datatype bms_call =
    BUsernamePw string string
  | BWill bms_msg
  | BOnConnect
  | BConnect string int
  | BLoopStart
  | BPublish bms_msg
  | BLoopStop
  | BDisconnect

datatype start_error = AlreadyStarted | MqttNotConnected | MqttConnectRaised

definition connect_mqtt :: "bms_cfg \<Rightarrow> string \<Rightarrow> string \<Rightarrow> string \<Rightarrow> int \<Rightarrow> bms_call list" where
  "connect_mqtt cfg user pw mqtt_host mqtt_port =
     [BUsernamePw user pw,
      BWill \<lparr>m_topic = bms_availability_topic cfg, m_payload = BText ''offline'', m_qos = 1, m_retain = True\<rparr>,
      BOnConnect, BConnect mqtt_host mqtt_port, BLoopStart]"

text \<open>\<open>connect\<close> of the client may raise; the event of the connection may not come within 10 s. The
  result says whether the thread was started.\<close>

definition bms_start ::
  "bms_cfg \<Rightarrow> bms_call list \<Rightarrow> bool \<Rightarrow> bool \<Rightarrow> bool \<Rightarrow> bms_service
   \<Rightarrow> start_error + bool \<times> bms_call list \<times> bms_service"
where
  "bms_start cfg calls connect_ok event_set started svc =
     (if started then Inl AlreadyStarted
      else if \<not> b_enabled cfg then Inr (False, [], svc)
      else
        let svc1 = load_energy_state svc in
        if \<not> connect_ok then Inl MqttConnectRaised
        else if \<not> event_set then Inl MqttNotConnected
        else Inr (True, calls, svc1))"

definition bms_stop :: "bms_cfg \<Rightarrow> (save_op \<Rightarrow> bool) \<Rightarrow> rat \<Rightarrow> bool \<Rightarrow> bms_service \<Rightarrow> bms_call list \<times> bool \<times> bms_service" where
  "bms_stop cfg ok unix started svc =
     (if \<not> started then ([], False, svc)
      else
        ([BPublish \<lparr>m_topic = bms_availability_topic cfg, m_payload = BText ''offline'', m_qos = 0, m_retain = True\<rparr>,
          BLoopStop, BDisconnect], False, save_energy_state ok unix svc))"

end
