(* ===== verification/Bms_Runs.thy ===== *)
theory Bms_Runs
  imports Bms_Service
begin

text \<open>
  What the runs of the battery service keep and promise: a locale for the properties that every
  step respects, its interpretations (the parse counters and the cache, the energy counters), the
  return of the poll loop on a dead link, the backoff between connections, the published messages
  and the persistence of the energy.
\<close>

section \<open>What every run does to the state\<close>

definition reading_pia :: "nat \<Rightarrow> pia_data \<Rightarrow> bool" where
  "reading_pia p d \<longleftrightarrow> 1 \<le> p \<and> p \<le> 4 \<and> pia_pack d = int p \<and> (\<exists>r. oct_parse_response r = Inr (Pia d))"

definition reading_pib :: "nat \<Rightarrow> pib_data \<Rightarrow> bool" where
  "reading_pib p d \<longleftrightarrow> 1 \<le> p \<and> p \<le> 4 \<and> pib_pack d = int p \<and> (\<exists>r. oct_parse_response r = Inr (Pib d))"

lemma request_Inr:
  assumes "ble_request frame slave bc ev c = (Inr r, w, c')"
  shows "frame_matches slave bc r"
  using assms unfolding ble_request_def await_match_find Let_def
  by (auto dest!: find_matches split: if_splits option.splits prod.splits)

lemma poll_pia_Inr:
  assumes "poll_pia (int p) ev c = (Inr d, w, c')"
  shows "reading_pia p d"
proof -
  from assms obtain frame r where p: "1 \<le> int p" "int p \<le> 4"
      and r: "ble_request frame (int p) 0x24 ev c = (Inr r, w, c')" and d: "oct_parse_response r = Inr (Pia d)"
    unfolding poll_pia_def by (auto split: if_splits option.splits prod.splits sum.splits oct_data.splits)
  show ?thesis
    using matches_Pia [OF request_Inr [OF r] d] p d by (auto simp: reading_pia_def)
qed

lemma poll_pib_Inr:
  assumes "poll_pib (int p) ev c = (Inr d, w, c')"
  shows "reading_pib p d"
proof -
  from assms obtain frame r where p: "1 \<le> int p" "int p \<le> 4"
      and r: "ble_request frame (int p) 0x34 ev c = (Inr r, w, c')" and d: "oct_parse_response r = Inr (Pib d)"
    unfolding poll_pib_def by (auto split: if_splits option.splits prod.splits sum.splits oct_data.splits)
  show ?thesis
    using matches_Pib [OF request_Inr [OF r] d] p d by (auto simp: reading_pib_def)
qed

text \<open>The contract of a property of runs: a preorder on states that the three kinds of steps respect.
  Every loop of the service then respects it.\<close>

locale service_run =
  fixes R :: "bms_service \<Rightarrow> bms_service \<Rightarrow> bool"
  assumes stay: "R s s"
    and comp: "R s t \<Longrightarrow> R t u \<Longrightarrow> R s u"
    and pia_step: "reading_pia p d \<Longrightarrow> R s (pia_success p d now s)"
    and pib_step: "reading_pib p d' \<Longrightarrow> R s (pib_success p d' now s)"
    and finish_step: "R s (snd (finish_cycle ver cfg ci s))"
begin

lemma round_run:
  assumes "\<And>p ev c d w c' s now. poll (int p) ev c = (Inr d, w, c') \<Longrightarrow> R s (success p d now s)"
  shows "poll_round poll success publish inp packs (svc, c) = (r, n, ms, svc', c') \<Longrightarrow> R svc svc'"
proof (induction packs arbitrary: svc c r n ms)
  case (Cons p ps)
  obtain res w c1 where p: "poll (int p) (pi_event (inp p)) c = (res, w, c1)"
    by (cases "poll (int p) (pi_event (inp p)) c") auto
  show ?case
  proof (cases res)
    case (Inl e)
    then show ?thesis
      using Cons p stay by (auto split: if_splits)
  next
    case (Inr d)
    have s: "R svc (success p d (pi_time (inp p)) svc)"
      using assms p Inr by blast
    then show ?thesis
      using Cons p Inr by (auto simp: Let_def split: if_splits prod.splits intro: comp [OF s])
  qed
qed (simp add: stay)

lemma pia_round_run:
  "poll_round poll_pia pia_success publish inp packs (svc, c) = (r, n, ms, svc', c') \<Longrightarrow> R svc svc'"
  by (rule round_run [OF pia_step [OF poll_pia_Inr]])

lemma pib_round_run:
  "poll_round poll_pib pib_success publish inp packs (svc, c) = (r, n, ms, svc', c') \<Longrightarrow> R svc svc'"
  by (rule round_run [OF pib_step [OF poll_pib_Inr]])

lemma cycle_run:
  assumes "poll_cycle ver cfg ci lv (svc, c) = (r, ms, lv', svc', c')"
  shows "R svc svc'"
proof -
  obtain r1 n1 m1 svc1 c1 where 1: "poll_round poll_pia pia_success (publish_pia_state cfg) (ci_pia ci) (pack_numbers cfg) (svc, c) = (r1, n1, m1, svc1, c1)"
    by (metis prod_cases5)
  have R1: "R svc svc1"
    by (rule pia_round_run [OF 1])
  show ?thesis
  proof (cases "r1 = RoundDone")
    case False
    then show ?thesis
      using assms R1 by (cases r1) (simp_all add: poll_cycle_def 1)
  next
    case True
    let ?slow = "ple (b_poll_slow_interval_s cfg) (Fin (fl (ci_start ci - last_slow lv)))"
    obtain r2 n2 m2 svc2 c2 where 2: "(if ?slow
        then poll_round poll_pib pib_success (publish_pib_state cfg) (ci_pib ci) (pack_numbers cfg) (svc1, c1)
        else (RoundDone, 0, [], svc1, c1)) = (r2, n2, m2, svc2, c2)"
      by (metis prod_cases5)
    have R2: "R svc1 svc2"
      using 2 stay by (auto split: if_splits intro: pib_round_run)
    obtain m3 svc3 where 3: "finish_cycle ver cfg ci svc2 = (m3, svc3)"
      by fastforce
    have R3: "R svc2 svc3"
      using finish_step [of svc2 ver cfg ci] by (simp add: 3)
    have "svc' = svc2 \<or> svc' = svc3"
      using assms True by (cases r2) (auto simp: poll_cycle_def 1 2 3 Let_def split: if_splits)
    then show ?thesis
      using comp [OF R1 R2] comp [OF comp [OF R1 R2] R3] by blast
  qed
qed

lemma cycles_run: "poll_cycles ver cfg ins lv (svc, c) = (r, ms, svc', c') \<Longrightarrow> R svc svc'"
proof (induction ins arbitrary: lv svc c r ms)
  case (Cons ci ins)
  obtain r1 m1 lv1 svc1 c1 where 1: "poll_cycle ver cfg ci lv (svc, c) = (r1, m1, lv1, svc1, c1)"
    by (metis prod_cases5)
  note s = cycle_run [OF 1]
  show ?case
    using Cons stay s by (cases r1) (auto simp: 1 split: if_splits prod.splits intro: comp [OF s])
qed (simp add: stay)

lemma async_run: "run_async ver cfg ss backoff svc = (ws, ms, svc') \<Longrightarrow> R svc svc'"
proof (induction ss arbitrary: backoff svc ws ms)
  case (Cons s ss)
  obtain err c where c: "ble_connect (si_connect_err s) (si_notify_err s) ble_init = (err, c)"
    by fastforce
  obtain r m svc1 c1 where l: "poll_loop ver cfg (si_cycles s) (svc, c) = (r, m, svc1, c1)"
    by (metis prod_cases4)
  have R1: "R svc svc1"
    using l unfolding poll_loop_def by (rule cycles_run)
  show ?case
  proof (cases "err = None")
    case True
    then show ?thesis
      using Cons R1 stay by (auto simp: c l split: if_splits prod.splits intro: comp [OF R1])
  next
    case False
    then show ?thesis
      using Cons stay by (auto simp: c split: if_splits prod.splits)
  qed
qed (simp add: stay)

end

section \<open>Counters and cache\<close>

definition cache_ok :: "(nat \<Rightarrow> 'd \<Rightarrow> bool) \<Rightarrow> (nat, 'd) dict \<Rightarrow> bool" where
  "cache_ok good d \<longleftrightarrow> distinct (dkeys d) \<and> (\<forall>(p, x) \<in> set d. good p x)"

definition total_count :: "(nat, int) dict \<Rightarrow> int" where
  "total_count d = sum_list (map snd d)"

text \<open>The counters agree, no pack has more state-of-charge polls than parses, and every cached
  reading was decoded from a frame of the pack it is filed under.\<close>

definition svc_ok :: "bms_service \<Rightarrow> bool" where
  "svc_ok svc \<longleftrightarrow>
     dkeys (parses_by_pack svc) = [1, 2, 3, 4] \<and> dkeys (pia_parses_by_pack svc) = [1, 2, 3, 4]
     \<and> parses_ok svc = total_count (parses_by_pack svc)
     \<and> (\<forall>p. 0 \<le> dget_or (pia_parses_by_pack svc) p 0
          \<and> dget_or (pia_parses_by_pack svc) p 0 \<le> dget_or (parses_by_pack svc) p 0)
     \<and> cache_ok reading_pia (pia_state svc) \<and> cache_ok reading_pib (pib_state svc)"

lemma svc_ok_init: "svc_ok (bms_init now fs)"
  by (simp add: svc_ok_def bms_init_def dkeys_def total_count_def cache_ok_def dget_or_def)

lemma four_packs: "1 \<le> p \<Longrightarrow> p \<le> 4 \<Longrightarrow> p \<in> set [1, 2, 3, 4 :: nat]"
  by auto

lemma bump_keys: "dkeys d = [1, 2, 3, 4] \<Longrightarrow> 1 \<le> p \<Longrightarrow> p \<le> 4 \<Longrightarrow> dkeys (bump p d) = [1, 2, 3, 4]"
  using four_packs [of p] by (simp add: bump_def dkeys_dset_present)

lemma bump_get: "dget_or (bump p d) q 0 = (if q = p then dget_or d p 0 + 1 else dget_or d q 0)"
  by (simp add: bump_def dget_or_def dict_simps)

lemma bump_total:
  assumes "distinct (dkeys d)" and "p \<in> set (dkeys d)"
  shows "total_count (bump p d) = total_count d + 1"
proof -
  have "sum_list (map snd (AList.update p (v + 1) d)) = sum_list (map snd d) + 1" if "dget d p = Some v" for v
    using assms(1) that
  proof (induction d)
    case (Cons x xs)
    have "AList.update p (v + 1) xs = xs @ [(p, v + 1)]" if "p \<notin> fst ` set xs" for xs :: "(nat, int) dict"
      using that by (induction xs) auto
    then show ?case
      using Cons by (cases "fst x = p") (auto simp: dkeys_def)
  qed simp
  moreover obtain v where "dget d p = Some v"
    using assms(2) dget_none_iff [of d p] by auto
  ultimately show ?thesis
    by (simp add: total_count_def bump_def dget_or_def)
qed

lemma cache_ok_set:
  assumes "cache_ok good d" and "good p x"
  shows "cache_ok good (dset p x d)"
proof -
  have "set (dset p x d) \<subseteq> insert (p, x) (set d)"
    by (induction d) auto
  then show ?thesis
    using assms distinct_dkeys_dset [of d p x] by (auto simp: cache_ok_def)
qed

lemma counts_step:
  assumes "svc_ok s" and "1 \<le> p" and "p \<le> 4"
  shows "dkeys (bump p (parses_by_pack s)) = [1, 2, 3, 4]" "dkeys (bump p (pia_parses_by_pack s)) = [1, 2, 3, 4]"
    "total_count (bump p (parses_by_pack s)) = parses_ok s + 1"
  using assms four_packs [OF assms(2,3)] by (simp_all add: svc_ok_def bump_keys bump_total)

lemma svc_ok_pia: "svc_ok s \<Longrightarrow> reading_pia p d \<Longrightarrow> svc_ok (pia_success p d now s)"
  using counts_step [of s p]
  by (auto simp: svc_ok_def pia_success_def bump_get cache_ok_set reading_pia_def intro: le_SucI)


lemma svc_ok_pib: "svc_ok s \<Longrightarrow> reading_pib p d \<Longrightarrow> svc_ok (pib_success p d now s)"
  using counts_step [of s p]
  by (auto simp: svc_ok_def pib_success_def bump_get cache_ok_set reading_pib_def intro: add_increasing2)

text \<open>The end of a cycle leaves counters and cache alone.\<close>

lemma save_fields [simp]:
  "pia_state (save_energy_state ok unix s) = pia_state s"
  "pib_state (save_energy_state ok unix s) = pib_state s"
  "pia_seen_t (save_energy_state ok unix s) = pia_seen_t s"
  "pib_seen_t (save_energy_state ok unix s) = pib_seen_t s"
  "stale_warned (save_energy_state ok unix s) = stale_warned s"
  "parses_ok (save_energy_state ok unix s) = parses_ok s"
  "parses_by_pack (save_energy_state ok unix s) = parses_by_pack s"
  "pia_parses_by_pack (save_energy_state ok unix s) = pia_parses_by_pack s"
  "energy_in_Wh (save_energy_state ok unix s) = energy_in_Wh s"
  "energy_out_Wh (save_energy_state ok unix s) = energy_out_Wh s"
  by (simp_all add: save_energy_state_def Let_def)

lemma integrate_fields [simp]:
  "pia_state (snd (integrate_energy cfg now ok unix agg s)) = pia_state s"
  "pib_state (snd (integrate_energy cfg now ok unix agg s)) = pib_state s"
  "pia_seen_t (snd (integrate_energy cfg now ok unix agg s)) = pia_seen_t s"
  "pib_seen_t (snd (integrate_energy cfg now ok unix agg s)) = pib_seen_t s"
  "stale_warned (snd (integrate_energy cfg now ok unix agg s)) = stale_warned s"
  "parses_ok (snd (integrate_energy cfg now ok unix agg s)) = parses_ok s"
  "parses_by_pack (snd (integrate_energy cfg now ok unix agg s)) = parses_by_pack s"
  "pia_parses_by_pack (snd (integrate_energy cfg now ok unix agg s)) = pia_parses_by_pack s"
  by (simp_all add: integrate_energy_def Let_def split: option.split)

text \<open>The energies either stay or grow by the charging and discharging power over one interval.\<close>

lemma integrate_energies:
  fixes svc :: bms_service
  assumes "s' = snd (integrate_energy cfg now ok unix agg svc)"
  shows "energy_in_Wh s' = energy_in_Wh svc \<and> energy_out_Wh s' = energy_out_Wh svc
    \<or> (\<exists>pc pd h. power_charging_W agg = Some pc \<and> power_discharging_W agg = Some pd \<and> 0 \<le> h
        \<and> energy_in_Wh s' = padd (energy_in_Wh svc) (pmul (Fin pc) (Fin h))
        \<and> energy_out_Wh s' = padd (energy_out_Wh svc) (pmul (Fin pd) (Fin h)))"
proof (cases "\<exists>l pc pd. last_energy_sample_t svc = Some l \<and> power_charging_W agg = Some pc \<and> power_discharging_W agg = Some pd")
  case False
  then show ?thesis
    unfolding assms integrate_energy_def by (auto split: option.splits)
next
  case True
  then obtain l pc pd where some: "last_energy_sample_t svc = Some l" "power_charging_W agg = Some pc"
      "power_discharging_W agg = Some pd"
    by blast
  show ?thesis
  proof (cases "0 < fl (now - l) \<and> fl (now - l) < 60")
    case True
    then have "0 \<le> fl (fl (now - l) / 3600)"
      by (intro fl_nonneg) simp
    with True show ?thesis
      unfolding assms integrate_energy_def by (intro disjI2 exI conjI) (simp_all add: some Let_def del: pmul.simps)
  next
    case False
    then show ?thesis
      by (simp add: assms integrate_energy_def some Let_def False)
  qed
qed

lemma finish_eq: "snd (finish_cycle ver cfg ci s) =
    snd (integrate_energy cfg (ci_energy_now ci) (ci_save_ok ci) (ci_unix ci)
      (aggregate_bank ver (fst (fresh_states cfg (ci_fresh_now ci) s)) (Some (fst (snd (fresh_states cfg (ci_fresh_now ci) s)))))
      (snd (snd (fresh_states cfg (ci_fresh_now ci) s))))"
  by (simp add: finish_cycle_def Let_def split: prod.split)

lemma fresh_fields [simp]:
  "pia_state (snd (snd (fresh_states cfg now s))) = pia_state s"
  "pib_state (snd (snd (fresh_states cfg now s))) = pib_state s"
  "pia_seen_t (snd (snd (fresh_states cfg now s))) = pia_seen_t s"
  "pib_seen_t (snd (snd (fresh_states cfg now s))) = pib_seen_t s"
  "parses_ok (snd (snd (fresh_states cfg now s))) = parses_ok s"
  "parses_by_pack (snd (snd (fresh_states cfg now s))) = parses_by_pack s"
  "pia_parses_by_pack (snd (snd (fresh_states cfg now s))) = pia_parses_by_pack s"
  "energy_in_Wh (snd (snd (fresh_states cfg now s))) = energy_in_Wh s"
  "energy_out_Wh (snd (snd (fresh_states cfg now s))) = energy_out_Wh s"
  "last_energy_sample_t (snd (snd (fresh_states cfg now s))) = last_energy_sample_t s"
  by (simp_all add: fresh_states_def Let_def)

interpretation counters: service_run "\<lambda>s t. svc_ok s \<longrightarrow> svc_ok t"
proof
  show "svc_ok s \<longrightarrow> svc_ok (snd (finish_cycle ver cfg ci s))" for ver cfg ci s
    unfolding finish_eq by (simp add: svc_ok_def)
qed (auto intro: svc_ok_pia svc_ok_pib)

text \<open>C10. Over any run of the service (any sessions, failures, clock readings and frames) the
  published counters agree: the total is the sum of the packs' counters, no pack has more
  state-of-charge polls than parses; and every cached reading was decoded from a frame whose
  checksum was right and that came from the pack it is filed under.\<close>

theorem bms_counters_invariant:
  "case bms_run ver cfg ss (load_energy_state (bms_init now fs)) of (_, _, svc) \<Rightarrow> svc_ok svc"
proof -
  have "svc_ok (load_energy_state (bms_init now fs))"
    using svc_ok_init [of now fs]
    by (auto simp: load_energy_state_def svc_ok_def split: json_file.split pyval.split option.split)
  then show ?thesis
    using counters.async_run by (auto simp: bms_run_def split: prod.split)
qed

section \<open>Energy\<close>

definition energies_ok :: "bms_service \<Rightarrow> bool" where
  "energies_ok s \<longleftrightarrow> pnonneg (energy_in_Wh s) \<and> pdouble (energy_in_Wh s)
     \<and> pnonneg (energy_out_Wh s) \<and> pdouble (energy_out_Wh s)"

lemma bank_powers_nonneg:
  "power_charging_W (aggregate_bank ver pias pibs) = Some pc \<Longrightarrow> 0 \<le> pc"
  "power_discharging_W (aggregate_bank ver pias pibs) = Some pd \<Longrightarrow> 0 \<le> pd"
  by (auto simp: aggregate_bank_def Let_def split: if_splits)

lemma finish_energies:
  assumes "energies_ok s"
  shows "energies_ok (snd (finish_cycle ver cfg ci s))
    \<and> ple (energy_in_Wh s) (energy_in_Wh (snd (finish_cycle ver cfg ci s)))
    \<and> ple (energy_out_Wh s) (energy_out_Wh (snd (finish_cycle ver cfg ci s)))"
proof -
  define agg where "agg = aggregate_bank ver (fst (fresh_states cfg (ci_fresh_now ci) s)) (Some (fst (snd (fresh_states cfg (ci_fresh_now ci) s))))"
  define s1 where "s1 = snd (snd (fresh_states cfg (ci_fresh_now ci) s))"
  have e1: "energy_in_Wh s1 = energy_in_Wh s" "energy_out_Wh s1 = energy_out_Wh s"
    by (simp_all add: s1_def)
  have n: "power_charging_W agg = Some pc \<Longrightarrow> 0 \<le> pc" "power_discharging_W agg = Some pd \<Longrightarrow> 0 \<le> pd" for pc pd
    unfolding agg_def by (erule bank_powers_nonneg)+
  define s' where "s' = snd (finish_cycle ver cfg ci s)"
  have "s' = snd (integrate_energy cfg (ci_energy_now ci) (ci_save_ok ci) (ci_unix ci) agg s1)"
    by (simp only: s'_def finish_eq agg_def s1_def)
  from integrate_energies [OF this] have "energies_ok s' \<and> ple (energy_in_Wh s) (energy_in_Wh s') \<and> ple (energy_out_Wh s) (energy_out_Wh s')"
  proof (elim disjE exE conjE)
    assume "energy_in_Wh s' = energy_in_Wh s1" "energy_out_Wh s' = energy_out_Wh s1"
    then show ?thesis
      using assms by (simp add: energies_ok_def e1 ple_refl pnonneg_not_NaN)
  next
    fix pc pd h
    assume a: "power_charging_W agg = Some pc" "power_discharging_W agg = Some pd" "0 \<le> h"
      "energy_in_Wh s' = padd (energy_in_Wh s1) (pmul (Fin pc) (Fin h))"
      "energy_out_Wh s' = padd (energy_out_Wh s1) (pmul (Fin pd) (Fin h))"
    have "pnonneg (pmul (Fin pc) (Fin h))" "pnonneg (pmul (Fin pd) (Fin h))"
      using n a(1-3) by (auto intro!: pmul_nonneg simp del: pmul.simps)
    then show ?thesis
      using assms by (simp add: energies_ok_def a(4,5) e1 padd_grows padd_nonneg del: pmul.simps)
  qed
  then show ?thesis
    by (simp add: s'_def)
qed

interpretation energies: service_run "\<lambda>s t. energies_ok s \<longrightarrow>
    energies_ok t \<and> ple (energy_in_Wh s) (energy_in_Wh t) \<and> ple (energy_out_Wh s) (energy_out_Wh t)"
proof
  show "energies_ok s \<longrightarrow> energies_ok (snd (finish_cycle ver cfg ci s))
      \<and> ple (energy_in_Wh s) (energy_in_Wh (snd (finish_cycle ver cfg ci s)))
      \<and> ple (energy_out_Wh s) (energy_out_Wh (snd (finish_cycle ver cfg ci s)))" for ver cfg ci s
    using finish_energies by blast
qed (auto simp: energies_ok_def pia_success_def pib_success_def ple_refl pnonneg_not_NaN intro: ple_trans)

text \<open>The second instance of the counter contract: the ends of cycles as its events.\<close>

interpretation bms_counter: monotone_counter energies_ok
  "\<lambda>(ver, cfg, ci) s. snd (finish_cycle ver cfg ci s)"
  "\<lambda>charge s. if charge then energy_in_Wh s else energy_out_Wh s"
  by unfold_locales (auto simp: finish_energies split: prod.split)

text \<open>C28. The energies in and out that Home Assistant sees as \<open>total_increasing\<close> never decrease over
  any run, whatever the readings, clocks, connections and disk do, from any non-negative start.\<close>

theorem bms_energy_monotone:
  assumes "energies_ok svc" and "bms_run ver cfg ss svc = (ws, ms, svc')"
  shows "energies_ok svc' \<and> ple (energy_in_Wh svc) (energy_in_Wh svc') \<and> ple (energy_out_Wh svc) (energy_out_Wh svc')"
  using energies.async_run [OF assms(2) [unfolded bms_run_def]] assms(1) by blast

section \<open>The watchdog of the poll loop\<close>

text \<open>A cycle in which no frame arrives, whatever else the link does.\<close>

definition silent :: "cycle_in \<Rightarrow> bool" where
  "silent ci \<longleftrightarrow> (\<forall>p. arrivals (pi_event (ci_pia ci p)) = [] \<and> arrivals (pi_event (ci_pib ci p)) = [])"

lemma silent_request: "arrivals ev = [] \<Longrightarrow> \<exists>e w c'. ble_request frame slave bc ev c = (Inl e, w, c')"
  by (simp add: ble_request_def numeral_eq_Suc split: option.split)

lemma silent_polls:
  assumes "arrivals ev = []"
  shows "\<exists>e w c'. poll_pia pack ev c = (Inl e, w, c')" and "\<exists>e w c'. poll_pib pack ev c = (Inl e, w, c')"
proof -
  have r: "ble_request frame slave bc ev c =
      (Inl (projl (fst (ble_request frame slave bc ev c))), fst (snd (ble_request frame slave bc ev c)), snd (snd (ble_request frame slave bc ev c)))"
    for frame slave bc c
    using silent_request [OF assms, of frame slave bc c] by auto
  show "\<exists>e w c'. poll_pia pack ev c = (Inl e, w, c')"
    unfolding poll_pia_def by (subst r) (simp split: option.split)
  show "\<exists>e w c'. poll_pib pack ev c = (Inl e, w, c')"
    unfolding poll_pib_def by (subst r) (simp split: option.split)
qed

lemma silent_round:
  assumes "\<And>p c. \<exists>e w c'. poll (int p) (pi_event (inp p)) c = (Inl e, w, c')"
  shows "\<exists>r c'. poll_round poll success publish inp packs (svc, c) = (r, 0, [], svc, c')"
proof (induction packs arbitrary: c)
  case (Cons p ps)
  obtain e w c1 where "poll (int p) (pi_event (inp p)) c = (Inl e, w, c1)"
    using assms by blast
  then show ?case
    using Cons [of c1] by auto
qed simp

lemma finish_parses: "parses_ok (snd (finish_cycle ver cfg ci s)) = parses_ok s"
  by (simp add: finish_eq)

lemma silent_cycle:
  assumes "silent ci" and "poll_cycle ver cfg ci lv (svc, c) = (r, ms, lv', svc', c')"
  shows "parses_ok svc' = parses_ok svc
    \<and> (r = Again \<longrightarrow> failed_cycles lv' = failed_cycles lv + 1 \<and> failed_cycles lv' < b_max_failed_cycles cfg)"
proof -
  obtain r1 c1 where 1: "poll_round poll_pia pia_success (publish_pia_state cfg) (ci_pia ci) (pack_numbers cfg) (svc, c) = (r1, 0, [], svc, c1)"
    using silent_round [of poll_pia "ci_pia ci"] silent_polls(1) assms(1) unfolding silent_def by meson
  obtain r2 c2 where 2: "poll_round poll_pib pib_success (publish_pib_state cfg) (ci_pib ci) (pack_numbers cfg) (svc, c1) = (r2, 0, [], svc, c2)"
    using silent_round [of poll_pib "ci_pib ci"] silent_polls(2) assms(1) unfolding silent_def by meson
  obtain m3 svc3 where 3: "finish_cycle ver cfg ci svc = (m3, svc3)"
    by fastforce
  have p: "parses_ok svc3 = parses_ok svc"
    using finish_parses [of ver cfg ci svc] by (simp add: 3)
  show ?thesis
    using assms(2) p unfolding poll_cycle_def 1 2
    by (cases r1; cases r2) (auto simp: 2 3 Let_def split: if_splits)
qed

lemma silent_cycles:
  assumes "\<forall>ci \<in> set ins. silent ci" and "ins \<noteq> []"
    and "b_max_failed_cycles cfg \<le> failed_cycles lv + int (length ins)"
    and "poll_cycles ver cfg ins lv (svc, c) = (r, ms, svc', c')"
  shows "r \<noteq> Again \<and> parses_ok svc' = parses_ok svc"
  using assms
proof (induction ins arbitrary: lv svc c r ms)
  case (Cons ci ins)
  show ?case
  proof (cases "ci_stop ci")
    case False
    obtain r1 m1 lv1 svc1 c1 where 1: "poll_cycle ver cfg ci lv (svc, c) = (r1, m1, lv1, svc1, c1)"
      by (metis prod_cases5)
    have s: "parses_ok svc1 = parses_ok svc"
      "r1 = Again \<Longrightarrow> failed_cycles lv1 = failed_cycles lv + 1 \<and> failed_cycles lv1 < b_max_failed_cycles cfg"
      using silent_cycle [OF _ 1] Cons.prems(1) by auto
    show ?thesis
    proof (cases "r1 = Again")
      case True
      then have "ins \<noteq> []"
        using s(2) Cons.prems(3) by auto
      then show ?thesis
        using True Cons.prems Cons.IH [of lv1 svc1 c1] s False by (auto simp: 1 split: prod.splits)
    next
      case no: False
      then show ?thesis
        using Cons.prems(4) s False by (cases r1) (auto simp: 1)
    qed
  qed (use Cons.prems in auto)
qed simp

text \<open>C26. A dead link ends the poll loop: if no frame arrives any more, the loop has returned for a
  fresh connection after at most \<open>max_failed_cycles\<close> cycles (and after one, if that is not
  positive), whether or not the library still says connected, and no parse was counted.\<close>

theorem zombie_link_returns:
  assumes "\<forall>ci \<in> set ins. silent ci" and "ins \<noteq> []" and "b_max_failed_cycles cfg \<le> int (length ins)"
  shows "case poll_loop ver cfg ins (svc, c) of (r, ms, svc', c') \<Rightarrow> r \<noteq> Again \<and> parses_ok svc' = parses_ok svc"
proof -
  obtain r ms svc' c' where r: "poll_loop ver cfg ins (svc, c) = (r, ms, svc', c')"
    by (metis prod_cases4)
  show ?thesis
    using silent_cycles [OF assms(1,2) _ r [unfolded poll_loop_def]] assms(3) by (simp add: r)
qed

section \<open>Reconnection\<close>

lemma double_double:
  assumes "pdouble (Fin x)"
  shows "fl (x * 2) = x * 2"
proof -
  obtain m e where "x = of_int m * pow2 e" "\<bar>m\<bar> \<le> 2 ^ 53" "- 1074 \<le> e"
    using assms fl_is_double [of x] by (auto simp: is_double_def)
  then have "is_double (x * 2)"
    unfolding is_double_def by (intro exI [of _ m] exI [of _ "e + 1"]) (simp add: pow2_add)
  then show ?thesis
    by (rule fl_double)
qed

lemma next_backoff:
  assumes "pdouble (Fin b)" "pdouble (Fin m)" "0 < b"
  shows "pmin (pmul (Fin b) (Fin 2)) (Fin m) = Fin (min (b * 2) m)"
proof -
  have "m < dbl_limit"
    using assms(2) abs_ge_self [of m] by (simp add: le_less_trans)
  then show ?thesis
    using assms(3) double_double [OF assms(1)] by (simp add: pmin_def mkf_def min_def Let_def)
qed

lemma pdouble_min: "pdouble (Fin a) \<Longrightarrow> pdouble (Fin b) \<Longrightarrow> pdouble (Fin (min a b))"
  by (simp add: min_def)

definition refused :: "session_in \<Rightarrow> bool" where
  "refused s \<longleftrightarrow> \<not> si_stop s \<and> si_connect_err s \<noteq> None \<and> \<not> si_stop_in_wait s"

lemma refused_waits:
  assumes "\<forall>s \<in> set ss. refused s" and "b_reconnect_max_backoff_s cfg = Fin m"
    and "pdouble (Fin b)" "pdouble (Fin m)" "0 < b" "b \<le> m"
  shows "run_async ver cfg ss (Fin b) svc = (map (\<lambda>k. Fin (min (b * 2 ^ k) m)) [0..<length ss], [], svc)"
  using assms(1,3,5,6)
proof (induction ss arbitrary: b)
  case (Cons s ss)
  let ?b = "min (b * 2) m"
  have "fst (ble_connect (si_connect_err s) (si_notify_err s) ble_init) \<noteq> None"
    using Cons.prems(1) by (auto simp: refused_def ble_connect_def ble_init_def is_connected_def)
  then obtain e c where c: "ble_connect (si_connect_err s) (si_notify_err s) ble_init = (Some e, c)"
    by (metis not_None_eq prod.collapse)
  have b2: "pdouble (Fin (b * 2)) \<or> m \<le> b * 2"
    using double_double [OF Cons.prems(2)] assms(4) Cons.prems(3) by auto
  then have b: "pdouble (Fin ?b)"
    using assms(4) pdouble_min by (auto simp: min_def)
  have IH: "run_async ver cfg ss (Fin ?b) svc = (map (\<lambda>k. Fin (min (?b * 2 ^ k) m)) [0..<length ss], [], svc)"
    using Cons.prems(1,3,4) b by (intro Cons.IH) (simp_all add: min_def)
  have "min (?b * 2 ^ k) m = min (b * 2 ^ Suc k) m" for k
  proof (cases "b * 2 \<le> m")
    case False
    have "m \<le> m * 2 ^ k" "m \<le> b * 2 * 2 ^ k"
      using False Cons.prems(3,4) mult_mono [of m "b * 2" 1 "2 ^ k"] mult_left_mono [of 1 "2 ^ k" m] by simp_all
    then show ?thesis
      using False by (simp add: min_def mult.assoc)
  qed (simp add: min_def mult.assoc)
  then have "map (\<lambda>k. Fin (min (b * 2 ^ k) m)) [0..<length (s # ss)]
      = Fin b # map (\<lambda>k. Fin (min (?b * 2 ^ k) m)) [0..<length ss]"
    using Cons.prems(4) by (simp add: upt_conv_Cons map_Suc_upt [symmetric] comp_def del: upt_Suc)
  moreover have "run_async ver cfg (s # ss) (Fin b) svc = (Fin b # fst (run_async ver cfg ss (Fin ?b) svc), [], svc)"
    using Cons.prems(1) IH next_backoff [OF Cons.prems(2) assms(4) Cons.prems(3)]
    by (simp add: refused_def c assms(2) del: pmul.simps)
  ultimately show ?case
    using IH by simp
qed simp

text \<open>C30. While the bank refuses the connection, the service waits the initial backoff, doubled after
  every attempt, never more than the maximum (no rounding, no overflow), publishes nothing and
  keeps its state; it never stops trying.\<close>

theorem reconnect_backoff:
  assumes "\<forall>s \<in> set ss. refused s"
    and "b_reconnect_initial_backoff_s cfg = Fin b" and "b_reconnect_max_backoff_s cfg = Fin m"
    and "pdouble (Fin b)" "pdouble (Fin m)" "0 < b" "b \<le> m"
  shows "bms_run ver cfg ss svc = (map (\<lambda>k. Fin (min (b * 2 ^ k) m)) [0..<length ss], [], svc)"
  unfolding bms_run_def assms(2) by (rule refused_waits) (use assms in auto)


text \<open>Two sessions.\<close>

definition demo_cfg :: bms_cfg where
  "demo_cfg = \<lparr>b_enabled = True, b_master_mac = ''C0:D6:3C:52:0F:0D'', b_pack_count = 4,
     b_poll_fast_interval_s = Fin 5, b_poll_slow_interval_s = Fin 300, b_inter_pack_delay_s = Fin (1 / 2),
     b_connect_timeout_s = Fin 15, b_reconnect_initial_backoff_s = Fin 2, b_reconnect_max_backoff_s = Fin 60,
     b_max_failed_cycles = 3, b_stale_pack_timeout_s = Fin 60, b_mqtt_topic_prefix = ''gadi_bms'',
     b_mqtt_device_name = ''BlueSun'', b_mqtt_device_id = ''bluesun_bms'',
     b_energy_persist_path = ''/var/lib/inverter-bridge/bms-energy.json'', b_pack_serials = [''S1'']\<rparr>"

definition demo_refused :: session_in where
  "demo_refused = \<lparr>si_stop = False, si_connect_err = Some BleakError, si_notify_err = None,
     si_cycles = [], si_stop_in_wait = False\<rparr>"

definition demo_disk :: energy_fs where
  "demo_disk = \<lparr>target = NoFile, tmp = None\<rparr>"

theorem reconnect_backoff_witness:
  "fst (bms_run Py312 demo_cfg (replicate 7 demo_refused) (bms_init 0 demo_disk))
     = [Fin 2, Fin 4, Fin 8, Fin 16, Fin 32, Fin 60, Fin 60]"
proof -
  have "pdouble (Fin 2)" "pdouble (Fin 60)"
    using fl_int [of 2] fl_int [of 60] by (simp_all add: dbl_limit_def)
  then have "bms_run Py312 demo_cfg (replicate 7 demo_refused) (bms_init 0 demo_disk) =
      (map (\<lambda>k. Fin (min (2 * 2 ^ k) 60)) [0..<length (replicate 7 demo_refused)], [], bms_init 0 demo_disk)"
    by (intro reconnect_backoff) (simp_all add: refused_def demo_refused_def demo_cfg_def)
  then show ?thesis
    by (simp add: upt_rec [of _ 7] numeral_eq_Suc)
qed

definition demo_poll :: poll_in where
  "demo_poll = \<lparr>pi_event = \<lparr>write_error = None, arrivals = [], late = [], link_after = True\<rparr>, pi_time = 1, pi_stop = False\<rparr>"

definition demo_cycle :: cycle_in where
  "demo_cycle = \<lparr>ci_stop = False, ci_start = 1, ci_pia = (\<lambda>_. demo_poll), ci_pib = (\<lambda>_. demo_poll),
     ci_fresh_now = 2, ci_energy_now = 3, ci_save_ok = (\<lambda>_. True), ci_unix = 4, ci_end = 5, ci_stop_in_wait = False\<rparr>"

theorem zombie_link_returns_witness:
  "fst (poll_loop Py312 demo_cfg (replicate 3 demo_cycle) (bms_init 0 demo_disk, \<lparr>link = Some True, notify_q = []\<rparr>)) \<noteq> Again"
proof -
  have "\<forall>ci \<in> set (replicate 3 demo_cycle). silent ci"
    by (simp add: silent_def demo_cycle_def demo_poll_def)
  then show ?thesis
    using zombie_link_returns [where ins = "replicate 3 demo_cycle" and cfg = demo_cfg and ver = Py312
        and svc = "bms_init 0 demo_disk" and c = "\<lparr>link = Some True, notify_q = []\<rparr>"]
    by (auto simp: demo_cfg_def split: prod.splits)
qed

theorem bms_energy_monotone_witness:
  "case bms_run Py311 demo_cfg [demo_refused] (bms_init 0 demo_disk) of
     (ws, ms, svc') \<Rightarrow> ple (Fin 0) (energy_in_Wh svc')"
proof -
  obtain ws ms svc' where r: "bms_run Py311 demo_cfg [demo_refused] (bms_init 0 demo_disk) = (ws, ms, svc')"
    by (metis prod_cases3)
  have "energies_ok (bms_init 0 demo_disk)"
    by (simp add: energies_ok_def bms_init_def dbl_limit_def)
  from bms_energy_monotone [OF this r] have "ple (Fin 0) (energy_in_Wh svc')"
    by (simp add: bms_init_def)
  then show ?thesis
    by (simp add: r)
qed

section \<open>Published messages\<close>

text \<open>The message of a value on the state topic of an object id.\<close>

definition state_msg :: "bms_cfg \<Rightarrow> string \<Rightarrow> bms_val \<Rightarrow> bms_msg" where
  "state_msg cfg object_id x =
     \<lparr>m_topic = b_mqtt_topic_prefix cfg @ ''/'' @ object_id @ ''/state'',
      m_payload = (case x of VFloat f \<Rightarrow> BFixed4 f | VInt n \<Rightarrow> BInt n), m_qos = 0, m_retain = False\<rparr>"

lemma find_entity: "object_id \<in> e_object_id ` set all_bms_entities \<Longrightarrow>
    \<exists>e. entity_by_object object_id = Some e \<and> e_object_id e = object_id"
proof -
  have "x \<in> e_object_id ` set es \<Longrightarrow> \<exists>e. find (\<lambda>e. e_object_id e = x) es = Some e \<and> e_object_id e = x" for x es
    by (induction es) auto
  then show "object_id \<in> e_object_id ` set all_bms_entities \<Longrightarrow> \<exists>e. entity_by_object object_id = Some e \<and> e_object_id e = object_id"
    unfolding entity_by_object_def by blast
qed

lemma pub_known:
  assumes "object_id \<in> e_object_id ` set all_bms_entities"
  shows "pub cfg object_id v = (case v of None \<Rightarrow> [] | Some x \<Rightarrow> [state_msg cfg object_id x])"
  using find_entity [OF assms]
  by (auto simp: pub_def publish_state_def state_msg_def state_topic_for_def split: option.split)

lemma known_pack: "1 \<le> p \<Longrightarrow> p \<le> 4 \<Longrightarrow> s \<in> set pack_suffixes \<Longrightarrow> pack_id p s \<in> e_object_id ` set all_bms_entities"
  using four_packs [of p] unfolding catalogue_ids by (intro UnI1 image_eqI [of _ _ "(p, s)"]) auto

lemma known_bank: "k \<in> set bank_ids \<Longrightarrow> k \<in> e_object_id ` set all_bms_entities"
  unfolding catalogue_ids by blast

lemma pub_pack:
  assumes "1 \<le> p" "p \<le> 4" "s \<in> set pack_suffixes"
  shows "pub cfg (pack_id p s) (Some x) = [state_msg cfg (pack_id p s) x]"
  using pub_known [OF known_pack [OF assms]] by simp

lemma id_form: "''bluesun_'' @ (''pack'' @ show2 p) @ CHR ''_'' # s = pack_id p s"
  by (simp add: pack_id_def)

lemma temp_forms:
  "''bluesun_'' @ (''pack'' @ show2 p) @ ''_cell_temp_'' @ show_nat 1 = pack_id p ''cell_temp_1''"
  "''bluesun_'' @ (''pack'' @ show2 p) @ ''_cell_temp_'' @ show_nat 2 = pack_id p ''cell_temp_2''"
  "''bluesun_'' @ (''pack'' @ show2 p) @ ''_cell_temp_'' @ show_nat 3 = pack_id p ''cell_temp_3''"
  "''bluesun_'' @ (''pack'' @ show2 p) @ ''_cell_temp_'' @ show_nat 4 = pack_id p ''cell_temp_4''"
  by (simp_all add: pack_id_def show_digit digit_chars del: One_nat_def)

lemma bank_keys: "map fst (bank_values agg) = take 17 bank_ids"
  by (simp add: bank_values_def bank_ids_eq)

definition some_msgs :: "bms_cfg \<Rightarrow> (string \<times> bms_val option) list \<Rightarrow> bms_msg list" where
  "some_msgs cfg kvs = map (\<lambda>(k, v). state_msg cfg k (the v)) (filter (\<lambda>(k, v). v \<noteq> None) kvs)"

lemma pub_list:
  assumes "fst ` set kvs \<subseteq> e_object_id ` set all_bms_entities"
  shows "concat (map (\<lambda>(k, v). pub cfg k v) kvs) = some_msgs cfg kvs"
  using assms by (induction kvs) (auto simp: pub_known some_msgs_def)

lemma publish_bank_exact: "publish_bank_state cfg agg = some_msgs cfg (bank_values agg)"
proof -
  have "fst ` set (bank_values agg) = set (map fst (bank_values agg))"
    by simp
  also have "\<dots> \<subseteq> set bank_ids"
    unfolding bank_keys by (rule set_take_subset)
  finally show ?thesis
    unfolding publish_bank_state_def using known_bank by (intro pub_list) blast
qed

lemma pub_energy_exact: "pub_energy cfg svc =
    [state_msg cfg ''bluesun_battery_energy_in'' (VFloat (energy_in_Wh svc)),
     state_msg cfg ''bluesun_battery_energy_out'' (VFloat (energy_out_Wh svc))]"
  using pub_known [OF known_bank] by (simp add: pub_energy_def bank_ids_eq)

lemma telemetry_exact:
  assumes "svc_ok svc"
  shows "telemetry cfg svc = state_msg cfg ''bluesun_octopus_parses_ok'' (VInt (parses_ok svc))
    # map (\<lambda>(p, n). state_msg cfg (pack_id p ''parses'') (VInt n)) (parses_by_pack svc)
    @ map (\<lambda>(p, n). state_msg cfg (pack_id p ''soc_polls'') (VInt n)) (pia_parses_by_pack svc)"
proof -
  have c: "concat (map (\<lambda>(p, n). pub cfg (''bluesun_pack'' @ show2 p @ CHR ''_'' # s) (Some (VInt n))) d)
      = map (\<lambda>(p, n). state_msg cfg (pack_id p s) (VInt n)) d"
    if "dkeys d = [1, 2, 3, 4]" "s \<in> set pack_suffixes" for d :: "(nat, int) dict" and s
  proof -
    have "p \<in> set [1, 2, 3, 4]" if "(p, n) \<in> set d" for p n
      using that \<open>dkeys d = _\<close> by (metis dkeys_def fst_conv image_eqI set_map)
    then have "\<forall>(p, n) \<in> set d. pub cfg (''bluesun_pack'' @ show2 p @ CHR ''_'' # s) (Some (VInt n)) = [state_msg cfg (pack_id p s) (VInt n)]"
      using pub_pack [OF _ _ that(2), unfolded pack_id_def] by (fastforce simp: pack_id_def)
    then show ?thesis
      by (induction d) auto
  qed
  show ?thesis
    using assms pub_known [OF known_bank, of "''bluesun_octopus_parses_ok''"]
      c [of "parses_by_pack svc" "''parses''"] c [of "pia_parses_by_pack svc" "''soc_polls''"]
    by (simp add: telemetry_def svc_ok_def bank_ids_eq pack_suffixes_def)
qed

lemma pub_pack_list:
  assumes "1 \<le> p" "p \<le> 4" and "map fst kvs = take m (drop n pack_suffixes)"
  shows "concat (map (\<lambda>(k, v). pub cfg k v) (map (\<lambda>(s, v). (pack_id p s, v)) kvs))
    = some_msgs cfg (map (\<lambda>(s, v). (pack_id p s, v)) kvs)"
proof (rule pub_list)
  have "fst ` set kvs = set (take m (drop n pack_suffixes))"
    using assms(3) by (metis set_map)
  then have "fst ` set kvs \<subseteq> set pack_suffixes"
    using set_take_subset set_drop_subset by (metis order_trans)
  then show "fst ` set (map (\<lambda>(s, v). (pack_id p s, v)) kvs) \<subseteq> e_object_id ` set all_bms_entities"
    using known_pack [OF assms(1,2)] by fastforce
qed

lemma four_temps: "reading_pib p b \<Longrightarrow> length (cell_temp_C b) = 4"
  unfolding reading_pib_def oct_parse_exact_aux by (auto simp: pib_spec_def)

lemma list_four: "length xs = 4 \<Longrightarrow> \<exists>a b c d. xs = [a, b, c, d]"
  by (cases xs; cases "tl xs"; cases "tl (tl xs)"; cases "tl (tl (tl xs))") auto

lemma some_msgs_all: "some_msgs cfg (map (\<lambda>(s, v). (pack_id p s, v)) (map (\<lambda>(s, x). (s, Some x)) kvs))
    = map (\<lambda>(s, x). state_msg cfg (pack_id p s) x) kvs"
  by (induction kvs) (auto simp: some_msgs_def)


definition demo_pib :: bytes where
  "demo_pib = encode_pack 1 (replicate 26 3000)"

lemma demo_readings:
  "reading_pia 1 (snd (hd demo_pias))"
  "reading_pib 1 (pib_spec 1 (replicate 26 3000) demo_pib)"
proof -
  have "oct_parse_response demo_pib = Inr (Pib (pib_spec 1 (replicate 26 3000) demo_pib))"
    unfolding demo_pib_def by (subst encode_pack_parses) (auto simp: reg_range_def)
  then show "reading_pib 1 (pib_spec 1 (replicate 26 3000) demo_pib)"
    by (auto simp: reading_pib_def pib_spec_def)
  have "hd demo_pias \<in> set demo_pias"
    using demo_decoded(2) by (rule hd_in_set)
  then have "\<exists>frame. oct_parse_response frame = Inr (Pia (snd (hd demo_pias)))"
    using demo_decoded(1) unfolding decoded_def by blast
  then show "reading_pia 1 (snd (hd demo_pias))"
    by (simp add: reading_pia_def demo_pias_def pia_spec_def)
qed


section \<open>Stale packs\<close>

lemma cached_four:
  assumes "cache_ok reading_pia d"
  shows "length d \<le> 4"
proof -
  have "set (dkeys d) \<subseteq> {1, 2, 3, 4}"
    using assms four_packs by (fastforce simp: cache_ok_def dkeys_def reading_pia_def)
  then have "card (set (dkeys d)) \<le> card {1, 2, 3, 4 :: nat}"
    by (intro card_mono) simp_all
  moreover have "card (set (dkeys d)) = length d"
    using assms distinct_card by (fastforce simp: cache_ok_def dkeys_def)
  ultimately show ?thesis
    by simp
qed

lemma fresh_decoded:
  assumes "svc_ok svc"
  shows "decoded (filter P (pia_state svc))"
proof -
  have c: "cache_ok reading_pia (pia_state svc)"
    using assms by (simp add: svc_ok_def)
  have "length (filter P (pia_state svc)) \<le> 4"
    using cached_four [OF c] length_filter_le [of P "pia_state svc"] by linarith
  moreover have "\<exists>frame. oct_parse_response frame = Inr (Pia d)" if "(p, d) \<in> set (pia_state svc)" for p d
    using c that by (auto simp: cache_ok_def reading_pia_def)
  ultimately show ?thesis
    by (auto simp: decoded_def)
qed

definition fresh_pias :: "bms_cfg \<Rightarrow> rat \<Rightarrow> bms_service \<Rightarrow> (nat, pia_data) dict" where
  "fresh_pias cfg now svc =
     filter (\<lambda>(pack, _). ple (Fin (fl (now - dget_or (pia_seen_t svc) pack 0))) (b_stale_pack_timeout_s cfg)) (pia_state svc)"

lemma fresh_states_pias: "fst (fresh_states cfg now svc) = fresh_pias cfg now svc"
  by (simp add: fresh_states_def fresh_pias_def age_def Let_def)

lemma current_published:
  "current_total_A agg = Some x \<Longrightarrow>
     state_msg cfg ''bluesun_bank_current_total'' (VFloat (Fin x)) \<in> set (publish_bank_state cfg agg)"
  unfolding publish_bank_exact by (simp add: some_msgs_def bank_values_def)

lemma some_msgs_mem: "state_msg cfg k x \<in> set (some_msgs cfg kvs) \<Longrightarrow> \<exists>v. (k, Some v) \<in> set kvs"
  by (auto simp: some_msgs_def state_msg_def)

lemma bank_power_entry: "(''bluesun_bank_power'', v) \<in> set (bank_values agg) \<Longrightarrow> v = flt_opt (power_W agg)"
  by (simp add: bank_values_def)

lemma power_missing:
  "power_W agg = None \<Longrightarrow> state_msg cfg ''bluesun_bank_power'' x \<notin> set (publish_bank_state cfg agg)"
  unfolding publish_bank_exact using some_msgs_mem bank_power_entry by fastforce

lemma no_fresh_power: "power_W (aggregate_bank ver [] pibs) = None" "power_charging_W (aggregate_bank ver [] pibs) = None"
  by (simp_all add: aggregate_bank_def avg_or_none_def Let_def)

text \<open>The end of a cycle, with the bank of the fresh packs.\<close>

lemma finish_parts:
  assumes "svc_ok svc"
  obtains pibs em svc1 svc2 where
    "finish_cycle ver cfg ci svc
       = (publish_bank_state cfg (aggregate_bank ver (fresh_pias cfg (ci_fresh_now ci) svc) (Some pibs)) @ em @ telemetry cfg svc2, svc2)"
    "integrate_energy cfg (ci_energy_now ci) (ci_save_ok ci) (ci_unix ci)
       (aggregate_bank ver (fresh_pias cfg (ci_fresh_now ci) svc) (Some pibs)) svc1 = (em, svc2)"
    "\<exists>s. em = pub_energy cfg s" "svc_ok svc2"
    "energy_in_Wh svc1 = energy_in_Wh svc" "energy_out_Wh svc1 = energy_out_Wh svc"
proof -
  let ?f = "fresh_pias cfg (ci_fresh_now ci) svc"
  obtain pibs svc1 where f: "fresh_states cfg (ci_fresh_now ci) svc = (?f, pibs, svc1)"
    using fresh_states_pias by (metis prod.collapse)
  have e1: "energy_in_Wh svc1 = energy_in_Wh svc" "energy_out_Wh svc1 = energy_out_Wh svc"
    using fresh_fields(8,9) [of cfg "ci_fresh_now ci" svc] by (simp_all add: f)
  obtain em svc2 where i: "integrate_energy cfg (ci_energy_now ci) (ci_save_ok ci) (ci_unix ci) (aggregate_bank ver ?f (Some pibs)) svc1 = (em, svc2)"
    by fastforce
  have em: "\<exists>s. em = pub_energy cfg s"
    using i by (auto simp: integrate_energy_def Let_def split: option.splits)
  have fin: "finish_cycle ver cfg ci svc = (publish_bank_state cfg (aggregate_bank ver ?f (Some pibs)) @ em @ telemetry cfg svc2, svc2)"
    by (simp add: finish_cycle_def f i Let_def)
  have "svc_ok svc2"
    using counters.finish_step assms fin by (metis snd_conv)
  then show thesis
    using that [OF fin i em] e1 by blast
qed

lemma bank_current_near:
  assumes "svc_ok svc" and "fresh_pias cfg now svc \<noteq> []"
  obtains x where "current_total_A (aggregate_bank ver (fresh_pias cfg now svc) pibs) = Some x"
    "\<bar>x - sum_list (map current_A (map snd (fresh_pias cfg now svc)))\<bar> \<le> 1 / 10 ^ 10"
  using bank_near [OF fresh_decoded [OF assms(1), of "\<lambda>(pack, _). ple (Fin (fl (now - dget_or (pia_seen_t svc) pack 0))) (b_stale_pack_timeout_s cfg)",
    folded fresh_pias_def] assms(2), of ver pibs] by (auto elim: nearE)

lemma no_power_message:
  assumes "svc_ok svc"
  shows "state_msg cfg ''bluesun_bank_power'' x \<notin> set (pub_energy cfg s @ telemetry cfg svc)"
  unfolding telemetry_exact [OF assms] by (auto simp: pub_energy_exact state_msg_def pack_id_def)

text \<open>C27. A pack that stopped answering leaves the bank: in every reachable state the end of a cycle
  publishes as bank current the sum over the packs seen within the stale timeout only (to 1e-10),
  and when no pack is fresh it publishes no bank power and integrates no energy.\<close>

theorem stale_packs_excluded:
  assumes "svc_ok svc"
  shows "case finish_cycle ver cfg ci svc of (msgs, svc') \<Rightarrow>
    (if fresh_pias cfg (ci_fresh_now ci) svc = []
     then (\<forall>x. state_msg cfg ''bluesun_bank_power'' x \<notin> set msgs)
       \<and> energy_in_Wh svc' = energy_in_Wh svc \<and> energy_out_Wh svc' = energy_out_Wh svc
     else \<exists>x. state_msg cfg ''bluesun_bank_current_total'' (VFloat (Fin x)) \<in> set msgs
       \<and> \<bar>x - (\<Sum>d \<leftarrow> map snd (fresh_pias cfg (ci_fresh_now ci) svc). current_A d)\<bar> \<le> 1 / 10 ^ 10)"
proof -
  let ?f = "fresh_pias cfg (ci_fresh_now ci) svc"
  obtain pibs em svc1 svc2 where
    fin: "finish_cycle ver cfg ci svc = (publish_bank_state cfg (aggregate_bank ver ?f (Some pibs)) @ em @ telemetry cfg svc2, svc2)"
    and i: "integrate_energy cfg (ci_energy_now ci) (ci_save_ok ci) (ci_unix ci) (aggregate_bank ver ?f (Some pibs)) svc1 = (em, svc2)"
    and em: "\<exists>s. em = pub_energy cfg s" and ok2: "svc_ok svc2"
    and e1: "energy_in_Wh svc1 = energy_in_Wh svc" "energy_out_Wh svc1 = energy_out_Wh svc"
    by (rule finish_parts [OF assms])
  show ?thesis
  proof (cases "?f = []")
    case True
    have "state_msg cfg ''bluesun_bank_power'' x \<notin> set (publish_bank_state cfg (aggregate_bank ver ?f (Some pibs)))" for x
      unfolding True by (intro power_missing no_fresh_power)
    moreover have "state_msg cfg ''bluesun_bank_power'' x \<notin> set (em @ telemetry cfg svc2)" for x
      using em no_power_message [OF ok2] by blast
    moreover have "energy_in_Wh svc2 = energy_in_Wh svc1 \<and> energy_out_Wh svc2 = energy_out_Wh svc1"
      using integrate_energies [OF sym [OF arg_cong [OF i, of snd, unfolded snd_conv]]] by (auto simp: True no_fresh_power)
    ultimately show ?thesis
      by (simp add: fin True e1)
  next
    case False
    obtain x where "current_total_A (aggregate_bank ver ?f (Some pibs)) = Some x"
        "\<bar>x - sum_list (map current_A (map snd ?f))\<bar> \<le> 1 / 10 ^ 10"
      by (rule bank_current_near [OF assms False])
    then show ?thesis
      using current_published by (auto simp: fin False)
  qed
qed

theorem stale_packs_excluded_witness:
  "\<forall>x. state_msg demo_cfg ''bluesun_bank_power'' x \<notin> set (fst (finish_cycle Py312 demo_cfg demo_cycle (bms_init 0 demo_disk)))"
  using stale_packs_excluded [OF svc_ok_init, where ver = Py312 and cfg = demo_cfg and ci = demo_cycle and now1 = 0 and fs1 = demo_disk]
  by (simp add: fresh_pias_def bms_init_def split: prod.splits)

section \<open>Persistence\<close>

text \<open>Saving the energies is atomic: whatever system call fails, the file holds the old content or
  the complete new one, and a service that starts on the new content continues with exactly the
  saved energies.\<close>

theorem bms_energy_persist:
  assumes "pdouble (energy_in_Wh svc)" and "pdouble (energy_out_Wh svc)"
  shows "target (disk (save_energy_state ok t svc)) =
      (if \<forall>op \<in> {MkDir, CreateTmp, WriteTmp, Replace}. ok op then JsonDoc (bms_energy_payload t svc) else target (disk svc))
    \<and> (target fs = JsonDoc (bms_energy_payload t svc) \<longrightarrow>
        energy_in_Wh (load_energy_state (bms_init now fs)) = energy_in_Wh svc
        \<and> energy_out_Wh (load_energy_state (bms_init now fs)) = energy_out_Wh svc)"
  using assms
  by (auto simp: save_energy_state_def unlink_tmp_def load_energy_state_def bms_energy_payload_def bms_init_def
      dget_or_def Let_def)

theorem bms_energy_persist_witness:
  "energy_in_Wh (load_energy_state (bms_init 9 (disk (save_energy_state (\<lambda>_. True) 5
     ((bms_init 0 demo_disk)\<lparr>energy_in_Wh := Fin 7, energy_out_Wh := Inf False\<rparr>))))) = Fin 7"
proof -
  let ?s = "(bms_init 0 demo_disk)\<lparr>energy_in_Wh := Fin 7, energy_out_Wh := Inf False\<rparr>"
  have "pdouble (energy_in_Wh ?s)" "pdouble (energy_out_Wh ?s)"
    using fl_int [of 7] by (simp_all add: dbl_limit_def)
  from bms_energy_persist [OF this, where ok = "\<lambda>_. True" and t = 5 and now = 9
      and fs = "disk (save_energy_state (\<lambda>_. True) 5 ?s)"]
  show ?thesis
    by simp
qed

interpretation poisoned: service_run "\<lambda>s t. energy_in_Wh s = NaN \<longrightarrow> energy_in_Wh t = NaN"
proof
  show "energy_in_Wh s = NaN \<longrightarrow> energy_in_Wh (snd (finish_cycle ver cfg ci s)) = NaN" for ver cfg ci s
    unfolding finish_eq using integrate_energies [OF refl] fresh_fields(8) padd.simps(5) by metis
qed (simp_all add: pia_success_def pib_success_def)

text \<open>The energies are loaded unchecked: a file with NaN (which Python's \<open>json\<close> writes and reads)
  and a negative number is taken as it is, and the NaN is then published and saved for ever, whatever
  the service measures.\<close>

theorem bms_energy_load_unchecked:
  "let fs = \<lparr>target = JsonDoc (PyDict [(''energy_in_Wh'', PyFloat NaN), (''energy_out_Wh'', PyInt (- 5))]), tmp = None\<rparr>;
       svc0 = load_energy_state (bms_init now fs)
   in energy_in_Wh svc0 = NaN \<and> energy_out_Wh svc0 = Fin (- 5)
     \<and> (case bms_run ver cfg ss svc0 of (_, _, svc) \<Rightarrow> energy_in_Wh svc = NaN)"
proof -
  let ?fs = "\<lparr>target = JsonDoc (PyDict [(''energy_in_Wh'', PyFloat NaN), (''energy_out_Wh'', PyInt (- 5))]), tmp = None\<rparr>"
  have n: "energy_in_Wh (load_energy_state (bms_init now ?fs)) = NaN"
    and m: "energy_out_Wh (load_energy_state (bms_init now ?fs)) = Fin (- 5)"
    using fl_int [of "- 5"]
    by (simp_all add: load_energy_state_def bms_init_def dget_or_def float_of_int_def mkf_def dbl_limit_def)
  obtain ws ms svc where r: "run_async ver cfg ss (b_reconnect_initial_backoff_s cfg) (load_energy_state (bms_init now ?fs)) = (ws, ms, svc)"
    by (metis prod_cases3)
  show ?thesis
    using poisoned.async_run [OF r] n m by (simp add: bms_run_def r Let_def)
qed

end
