(* ===== verification/Daemon.thy ===== *)
theory Daemon
  imports Serial_Stream Srne_Map Inv_Aggregator Energy Mqtt_Publisher Bms_Service
begin

text \<open>
  \<open>daemon.py\<close>: polling, cycles and the main loop. The state is a record of the attributes of
  \<open>Daemon\<close>; clock readings are finite doubles and inputs, as is what a serial port delivers to every
  attempt of every query. A worker is a job: it finishes within the time its result is waited for,
  or it is still running when the cycle goes on and completes between two cycles. Inverter
  names are taken to be distinct. Every cycle gives the calls made on the MQTT client, in order;
  \<open>None\<close> in place of the aggregated values stands for the exception that aborts a cycle, which the
  main loop catches. The battery service runs beside the loop on its own client and shares no state with
  it, so its run is one step between its start and its stop.
\<close>

section \<open>Configuration and state\<close>

record inverter_cfg =
  iv_name :: string
  iv_port :: string
  iv_slave :: int

record polling_cfg =
  hot_interval_s :: pyfloat
  cold_interval_s :: pyfloat
  serial_timeout_s :: pyfloat
  inter_query_delay_s :: pyfloat
  retry_attempts :: int
  retry_backoff_s :: pyfloat

text \<open>What a port does during one query: the non-empty and empty reads, or an I/O error.\<close>

datatype serial_try = Chunks "bytes list" | SerialRaises

text \<open>The tries of a job, by block address and attempt.\<close>

type_synonym tries = "int \<Rightarrow> nat \<Rightarrow> serial_try"

record job =
  j_slave :: int
  j_tier :: block_tier
  j_tries :: tries

record daemon =
  d_inverters :: "inverter_cfg list"
  d_polling :: polling_cfg
  d_publisher :: publisher
  d_bms :: "(bms_cfg \<times> bms_service) option"
  integrator :: energy_integrator
  energy_disk :: energy_fs
  fail_count :: "(string, nat) dict"
  running :: "(string, job option) dict"
  crc_fails_total :: nat
  last_hot :: "rat option"
  meta_start :: rat

section \<open>Polling an inverter\<close>

text \<open>The attempts of a block from number \<open>attempt\<close> on, \<open>left\<close> of them: the frame, the checksum
  failures counted and the pauses made.\<close>

fun retry_loop ::
  "polling_cfg \<Rightarrow> int \<Rightarrow> block \<Rightarrow> (nat \<Rightarrow> serial_try) \<Rightarrow> nat \<Rightarrow> nat \<Rightarrow> modbus_frame option \<times> nat \<times> pyfloat list"
where
  "retry_loop cfg slave b tries attempt 0 = (None, 0, [])"
| "retry_loop cfg slave b tries attempt (Suc left) =
     (case tries attempt of
        SerialRaises \<Rightarrow> (None, 0, [])
      | Chunks chunks \<Rightarrow>
          (case query slave (bl_addr b) (int (bl_count b)) chunks of
             (Inr frame, errs) \<Rightarrow> (Some frame, errs, [])
           | (Inl (QueryModbus _), errs) \<Rightarrow> (None, errs, [])
           | (Inl (QueryTimeout _), errs) \<Rightarrow>
               if int attempt + 1 < retry_attempts cfg then
                 (case retry_loop cfg slave b tries (Suc attempt) left of
                    (frame, errs', pauses) \<Rightarrow>
                      (frame, errs + errs', pmul (retry_backoff_s cfg) (Fin (2 ^ attempt)) # pauses))
               else
                 (case retry_loop cfg slave b tries (Suc attempt) left of
                    (frame, errs', pauses) \<Rightarrow> (frame, errs + errs', pauses))))"

definition poll_block :: "polling_cfg \<Rightarrow> int \<Rightarrow> block \<Rightarrow> (nat \<Rightarrow> serial_try) \<Rightarrow> modbus_frame option \<times> nat \<times> pyfloat list" where
  "poll_block cfg slave b tries = retry_loop cfg slave b tries 0 (nat (retry_attempts cfg))"

text \<open>The loop over the blocks of the tier: \<open>out\<close>, \<open>any_success\<close> and the checksum failures.\<close>

fun poll_blocks ::
  "polling_cfg \<Rightarrow> int \<Rightarrow> tries \<Rightarrow> block list \<Rightarrow> readings \<times> bool \<times> nat \<Rightarrow> readings \<times> bool \<times> nat"
where
  "poll_blocks cfg slave tries [] acc = acc"
| "poll_blocks cfg slave tries (b # bs) (out, any, errs) =
     (case poll_block cfg slave b (tries (bl_addr b)) of
        (frame, e, _) \<Rightarrow>
          poll_blocks cfg slave tries bs
            (case frame of
               None \<Rightarrow> (out, any, errs + e)
             | Some f \<Rightarrow>
                 (case parse_block (bl_addr b) f of
                    Inl _ \<Rightarrow> (out, any, errs + e)
                  | Inr parsed \<Rightarrow> (dset (bl_name b) parsed out, True, errs + e))))"

definition poll_inverter :: "polling_cfg \<Rightarrow> job \<Rightarrow> readings \<times> bool \<times> nat" where
  "poll_inverter cfg j =
     poll_blocks cfg (j_slave j) (j_tries j) (filter (\<lambda>b. bl_tier b = j_tier j) BLOCKS) ([], False, 0)"

definition count_failure :: "string \<Rightarrow> daemon \<Rightarrow> daemon" where
  "count_failure name d = d\<lparr>fail_count := dset name (dget_or (fail_count d) name 0 + 1) (fail_count d)\<rparr>"

text \<open>The whole worker: the poll, the failure counter, the checksum counter.\<close>

definition finish_job :: "string \<Rightarrow> job \<Rightarrow> daemon \<Rightarrow> readings \<times> daemon" where
  "finish_job name j d =
     (case poll_inverter (d_polling d) j of
        (out, any, errs) \<Rightarrow>
          let d1 = d\<lparr>crc_fails_total := crc_fails_total d + errs\<rparr> in
          (out, if any then d1\<lparr>fail_count := dset name 0 (fail_count d1)\<rparr> else count_failure name d1))"

section \<open>Polling all inverters\<close>

text \<open>Inputs for one inverter in a cycle: whether a job left over is done by now, whether the new one
  finishes in time, its tries, and when it was started and collected. A poll that is skipped has no
  duration of its own: its zero is entered first.\<close>

record iv_in =
  in_prev_done :: bool
  in_in_time :: bool
  in_tries :: tries
  in_started :: rat
  in_ended :: rat

definition duration_ms :: "rat \<Rightarrow> rat \<Rightarrow> rat" where
  "duration_ms started ended = py_round 1 (fl (fl (ended - started) * 1000))"

definition submit_job :: "block_tier \<Rightarrow> inverter_cfg \<Rightarrow> iv_in \<Rightarrow> daemon \<Rightarrow> readings \<times> rat option \<times> daemon" where
  "submit_job tier iv inp d =
     (let j = \<lparr>j_slave = iv_slave iv, j_tier = tier, j_tries = in_tries inp\<rparr>;
          ms = duration_ms (in_started inp) (in_ended inp)
      in if in_in_time inp
         then (case finish_job (iv_name iv) j d of
                 (out, d1) \<Rightarrow> (out, Some ms, d1\<lparr>running := dset (iv_name iv) None (running d1)\<rparr>))
         else ([], Some ms, d\<lparr>running := dset (iv_name iv) (Some j) (running d)\<rparr>))"

definition poll_one :: "block_tier \<Rightarrow> inverter_cfg \<Rightarrow> iv_in \<Rightarrow> daemon \<Rightarrow> readings \<times> rat option \<times> daemon" where
  "poll_one tier iv inp d =
     (case dget_or (running d) (iv_name iv) None of
        None \<Rightarrow> submit_job tier iv inp d
      | Some j0 \<Rightarrow>
          if in_prev_done inp then submit_job tier iv inp (snd (finish_job (iv_name iv) j0 d))
          else ([], None, count_failure (iv_name iv) d))"

fun poll_each ::
  "block_tier \<Rightarrow> inverter_cfg list \<Rightarrow> (string \<Rightarrow> iv_in) \<Rightarrow> daemon \<Rightarrow> readings list \<times> (string \<times> rat option) list \<times> daemon"
where
  "poll_each tier [] inp d = ([], [], d)"
| "poll_each tier (iv # ivs) inp d =
     (case poll_one tier iv (inp (iv_name iv)) d of
        (out, ms, d1) \<Rightarrow>
          (case poll_each tier ivs inp d1 of
             (outs, durs, d2) \<Rightarrow> (out # outs, (iv_name iv, ms) # durs, d2)))"

definition status_text :: "nat \<Rightarrow> string" where
  "status_text fails = (if 3 \<le> fails then ''offline'' else ''online'')"

definition publish_status :: "daemon \<Rightarrow> paho_call list" where
  "publish_status d =
     concat (map (\<lambda>(n, iv). publish_value (pub_cfg (d_publisher d)) (ikey n ''status'')
         (PyStr (status_text (dget_or (fail_count d) (iv_name iv) 0)))) (enum1 (d_inverters d)))"

definition poll_all_parallel ::
  "block_tier \<Rightarrow> (string \<Rightarrow> iv_in) \<Rightarrow> daemon \<Rightarrow> readings list \<times> (string \<times> rat) list \<times> paho_call list \<times> daemon"
where
  "poll_all_parallel tier inp d =
     (case poll_each tier (d_inverters d) inp d of
        (outs, durs, d1) \<Rightarrow>
          (outs,
           List.map_filter (\<lambda>(name, ms). case ms of None \<Rightarrow> Some (name, 0) | Some _ \<Rightarrow> None) durs
           @ List.map_filter (\<lambda>(name, ms). map_option (Pair name) ms) durs,
           publish_status d1, d1))"

section \<open>Cycles\<close>

fun sval_py :: "sval \<Rightarrow> pyval" where
  "sval_py (Num x) = PyFloat (Fin x)"
| "sval_py (Txt s) = PyStr s"

definition sensors_py :: "sensors \<Rightarrow> (string, pyval) dict" where
  "sensors_py out = map (\<lambda>(k, v). (k, sval_py v)) out"

record hot_in =
  h_ivs :: "string \<Rightarrow> iv_in"
  h_start :: rat
  h_now :: rat
  h_end :: rat
  h_uptime :: rat

text \<open>\<open>max(0.0, x)\<close>.\<close>

definition elapsed_since :: "rat option \<Rightarrow> rat \<Rightarrow> pyfloat" where
  "elapsed_since prev now =
     (case prev of None \<Rightarrow> Fin 0 | Some t \<Rightarrow> let x = fl (now - t) in Fin (if 0 < x then x else 0))"

definition publish_json :: "mqtt_cfg \<Rightarrow> string \<Rightarrow> pyval \<Rightarrow> paho_call list" where
  "publish_json cfg key v =
     [Publish \<lparr>topic = state_topic cfg key, content = Json v, msg_qos = qos cfg, retain = False\<rparr>]"

definition meta_calls :: "hot_in \<Rightarrow> (string \<times> rat) list \<Rightarrow> daemon \<Rightarrow> paho_call list" where
  "meta_calls inp durs d =
     (let cfg = pub_cfg (d_publisher d) in
      publish_value cfg ''_meta/poll_duration_ms'' (PyFloat (Fin (duration_ms (h_start inp) (h_end inp))))
      @ publish_json cfg ''_meta/poll_duration_per_inverter_ms''
          (PyDict (map (\<lambda>(k, x). (k, PyFloat (Fin x))) (dupdate [] durs)))
      @ publish_value cfg ''_meta/crc_fails_total'' (PyInt (int (crc_fails_total d)))
      @ publish_value cfg ''_meta/uptime_s'' (PyFloat (Fin (py_round 1 (fl (h_uptime inp - meta_start d))))))"

text \<open>The result has the values published, or \<open>None\<close> if the cycle was aborted by an exception.\<close>

definition run_one_hot_cycle ::
  "py_version \<Rightarrow> hot_in \<Rightarrow> daemon \<Rightarrow> (string, pyval) dict option \<times> paho_call list \<times> daemon"
where
  "run_one_hot_cycle ver inp d =
     (case poll_all_parallel HOT (h_ivs inp) d of
        (per, durs, c1, d1) \<Rightarrow>
          (case aggregate_inverters ver per of
             None \<Rightarrow> (None, c1, d1)
           | Some agg \<Rightarrow>
               (case energy_update (integrator d1) (sensors_py agg) (elapsed_since (last_hot d1) (h_now inp)) of
                  Inl _ \<Rightarrow> (None, c1, d1)
                | Inr (st, energies) \<Rightarrow>
                    let values = dupdate (sensors_py agg) (map (\<lambda>(k, v). (k, PyFloat v)) energies);
                        d2 = d1\<lparr>integrator := st, last_hot := Some (h_now inp)\<rparr>;
                        cfg = pub_cfg (d_publisher d2)
                    in (Some values,
                        c1 @ publish_values cfg values
                        @ (if \<exists>blocks \<in> set per. blocks \<noteq> [] then set_online cfg else [])
                        @ meta_calls inp durs d2,
                        d2))))"

text \<open>\<open>save_energy_state\<close>: the integrator handles its own failures.\<close>

definition daemon_save_energy :: "(save_op \<Rightarrow> bool) \<Rightarrow> daemon \<Rightarrow> daemon" where
  "daemon_save_energy ok d = d\<lparr>energy_disk := energy_save ok (integrator d) (energy_disk d)\<rparr>"

record cold_in =
  c_ivs :: "string \<Rightarrow> iv_in"
  c_save_ok :: "save_op \<Rightarrow> bool"

definition run_one_cold_cycle ::
  "py_version \<Rightarrow> cold_in \<Rightarrow> daemon \<Rightarrow> (string, pyval) dict option \<times> paho_call list \<times> daemon"
where
  "run_one_cold_cycle ver inp d =
     (case poll_all_parallel COLD (c_ivs inp) d of
        (per, _, c1, d1) \<Rightarrow>
          (case aggregate_inverters ver per of
             None \<Rightarrow> (None, c1, d1)
           | Some agg \<Rightarrow>
               (Some (sensors_py agg),
                c1 @ (if agg \<noteq> [] then publish_values (pub_cfg (d_publisher d1)) (sensors_py agg) else []),
                daemon_save_energy (c_save_ok inp) d1)))"

section \<open>The main loop\<close>

record loop_in =
  l_hot :: hot_in
  l_check :: rat
  l_cold :: cold_in
  l_after_cold :: rat

text \<open>One iteration, with the local \<open>last_cold\<close>: an aborted cycle skips the rest of the iteration.\<close>

definition iteration ::
  "py_version \<Rightarrow> loop_in \<Rightarrow> rat \<times> daemon \<Rightarrow> paho_call list \<times> rat \<times> daemon"
where
  "iteration ver inp = (\<lambda>(last_cold, d).
     case run_one_hot_cycle ver (l_hot inp) d of
       (None, c1, d1) \<Rightarrow> (c1, last_cold, d1)
     | (Some _, c1, d1) \<Rightarrow>
         if ple (cold_interval_s (d_polling d1)) (Fin (fl (l_check inp - last_cold))) then
           (case run_one_cold_cycle ver (l_cold inp) d1 of
              (None, c2, d2) \<Rightarrow> (c1 @ c2, last_cold, d2)
            | (Some _, c2, d2) \<Rightarrow> (c1 @ c2, l_after_cold inp, d2))
         else (c1, last_cold, d1))"

fun loop_forever :: "py_version \<Rightarrow> loop_in list \<Rightarrow> rat \<times> daemon \<Rightarrow> paho_call list \<times> daemon" where
  "loop_forever ver [] (last_cold, d) = ([], d)"
| "loop_forever ver (inp # ins) st =
     (case iteration ver inp st of
        (c, st1) \<Rightarrow> (case loop_forever ver ins st1 of (cs, d) \<Rightarrow> (c @ cs, d)))"

text \<open>Inputs for the battery service: whether its client connects, what it meets while it runs, and
  the saving at its stop.\<close>

record bms_in =
  bi_connect_ok :: bool
  bi_event_set :: bool
  bi_sessions :: "session_in list"
  bi_save_ok :: "save_op \<Rightarrow> bool"
  bi_unix :: rat

text \<open>The service from start to stop. A failed start drops it and the bridge goes on without it.\<close>

definition bms_lifetime ::
  "py_version \<Rightarrow> mqtt_cfg \<Rightarrow> bms_in \<Rightarrow> (bms_cfg \<times> bms_service) option \<Rightarrow> bms_call list \<times> (bms_cfg \<times> bms_service) option"
where
  "bms_lifetime ver mqtt inp bms =
     (case bms of
        None \<Rightarrow> ([], None)
      | Some (cfg, svc) \<Rightarrow>
          (case bms_start cfg (connect_mqtt cfg (username mqtt) (password mqtt) (host mqtt) (port mqtt))
                  (bi_connect_ok inp) (bi_event_set inp) False svc of
             Inl _ \<Rightarrow> ([], None)
           | Inr (started, calls, svc1) \<Rightarrow>
               (case (if started then bms_run ver cfg (bi_sessions inp) svc1 else ([], [], svc1)) of
                  (_, msgs, svc2) \<Rightarrow>
                    (case bms_stop cfg (bi_save_ok inp) (bi_unix inp) started svc2 of
                       (calls', _, svc3) \<Rightarrow> (calls @ map BPublish msgs @ calls', Some (cfg, svc3))))))"

text \<open>From start to shutdown: the loop runs the given iterations and is then interrupted, and the
  \<open>finally\<close> block saves, stops the service and disconnects. The calls of the two clients are separate.\<close>

definition daemon_start ::
  "py_version \<Rightarrow> rat \<Rightarrow> loop_in list \<Rightarrow> (save_op \<Rightarrow> bool) \<Rightarrow> bms_in \<Rightarrow> daemon \<Rightarrow> paho_call list \<times> bms_call list \<times> daemon"
where
  "daemon_start ver now ins ok bin d =
     (case mqtt_connect (d_publisher d) of
        (c0, p) \<Rightarrow>
          let d0 = d\<lparr>d_publisher := p\<rparr>;
              c1 = publish_discovery p @ set_online (pub_cfg p)
          in (case loop_forever ver ins (now, d0) of
                (c2, d1) \<Rightarrow>
                  let d2 = daemon_save_energy ok d1 in
                  (case (bms_lifetime ver (pub_cfg p) bin (d_bms d2), mqtt_disconnect (d_publisher d2)) of
                     ((bc, bms), (c3, p3)) \<Rightarrow>
                       (c0 @ c1 @ c2 @ c3, bc, d2\<lparr>d_publisher := p3, d_bms := bms\<rparr>))))"

definition daemon_init ::
  "inverter_cfg list \<Rightarrow> polling_cfg \<Rightarrow> mqtt_cfg \<Rightarrow> bms_cfg \<Rightarrow> string option \<Rightarrow> energy_fs \<Rightarrow> energy_fs \<Rightarrow> rat
   \<Rightarrow> energy_error + daemon"
where
  "daemon_init ivs polling mqtt bms path fs bms_fs now =
     bindE (energy_init path (target fs)) (\<lambda>st.
       Inr \<lparr>d_inverters = ivs, d_polling = polling, d_publisher = publisher_init mqtt (length ivs),
            d_bms = (if b_enabled bms then Some (bms, bms_init now bms_fs) else None),
            integrator = st, energy_disk = fs, fail_count = [], running = [],
            crc_fails_total = 0, last_hot = None, meta_start = now\<rparr>)"

end
