(* ===== verification/Daemon_Runs.thy ===== *)
theory Daemon_Runs
  imports Daemon Bms_Runs
begin

text \<open>
  What the daemon keeps and promises: the retries of a query, the refinement of the parallel poll to
  one machine per inverter and the offline marker, cycles that are never aborted, the energy totals
  over whole runs, and what the broker retains after a shutdown.
\<close>

section \<open>Retries\<close>

definition timed_out :: "int \<Rightarrow> block \<Rightarrow> serial_try \<Rightarrow> bool" where
  "timed_out slave b t = (case t of SerialRaises \<Rightarrow> False
     | Chunks cs \<Rightarrow> (case fst (query slave (bl_addr b) (int (bl_count b)) cs) of Inl (QueryTimeout _) \<Rightarrow> True | _ \<Rightarrow> False))"

definition answer :: "int \<Rightarrow> block \<Rightarrow> serial_try \<Rightarrow> modbus_frame option" where
  "answer slave b t = (case t of SerialRaises \<Rightarrow> None
     | Chunks cs \<Rightarrow> (case fst (query slave (bl_addr b) (int (bl_count b)) cs) of Inr f \<Rightarrow> Some f | _ \<Rightarrow> None))"

lemma retry_loop_eq:
  assumes "int attempt + int left = retry_attempts cfg"
    and "k = length (takeWhile (\<lambda>i. timed_out slave b (tries i)) [attempt..<attempt + left])"
  shows "fst (retry_loop cfg slave b tries attempt left) = (if k < left then answer slave b (tries (attempt + k)) else None)
    \<and> snd (snd (retry_loop cfg slave b tries attempt left)) =
        map (\<lambda>i. pmul (retry_backoff_s cfg) (Fin (2 ^ i))) [attempt..<attempt + min k (left - 1)]"
  using assms
proof (induction left arbitrary: attempt k)
  case (Suc left)
  let ?rest = "retry_loop cfg slave b tries (Suc attempt) left"
  define m where "m = length (takeWhile (\<lambda>i. timed_out slave b (tries i)) [Suc attempt..<Suc attempt + left])"
  have IH: "fst ?rest = (if m < left then answer slave b (tries (Suc attempt + m)) else None)"
    "snd (snd ?rest) = map (\<lambda>i. pmul (retry_backoff_s cfg) (Fin (2 ^ i))) [Suc attempt..<Suc attempt + min m (left - 1)]"
    using Suc.IH [OF _ m_def] Suc.prems(1) by simp_all
  have upt: "[attempt..<attempt + Suc left] = attempt # [Suc attempt..<Suc attempt + left]"
    by (simp add: upt_rec)
  show ?case
  proof (cases "timed_out slave b (tries attempt)")
    case False
    then have "k = 0"
      using Suc.prems(2) unfolding upt by simp
    then show ?thesis
      using False by (auto simp: timed_out_def answer_def split: serial_try.split prod.split sum.split query_error.split)
  next
    case True
    then have k: "k = Suc m"
      using Suc.prems(2) unfolding upt m_def by simp
    obtain cs n e where t: "tries attempt = Chunks cs" "query slave (bl_addr b) (int (bl_count b)) cs = (Inl (QueryTimeout n), e)"
      using True by (auto simp: timed_out_def split: serial_try.splits sum.splits query_error.splits prod.splits)
        (metis prod.collapse)
    have r: "fst (retry_loop cfg slave b tries attempt (Suc left)) = fst ?rest"
      "snd (snd (retry_loop cfg slave b tries attempt (Suc left))) =
         (if int attempt + 1 < retry_attempts cfg then [pmul (retry_backoff_s cfg) (Fin (2 ^ attempt))] else []) @ snd (snd ?rest)"
      by (simp_all add: t split: prod.split)
    have p: "(if int attempt + 1 < retry_attempts cfg then [attempt] else []) @ [Suc attempt..<Suc attempt + min m (left - 1)]
        = [attempt..<attempt + min k (Suc left - 1)]"
    proof (cases "left = 0")
      case False
      then have "min k (Suc left - 1) = Suc (min m (left - 1))" "int attempt + 1 < retry_attempts cfg"
        using Suc.prems(1) k by auto
      moreover have "[attempt..<attempt + Suc x] = attempt # [Suc attempt..<Suc attempt + x]" for x
        by (subst upt_conv_Cons) simp_all
      ultimately show ?thesis
        by (simp only: if_True append_Cons append_Nil)
    qed (use Suc.prems(1) in simp)
    have "snd (snd (retry_loop cfg slave b tries attempt (Suc left))) =
        map (\<lambda>i. pmul (retry_backoff_s cfg) (Fin (2 ^ i)))
          ((if int attempt + 1 < retry_attempts cfg then [attempt] else []) @ [Suc attempt..<Suc attempt + min m (left - 1)])"
      unfolding r IH(2) map_append by simp
    then show ?thesis
      unfolding p r(1) IH(1) k by simp
  qed
qed simp

text \<open>A block is read with at most \<open>retry_attempts\<close> queries: the frame is the answer to the first
  query that does not time out, an exception of any kind ends the attempts, and between timeouts the
  pauses are the backoff times 1, 2, 4, ..., none after the last attempt.\<close>

theorem retry_exact:
  "let n = nat (retry_attempts cfg);
       k = length (takeWhile (\<lambda>i. timed_out slave b (tries i)) [0..<n]);
       (frame, errs, pauses) = poll_block cfg slave b tries
   in frame = (if k < n then answer slave b (tries k) else None)
     \<and> pauses = map (\<lambda>i. pmul (retry_backoff_s cfg) (Fin (2 ^ i))) [0..<min k (n - 1)]"
proof (cases "0 \<le> retry_attempts cfg")
  case True
  then show ?thesis
    using retry_loop_eq [of 0 "nat (retry_attempts cfg)" cfg _ slave b tries]
    by (auto simp: poll_block_def Let_def split: prod.split)
qed (simp add: poll_block_def)

section \<open>What one inverter sees\<close>

definition view :: "daemon \<Rightarrow> string \<Rightarrow> nat \<times> job option" where
  "view d name = (dget_or (fail_count d) name 0, dget_or (running d) name None)"

definition job_ok :: "polling_cfg \<Rightarrow> job \<Rightarrow> bool" where
  "job_ok cfg j = fst (snd (poll_inverter cfg j))"

definition after_job :: "bool \<Rightarrow> nat \<Rightarrow> nat" where
  "after_job success n = (if success then 0 else n + 1)"

text \<open>The abstract machine of one inverter: its failure count and the job still running.\<close>

definition iv_step :: "polling_cfg \<Rightarrow> block_tier \<Rightarrow> inverter_cfg \<Rightarrow> iv_in \<Rightarrow> nat \<times> job option \<Rightarrow> readings \<times> nat \<times> job option" where
  "iv_step cfg tier iv inp = (\<lambda>(n, pending).
     let j = \<lparr>j_slave = iv_slave iv, j_tier = tier, j_tries = in_tries inp\<rparr>;
         start = (\<lambda>n. if in_in_time inp then (fst (poll_inverter cfg j), after_job (job_ok cfg j) n, None) else ([], n, Some j))
     in case pending of
          None \<Rightarrow> start n
        | Some j0 \<Rightarrow> if in_prev_done inp then start (after_job (job_ok cfg j0) n) else ([], n + 1, pending))"

lemma view_running [simp]: "view (d\<lparr>running := dset name x (running d)\<rparr>) name' =
    (fst (view d name'), if name' = name then x else snd (view d name'))"
  by (simp add: view_def dget_or_def dict_simps)

lemma view_failure [simp]: "view (count_failure name d) name' =
    (if name' = name then fst (view d name') + 1 else fst (view d name'), snd (view d name'))"
  by (simp add: view_def count_failure_def dget_or_def dict_simps)

lemma view_finish [simp]: "view (snd (finish_job name j d)) name' =
    (if name' = name then after_job (job_ok (d_polling d) j) (fst (view d name')) else fst (view d name'), snd (view d name'))"
  by (simp add: finish_job_def view_def job_ok_def after_job_def count_failure_def dget_or_def dict_simps Let_def
      split: prod.split)

lemma out_finish [simp]: "fst (finish_job name j d) = fst (poll_inverter (d_polling d) j)"
  by (simp add: finish_job_def Let_def split: prod.split)

definition same_frame :: "daemon \<Rightarrow> daemon \<Rightarrow> bool" where
  "same_frame d d' \<longleftrightarrow> d_polling d' = d_polling d \<and> d_inverters d' = d_inverters d \<and> d_publisher d' = d_publisher d
     \<and> integrator d' = integrator d \<and> last_hot d' = last_hot d \<and> energy_disk d' = energy_disk d
     \<and> meta_start d' = meta_start d \<and> d_bms d' = d_bms d"

lemma same_frame_finish: "same_frame d (snd (finish_job name j d))"
  by (simp add: finish_job_def same_frame_def count_failure_def Let_def split: prod.split)

lemma submit_job_eq: "submit_job tier iv inp d =
    (let j = \<lparr>j_slave = iv_slave iv, j_tier = tier, j_tries = in_tries inp\<rparr>;
         ms = Some (duration_ms (in_started inp) (in_ended inp)) in
     if in_in_time inp
     then (fst (finish_job (iv_name iv) j d), ms,
           (snd (finish_job (iv_name iv) j d))\<lparr>running := dset (iv_name iv) None (running (snd (finish_job (iv_name iv) j d)))\<rparr>)
     else ([], ms, d\<lparr>running := dset (iv_name iv) (Some j) (running d)\<rparr>))"
  unfolding submit_job_def Let_def case_prod_beta by (rule refl)

lemma same_frame_trans: "same_frame d d1 \<Longrightarrow> same_frame d1 d2 \<Longrightarrow> same_frame d d2"
  by (simp add: same_frame_def)

lemma poll_one_frame: "same_frame d (snd (snd (poll_one tier iv inp d)))"
proof -
  have s: "same_frame d (snd (snd (submit_job tier iv inp d)))" for d
    using same_frame_finish [of d] by (simp add: submit_job_eq Let_def same_frame_def)
  show ?thesis
    using same_frame_trans [OF same_frame_finish s] s
    by (simp add: poll_one_def same_frame_def count_failure_def split: option.split)
qed

lemma submit_other: "name' \<noteq> iv_name iv \<Longrightarrow> view (snd (snd (submit_job tier iv inp d))) name' = view d name'"
  by (simp add: submit_job_eq Let_def)

lemma poll_one_other: "name' \<noteq> iv_name iv \<Longrightarrow> view (snd (snd (poll_one tier iv inp d))) name' = view d name'"
  by (simp add: poll_one_def submit_other split: option.split)

lemma submit_view:
  defines "j \<equiv> \<lambda>tier iv inp. \<lparr>j_slave = iv_slave iv, j_tier = tier, j_tries = in_tries inp\<rparr>"
  shows "fst (submit_job tier iv inp d) = (if in_in_time inp then fst (poll_inverter (d_polling d) (j tier iv inp)) else [])"
    and "view (snd (snd (submit_job tier iv inp d))) (iv_name iv) =
      (if in_in_time inp then (after_job (job_ok (d_polling d) (j tier iv inp)) (fst (view d (iv_name iv))), None)
       else (fst (view d (iv_name iv)), Some (j tier iv inp)))"
  by (simp_all add: submit_job_eq j_def Let_def)

lemma poll_one_view:
  "(fst (poll_one tier iv inp d), view (snd (snd (poll_one tier iv inp d))) (iv_name iv))
     = iv_step (d_polling d) tier iv inp (view d (iv_name iv))"
proof -
  have r: "dget_or (running d) (iv_name iv) None = snd (view d (iv_name iv))"
    by (simp add: view_def)
  have p: "d_polling (snd (finish_job name j d)) = d_polling d" for name j d
    using same_frame_finish [of d name j] by (simp add: same_frame_def)
  obtain n pend where v: "view d (iv_name iv) = (n, pend)"
    by fastforce
  have s: "iv_step (d_polling d) tier iv inp (n, pend) =
      (let j = \<lparr>j_slave = iv_slave iv, j_tier = tier, j_tries = in_tries inp\<rparr>;
           start = (\<lambda>n. if in_in_time inp
             then (fst (poll_inverter (d_polling d) j), after_job (job_ok (d_polling d) j) n, None) else ([], n, Some j))
       in case pend of
            None \<Rightarrow> start n
          | Some j0 \<Rightarrow> if in_prev_done inp then start (after_job (job_ok (d_polling d) j0) n) else ([], n + 1, pend))" for n pend
    by (simp only: iv_step_def prod.case)
  show ?thesis
    by (cases pend) (simp_all add: poll_one_def r v s submit_view p Let_def)
qed

lemma poll_each_frame: "same_frame d (snd (snd (poll_each tier ivs inp d)))"
proof (induction ivs arbitrary: d)
  case (Cons iv ivs)
  have "snd (snd (poll_each tier (iv # ivs) inp d)) = snd (snd (poll_each tier ivs inp (snd (snd (poll_one tier iv (inp (iv_name iv)) d)))))"
    by (simp split: prod.split)
  then show ?case
    using same_frame_trans [OF poll_one_frame Cons.IH] by simp
qed (simp add: same_frame_def)

lemma poll_each_other: "name \<notin> iv_name ` set ivs \<Longrightarrow> view (snd (snd (poll_each tier ivs inp d))) name = view d name"
proof (induction ivs arbitrary: d)
  case (Cons iv ivs)
  have "view (snd (snd (poll_one tier iv (inp (iv_name iv)) d))) name = view d name"
    using Cons.prems by (intro poll_one_other) simp
  moreover have "snd (snd (poll_each tier (iv # ivs) inp d)) = snd (snd (poll_each tier ivs inp (snd (snd (poll_one tier iv (inp (iv_name iv)) d)))))"
    by (simp split: prod.split)
  ultimately show ?case
    using Cons by simp
qed simp

lemma poll_each_length: "length (fst (poll_each tier ivs inp d)) = length ivs"
  by (induction ivs arbitrary: d) (auto split: prod.split, metis fst_conv)

lemma poll_each_view:
  assumes "distinct (map iv_name ivs)" and "i < length ivs"
  shows "(fst (poll_each tier ivs inp d) ! i, view (snd (snd (poll_each tier ivs inp d))) (iv_name (ivs ! i)))
    = iv_step (d_polling d) tier (ivs ! i) (inp (iv_name (ivs ! i))) (view d (iv_name (ivs ! i)))"
  using assms
proof (induction ivs arbitrary: d i)
  case (Cons iv ivs)
  obtain out ms d1 where 1: "poll_one tier iv (inp (iv_name iv)) d = (out, ms, d1)"
    by (metis prod_cases3)
  obtain outs durs d2 where 2: "poll_each tier ivs inp d1 = (outs, durs, d2)"
    by (metis prod_cases3)
  have v: "(out, view d1 (iv_name iv)) = iv_step (d_polling d) tier iv (inp (iv_name iv)) (view d (iv_name iv))"
    using poll_one_view [of tier iv "inp (iv_name iv)" d] by (simp add: 1)
  have p: "d_polling d1 = d_polling d"
    using poll_one_frame [of d tier iv "inp (iv_name iv)"] by (simp add: 1 same_frame_def)
  show ?case
  proof (cases i)
    case 0
    have "view d2 (iv_name iv) = view d1 (iv_name iv)"
      using poll_each_other [of "iv_name iv" ivs tier inp d1] Cons.prems(1) by (simp add: 2)
    then show ?thesis
      using v 0 by (simp add: 1 2)
  next
    case (Suc k)
    have "iv_name (ivs ! k) \<noteq> iv_name iv"
    proof -
      have "iv_name iv \<notin> iv_name ` set ivs" "ivs ! k \<in> set ivs"
        using Cons.prems Suc by simp_all
      then show ?thesis
        by (metis image_eqI)
    qed
    then have "view d1 (iv_name (ivs ! k)) = view d (iv_name (ivs ! k))"
      using poll_one_other [of "iv_name (ivs ! k)" iv tier "inp (iv_name iv)" d] by (simp add: 1)
    then show ?thesis
      using Cons.IH [of k d1] Cons.prems Suc by (simp add: 1 2 p)
  qed
qed simp

lemma status_calls: "publish_status d = map (\<lambda>iv_n. Publish \<lparr>topic = state_topic (pub_cfg (d_publisher d)) (ikey (fst iv_n) ''status''),
     content = StrOf (PyStr (status_text (fst (view d (iv_name (snd iv_n)))))),
     msg_qos = qos (pub_cfg (d_publisher d)), retain = False\<rparr>) (enum1 (d_inverters d))"
proof -
  have c: "concat (map (\<lambda>x. [g x]) xs) = map g xs" for g :: "nat \<times> inverter_cfg \<Rightarrow> paho_call" and xs
    by (induction xs) simp_all
  show ?thesis
    unfolding publish_status_def publish_value_def case_prod_beta c by (simp add: view_def)
qed

lemma enum1_nth: "i < length xs \<Longrightarrow> enum1 xs ! i = (Suc i, xs ! i)" "length (enum1 xs) = length xs"
  by (simp_all add: enum1_def del: upt_Suc)

text \<open>C6. The parallel poll refines one machine per inverter: slot \<open>i\<close> of the result, the failure count
  and the pending job of inverter \<open>i\<close>, and the status published for it are those of its own machine,
  which sees nothing of the other inverters; the results are in the order of the configuration.\<close>

theorem poll_refines:
  assumes "distinct (map iv_name (d_inverters d))" and "i < length (d_inverters d)"
  shows "let (outs, durs, calls, d') = poll_all_parallel tier inp d;
             iv = d_inverters d ! i; cfg = pub_cfg (d_publisher d) in
     (outs ! i, view d' (iv_name iv)) = iv_step (d_polling d) tier iv (inp (iv_name iv)) (view d (iv_name iv))
     \<and> calls ! i = Publish \<lparr>topic = state_topic cfg (ikey (Suc i) ''status''),
          content = StrOf (PyStr (status_text (fst (view d' (iv_name iv))))), msg_qos = qos cfg, retain = False\<rparr>
     \<and> length outs = length (d_inverters d) \<and> length calls = length (d_inverters d) \<and> same_frame d d'"
proof -
  obtain outs durs d' where p: "poll_each tier (d_inverters d) inp d = (outs, durs, d')"
    by (metis prod_cases3)
  have f: "same_frame d d'"
    using poll_each_frame [of d tier "d_inverters d" inp] by (simp add: p)
  then have s: "d_inverters d' = d_inverters d" "d_publisher d' = d_publisher d"
    by (simp_all add: same_frame_def)
  show ?thesis
    using poll_each_view [OF assms, of tier inp d] poll_each_length [of tier "d_inverters d" inp d] assms(2) f
    by (simp add: poll_all_parallel_def p status_calls s enum1_nth)
qed

definition demo_polling :: polling_cfg where
  "demo_polling = \<lparr>hot_interval_s = Fin 3, cold_interval_s = Fin 60, serial_timeout_s = Fin (3 / 2),
     inter_query_delay_s = Fin (fl (1 / 20)), retry_attempts = 3, retry_backoff_s = Fin (fl (1 / 10))\<rparr>"

definition demo_mqtt :: mqtt_cfg where
  "demo_mqtt = \<lparr>host = ''broker'', username = ''u'', password = ''p'', port = 1883, client_id = ''c'',
     topic_prefix = ''inv'', discovery_prefix = ''homeassistant'', retain_discovery = True, qos = 0\<rparr>"

definition demo_ivs :: "inverter_cfg list" where
  "demo_ivs = [\<lparr>iv_name = ''a'', iv_port = ''/dev/ttyUSB0'', iv_slave = 1\<rparr>,
     \<lparr>iv_name = ''b'', iv_port = ''/dev/ttyUSB1'', iv_slave = 2\<rparr>]"

definition demo_daemon :: daemon where
  "demo_daemon = \<lparr>d_inverters = demo_ivs, d_polling = demo_polling, d_publisher = publisher_init demo_mqtt 2,
     d_bms = None, integrator = \<lparr>persist_path = Some ''energy.json'', wh = zero_wh\<rparr>,
     energy_disk = \<lparr>target = NoFile, tmp = None\<rparr>, fail_count = [], running = [], crc_fails_total = 0,
     last_hot = None, meta_start = 0\<rparr>"

text \<open>A port that fails at once, in a job that ends in time or not.\<close>

definition dead_port :: "bool \<Rightarrow> iv_in" where
  "dead_port in_time = \<lparr>in_prev_done = False, in_in_time = in_time, in_tries = (\<lambda>_ _. SerialRaises),
     in_started = 0, in_ended = 0\<rparr>"

lemma demo_simps [simp]:
  "d_inverters demo_daemon = demo_ivs" "d_polling demo_daemon = demo_polling" "length demo_ivs = 2"
  "d_publisher demo_daemon = publisher_init demo_mqtt 2" "view demo_daemon name = (0, None)"
  "demo_ivs ! 0 = \<lparr>iv_name = ''a'', iv_port = ''/dev/ttyUSB0'', iv_slave = 1\<rparr>"
  "demo_ivs ! 1 = \<lparr>iv_name = ''b'', iv_port = ''/dev/ttyUSB1'', iv_slave = 2\<rparr>"
  "distinct (map iv_name demo_ivs)"
  by (simp_all add: demo_daemon_def demo_ivs_def view_def dget_or_def)

lemma dead_poll: "poll_inverter cfg \<lparr>j_slave = s, j_tier = t, j_tries = \<lambda>_ _. SerialRaises\<rparr> = ([], False, 0)"
proof -
  have r: "retry_loop cfg s b (\<lambda>_. SerialRaises) n k = (None, 0, [])" for b n k
    by (cases k) simp_all
  have "poll_blocks cfg s (\<lambda>_ _. SerialRaises) bs ([], False, 0) = ([], False, 0)" for bs
    by (induction bs) (simp_all add: poll_block_def r)
  then show ?thesis
    by (simp add: poll_inverter_def)
qed

theorem poll_refines_witness:
  "let d' = snd (snd (snd (poll_all_parallel HOT (\<lambda>name. dead_port (name = ''b'')) demo_daemon))) in
     view d' ''a'' = (0, Some \<lparr>j_slave = 1, j_tier = HOT, j_tries = \<lambda>_ _. SerialRaises\<rparr>)
     \<and> view d' ''b'' = (1, None)"
proof -
  have "i < length (d_inverters demo_daemon)" if "i < 2" for i
    using that by simp
  from poll_refines [OF _ this, of 0 HOT "\<lambda>name. dead_port (name = ''b'')"]
    poll_refines [OF _ this, of 1 HOT "\<lambda>name. dead_port (name = ''b'')"]
  show ?thesis
    by (simp add: Let_def split_beta iv_step_def dead_port_def job_ok_def dead_poll after_job_def del: One_nat_def)
qed

section \<open>The offline marker\<close>

text \<open>The outcomes counted for an inverter in one cycle, in order: jobs that ended, and cycles skipped.\<close>

definition outcomes :: "polling_cfg \<Rightarrow> block_tier \<Rightarrow> inverter_cfg \<Rightarrow> iv_in \<Rightarrow> job option \<Rightarrow> bool list" where
  "outcomes cfg tier iv inp pending =
     (let start = (if in_in_time inp then [job_ok cfg \<lparr>j_slave = iv_slave iv, j_tier = tier, j_tries = in_tries inp\<rparr>] else [])
      in case pending of
           None \<Rightarrow> start
         | Some j0 \<Rightarrow> if in_prev_done inp then job_ok cfg j0 # start else [False])"

fun history :: "polling_cfg \<Rightarrow> inverter_cfg \<Rightarrow> (block_tier \<times> (string \<Rightarrow> iv_in)) list \<Rightarrow> nat \<times> job option \<Rightarrow> bool list" where
  "history cfg iv [] st = []"
| "history cfg iv ((tier, inp) # ps) st =
     outcomes cfg tier iv (inp (iv_name iv)) (snd st)
     @ history cfg iv ps (snd (iv_step cfg tier iv (inp (iv_name iv)) st))"

definition polls :: "(block_tier \<times> (string \<Rightarrow> iv_in)) list \<Rightarrow> daemon \<Rightarrow> daemon" where
  "polls ps d = fold (\<lambda>(tier, inp) d. snd (snd (snd (poll_all_parallel tier inp d)))) ps d"

lemma iv_step_count: "fst (snd (iv_step cfg tier iv inp st)) = fold after_job (outcomes cfg tier iv inp (snd st)) (fst st)"
  by (auto simp: iv_step_def outcomes_def after_job_def Let_def split: prod.split option.split)

lemma fold_after_job: "fold after_job tr n = (if True \<in> set tr then 0 else n) + length (takeWhile Not (rev tr))"
proof (induction tr rule: rev_induct)
  case (snoc b tr)
  then show ?case
    by (cases b) (simp_all add: after_job_def)
qed simp

lemma poll_frame_view:
  assumes "distinct (map iv_name (d_inverters d))" and "iv \<in> set (d_inverters d)"
    and "d1 = snd (snd (snd (poll_all_parallel tier inp d)))"
  shows "d_inverters d1 = d_inverters d \<and> d_polling d1 = d_polling d
    \<and> view d1 (iv_name iv) = snd (iv_step (d_polling d) tier iv (inp (iv_name iv)) (view d (iv_name iv)))"
proof -
  obtain i where i: "i < length (d_inverters d)" "iv = d_inverters d ! i"
    using assms(2) by (metis in_set_conv_nth)
  have "d1 = snd (snd (poll_each tier (d_inverters d) inp d))"
    by (simp add: assms(3) poll_all_parallel_def split: prod.split)
  then show ?thesis
    using poll_each_view [OF assms(1) i(1), of tier inp d] poll_each_frame [of d tier "d_inverters d" inp] i(2)
    by (simp add: same_frame_def) (metis snd_conv)
qed

lemma polls_count:
  assumes "distinct (map iv_name (d_inverters d))" and "iv \<in> set (d_inverters d)"
  shows "fst (view (polls ps d) (iv_name iv))
    = fold after_job (history (d_polling d) iv ps (view d (iv_name iv))) (fst (view d (iv_name iv)))"
  using assms
proof (induction ps arbitrary: d)
  case (Cons p ps)
  obtain tier inp where p: "p = (tier, inp)"
    by (cases p)
  show ?case
    using Cons.IH [of "snd (snd (snd (poll_all_parallel tier inp d)))"] poll_frame_view [OF Cons.prems refl, of tier inp] Cons.prems
    by (simp add: polls_def p iv_step_count)
qed (simp add: polls_def)

text \<open>C17. The offline marker is exact: after any polls, hot and cold in any order, with jobs that finish
  in time, late or not yet, the failure count of an inverter is the number of failures since its last
  success, and it is reported offline exactly when its last three outcomes were failures.\<close>

theorem offline_marker:
  assumes "distinct (map iv_name (d_inverters d))" and "iv \<in> set (d_inverters d)"
    and "view d (iv_name iv) = (0, None)"
  shows "let n = fst (view (polls ps d) (iv_name iv)); tr = history (d_polling d) iv ps (0, None) in
     n = length (takeWhile Not (rev tr))
     \<and> (status_text n = ''offline'' \<longleftrightarrow> 3 \<le> length tr \<and> (\<forall>ok \<in> set (drop (length tr - 3) tr). \<not> ok))"
proof -
  define tr where "tr = history (d_polling d) iv ps (0, None)"
  have n: "fst (view (polls ps d) (iv_name iv)) = length (takeWhile Not (rev tr))"
    using polls_count [OF assms(1,2), of ps] assms(3) by (simp add: tr_def fold_after_job)
  have "3 \<le> length (takeWhile Not xs) \<longleftrightarrow> 3 \<le> length xs \<and> (\<forall>ok \<in> set (take 3 xs). \<not> ok)" for xs
    by (cases xs; cases "tl xs"; cases "tl (tl xs)") auto
  from this [of "rev tr"] show ?thesis
    unfolding n Let_def tr_def [symmetric] status_text_def by (auto simp: take_rev)
qed

theorem offline_marker_witness:
  "let wedged = (HOT, \<lambda>_. dead_port False); failing = (HOT, \<lambda>_. dead_port True) in
     fst (view (polls [failing, wedged, wedged] demo_daemon) ''a'') = 2
     \<and> fst (view (polls [failing, wedged, wedged, wedged] demo_daemon) ''a'') = 3
     \<and> status_text (fst (view (polls [failing, wedged, wedged, wedged] demo_daemon) ''a'')) = ''offline''"
proof -
  have m: "demo_ivs ! 0 \<in> set demo_ivs"
    by (intro nth_mem) simp
  have a: "view demo_daemon (iv_name (demo_ivs ! 0)) = (0, None)" "demo_ivs ! 0 \<in> set (d_inverters demo_daemon)"
    "distinct (map iv_name (d_inverters demo_daemon))"
    using m by simp_all
  note t = offline_marker [OF a(3,2,1)]
  show ?thesis
    using t [of "[(HOT, \<lambda>_. dead_port True), (HOT, \<lambda>_. dead_port False), (HOT, \<lambda>_. dead_port False)]"]
      t [of "[(HOT, \<lambda>_. dead_port True), (HOT, \<lambda>_. dead_port False), (HOT, \<lambda>_. dead_port False), (HOT, \<lambda>_. dead_port False)]"]
    by (simp add: Let_def outcomes_def iv_step_def dead_port_def job_ok_def dead_poll status_text_def)
qed

section \<open>What a poll delivers\<close>

lemma query_frame:
  assumes "fst (query slave addr count chunks) = Inr f"
  shows "mine slave count f \<and> reg_range (mf_regs f)"
proof -
  have "fst (query_loop [] slave addr count chunks 0) = Inr f"
    using assms by (auto simp: query_def split: sum.splits)
  then obtain n where "fst (select_response ([] @ concat (take n chunks)) slave addr count) = Some f"
    using query_loop_Inr by blast
  from select_response_received [OF this] show ?thesis
    by (simp add: good_frame_def good_response_def)
qed

lemma retry_frame: "fst (retry_loop cfg slave b tries n k) = Some f \<Longrightarrow> mine slave (int (bl_count b)) f \<and> reg_range (mf_regs f)"
proof (induction k arbitrary: n)
  case (Suc k)
  show ?case
  proof (cases "tries n")
    case (Chunks cs)
    obtain r e where q: "query slave (bl_addr b) (int (bl_count b)) cs = (r, e)"
      by fastforce
    show ?thesis
    proof (cases r)
      case (Inl x)
      then show ?thesis
        using Suc by (cases x) (auto simp: Chunks q split: prod.splits if_splits, (metis fst_conv)+)
    next
      case (Inr g)
      then show ?thesis
        using Suc.prems query_frame [of slave "bl_addr b" "int (bl_count b)" cs g] by (simp add: Chunks q)
    qed
  qed (use Suc.prems in simp)
qed simp

text \<open>The blocks of a poll: parsed from frames of the inverter, filed under their own names.\<close>

lemma poll_blocks_ok:
  assumes "set bs \<subseteq> set BLOCKS" and "readings_ok (fst acc)"
    and "\<forall>name pb. dget (fst acc) name = Some pb \<longrightarrow> pb_slave pb = slave"
  shows "readings_ok (fst (poll_blocks cfg slave tries bs acc))
    \<and> (\<forall>name pb. dget (fst (poll_blocks cfg slave tries bs acc)) name = Some pb \<longrightarrow> pb_slave pb = slave)"
  using assms
proof (induction bs arbitrary: acc)
  case (Cons b bs)
  obtain out any errs where a: "acc = (out, any, errs)"
    by (metis prod_cases3)
  obtain frame e p where pb: "poll_block cfg slave b (tries (bl_addr b)) = (frame, e, p)"
    by (metis prod_cases3)
  define acc' where "acc' = (case frame of None \<Rightarrow> (out, any, errs + e)
     | Some f \<Rightarrow> (case parse_block (bl_addr b) f of Inl _ \<Rightarrow> (out, any, errs + e)
         | Inr parsed \<Rightarrow> (dset (bl_name b) parsed out, True, errs + e)))"
  have step: "poll_blocks cfg slave tries (b # bs) acc = poll_blocks cfg slave tries bs acc'"
    by (simp add: a pb acc'_def)
  have "readings_ok (fst acc') \<and> (\<forall>name pb. dget (fst acc') name = Some pb \<longrightarrow> pb_slave pb = slave)"
  proof (cases frame)
    case None
    then show ?thesis
      using Cons.prems by (simp add: acc'_def a)
  next
    case (Some f)
    have f: "mine slave (int (bl_count b)) f" "reg_range (mf_regs f)"
      using retry_frame [of cfg slave b "tries (bl_addr b)" 0 "nat (retry_attempts cfg)" f] pb Some
      by (auto simp: poll_block_def)
    show ?thesis
    proof (cases "parse_block (bl_addr b) f")
      case (Inl x)
      then show ?thesis
        using Cons.prems Some by (simp add: acc'_def a)
    next
      case (Inr parsed)
      have "length (mf_regs f) = bl_count b" "mf_slave f = slave" "b \<in> set BLOCKS"
        using f(1) Cons.prems(1) by (auto simp: mine_def)
      then have p: "parsed = \<lparr>pb_block_addr = bl_addr b, pb_block_name = bl_name b, pb_slave = slave,
          pb_regs_raw = mf_regs f, pb_fields = spec_fields (bl_addr b) (mf_regs f)\<rparr>"
        using parse_block_known [of b f] f(2) Inr by simp
      then have "parsed_ok (bl_name b) parsed"
        using parse_block_ok [OF Inr f(2)] by simp
      then show ?thesis
        using Cons.prems p Some Inr by (simp add: acc'_def a readings_ok_def dict_simps)
    qed
  qed
  then show ?case
    using Cons.IH [of acc'] Cons.prems(1) unfolding step by simp
qed simp

lemma poll_inverter_ok: "readings_ok (fst (poll_inverter cfg j))"
  and poll_inverter_slave: "dget (fst (poll_inverter cfg j)) name = Some pb \<Longrightarrow> pb_slave pb = j_slave j"
  using poll_blocks_ok [of "filter (\<lambda>b. bl_tier b = j_tier j) BLOCKS" "([], False, 0)" "j_slave j" cfg "j_tries j"]
  by (simp_all add: poll_inverter_def readings_ok_def)

lemma poll_each_ok: "\<forall>rd \<in> set (fst (poll_each tier ivs inp d)). readings_ok rd"
proof (induction ivs arbitrary: d)
  case (Cons iv ivs)
  have s: "readings_ok (fst (submit_job tier iv i d))" for i d
    by (simp add: submit_job_eq Let_def poll_inverter_ok) (simp add: readings_ok_def)
  have "readings_ok (fst (poll_one tier iv i d))" for i
    by (simp add: poll_one_def s split: option.split) (simp add: readings_ok_def)
  then show ?case
    using Cons.IH by (simp split: prod.split) (metis fst_conv)
qed simp

lemma cycle_aggregates: "\<exists>agg. aggregate_inverters ver (fst (poll_all_parallel tier inp d)) = Some agg"
  using poll_each_ok [of tier "d_inverters d" inp d]
  by (intro aggregate_exists) (simp add: poll_all_parallel_def split: prod.split)

section \<open>Cycles\<close>

text \<open>Polling moves nothing but the counters of the inverters and of the checksum failures.\<close>

lemma poll_all_frame: "same_frame d (snd (snd (snd (poll_all_parallel tier inp d))))"
  using poll_each_frame [of d tier "d_inverters d" inp] by (simp add: poll_all_parallel_def case_prod_beta)

lemma sensors_coerce: "\<exists>f. coerce_power (dget (sensors_py agg) k) = Inr f"
proof (cases "dget (sensors_py agg) k")
  case (Some v)
  then obtain s where "v = sval_py s"
    using map_of_SomeD [OF Some] by (auto simp: sensors_py_def)
  then show ?thesis
    using Some by (cases s) (simp_all add: Let_def)
qed simp

lemma energy_update_total:
  assumes "energy_ok st"
  shows "energy_update st (sensors_py agg) e =
      Inr (energy_step (sensors_py agg, e) st, kwh_spec (counter_of (wh (energy_step (sensors_py agg, e) st))))
    \<and> energy_ok (energy_step (sensors_py agg, e) st)"
proof (cases "valid_elapsed e")
  case False
  then show ?thesis
    using assms by (simp add: energy_step_def update_skips)
next
  case True
  show ?thesis
  proof (cases rule: update_cases [OF assms True, of "sensors_py agg"])
    case (1 er)
    then obtain k where "Inl er = coerce_power (dget (sensors_py agg) k)"
      unfolding image_insert image_empty insert_iff empty_iff by blast
    then show ?thesis
      using sensors_coerce [of agg k] by auto
  next
    case (2 bp lp pp gp st')
    then have "energy_step (sensors_py agg, e) st = st'"
      by (simp only: energy_step_def fst_conv snd_conv sum.case prod.case)
    then show ?thesis
      using 2(5,6) by (simp only:)
  qed
qed

lemma hot_cycle:
  assumes "energy_ok (integrator d)"
  obtains agg vals calls d' d1 durs c1 per where
    "run_one_hot_cycle ver inp d = (Some vals, calls, d')"
    "poll_all_parallel HOT (h_ivs inp) d = (per, durs, c1, d1)"
    "aggregate_inverters ver per = Some agg"
    "integrator d' = energy_step (sensors_py agg, elapsed_since (last_hot d) (h_now inp)) (integrator d)"
    "d' = d1\<lparr>integrator := integrator d', last_hot := Some (h_now inp)\<rparr>"
    "vals = dupdate (sensors_py agg) (map (\<lambda>(k, v). (k, PyFloat v)) (kwh_spec (counter_of (wh (integrator d')))))"
    "calls = c1 @ publish_values (pub_cfg (d_publisher d)) vals
       @ (if \<exists>blocks \<in> set per. blocks \<noteq> [] then set_online (pub_cfg (d_publisher d)) else []) @ meta_calls inp durs d'"
proof -
  obtain per durs c1 d1 where p: "poll_all_parallel HOT (h_ivs inp) d = (per, durs, c1, d1)"
    by (metis prod_cases4)
  obtain agg where a: "aggregate_inverters ver per = Some agg"
    using cycle_aggregates [of ver HOT "h_ivs inp" d] by (auto simp: p)
  have f: "integrator d1 = integrator d" "last_hot d1 = last_hot d" "d_publisher d1 = d_publisher d"
    using poll_all_frame [of d HOT "h_ivs inp"] by (simp_all add: p same_frame_def)
  note u = energy_update_total [OF assms, of agg "elapsed_since (last_hot d) (h_now inp)"]
  show thesis
    by (rule that [OF _ p a, where d' = "d1\<lparr>integrator := energy_step (sensors_py agg, elapsed_since (last_hot d) (h_now inp)) (integrator d),
          last_hot := Some (h_now inp)\<rparr>"])
      (simp_all add: run_one_hot_cycle_def p a f u [THEN conjunct1] Let_def)
qed

lemma cold_cycle:
  obtains agg calls where
    "run_one_cold_cycle ver inp d = (Some (sensors_py agg), calls,
       daemon_save_energy (c_save_ok inp) (snd (snd (snd (poll_all_parallel COLD (c_ivs inp) d)))))"
    "aggregate_inverters ver (fst (poll_all_parallel COLD (c_ivs inp) d)) = Some agg"
    "calls = fst (snd (snd (poll_all_parallel COLD (c_ivs inp) d)))
       @ publish_values (pub_cfg (d_publisher d)) (sensors_py agg)"
proof -
  obtain per durs c1 d1 where p: "poll_all_parallel COLD (c_ivs inp) d = (per, durs, c1, d1)"
    by (metis prod_cases4)
  obtain agg where a: "aggregate_inverters ver per = Some agg"
    using cycle_aggregates [of ver COLD "c_ivs inp" d] by (auto simp: p)
  have f: "d_publisher d1 = d_publisher d"
    using poll_all_frame [of d COLD "c_ivs inp"] by (simp add: p same_frame_def)
  have e: "publish_values cfg (sensors_py []) = []" for cfg
    by (simp add: publish_values_def sensors_py_def)
  show thesis
    by (rule that [of agg]) (simp_all add: run_one_cold_cycle_def p a f e)
qed

text \<open>What every step of the loop keeps.\<close>

definition kept :: "daemon \<Rightarrow> daemon \<Rightarrow> bool" where
  "kept d d' \<longleftrightarrow> d_polling d' = d_polling d \<and> d_inverters d' = d_inverters d \<and> d_publisher d' = d_publisher d
     \<and> d_bms d' = d_bms d \<and> meta_start d' = meta_start d"

lemma kept_refl: "kept d d" and kept_trans: "kept d d1 \<Longrightarrow> kept d1 d2 \<Longrightarrow> kept d d2"
  by (simp_all add: kept_def)

lemma hot_step:
  assumes "energy_ok (integrator d)"
  shows "\<exists>es. integrator (snd (snd (run_one_hot_cycle ver inp d))) = fold energy_step es (integrator d)"
    and "kept d (snd (snd (run_one_hot_cycle ver inp d)))"
    and "fst (run_one_hot_cycle ver inp d) \<noteq> None"
proof -
  obtain agg vals calls d' d1 durs c1 per where h: "run_one_hot_cycle ver inp d = (Some vals, calls, d')"
    "poll_all_parallel HOT (h_ivs inp) d = (per, durs, c1, d1)"
    "integrator d' = energy_step (sensors_py agg, elapsed_since (last_hot d) (h_now inp)) (integrator d)"
    "d' = d1\<lparr>integrator := integrator d', last_hot := Some (h_now inp)\<rparr>"
    by (rule hot_cycle [OF assms])
  have "same_frame d d1"
    using poll_all_frame [of d HOT "h_ivs inp"] h(2) by simp
  then have "kept d (d1\<lparr>integrator := integrator d', last_hot := Some (h_now inp)\<rparr>)"
    by (simp add: same_frame_def kept_def)
  then show "kept d (snd (snd (run_one_hot_cycle ver inp d)))"
    using h(1) h(4) [symmetric] by simp
  show "\<exists>es. integrator (snd (snd (run_one_hot_cycle ver inp d))) = fold energy_step es (integrator d)"
    using h(1,3) by (intro exI [of _ "[(sensors_py agg, elapsed_since (last_hot d) (h_now inp))]"]) simp
  show "fst (run_one_hot_cycle ver inp d) \<noteq> None"
    using h(1) by simp
qed

lemma cold_step:
  shows "integrator (snd (snd (run_one_cold_cycle ver inp d))) = integrator d"
    and "kept d (snd (snd (run_one_cold_cycle ver inp d)))"
    and "fst (run_one_cold_cycle ver inp d) \<noteq> None"
proof -
  obtain agg calls where c: "run_one_cold_cycle ver inp d = (Some (sensors_py agg), calls,
       daemon_save_energy (c_save_ok inp) (snd (snd (snd (poll_all_parallel COLD (c_ivs inp) d)))))"
    by (rule cold_cycle)
  show "integrator (snd (snd (run_one_cold_cycle ver inp d))) = integrator d"
    "kept d (snd (snd (run_one_cold_cycle ver inp d)))" "fst (run_one_cold_cycle ver inp d) \<noteq> None"
    using poll_all_frame [of d COLD "c_ivs inp"] by (simp_all add: c same_frame_def kept_def daemon_save_energy_def)
qed

lemma iteration_step:
  assumes "energy_ok (integrator d)"
  shows "\<exists>es. integrator (snd (snd (iteration ver inp (t, d)))) = fold energy_step es (integrator d)"
    and "kept d (snd (snd (iteration ver inp (t, d))))"
proof -
  obtain v c d1 where h: "run_one_hot_cycle ver (l_hot inp) d = (Some v, c, d1)"
    using hot_step(3) [OF assms, of ver "l_hot inp"] by (metis option.collapse prod.collapse)
  obtain v2 c2 d2 where c: "run_one_cold_cycle ver (l_cold inp) d1 = (Some v2, c2, d2)"
    using cold_step(3) [where ver = ver and inp = "l_cold inp" and d = d1] by (metis option.collapse prod.collapse)
  have i: "integrator d2 = integrator d1" "kept d1 d2" "kept d d1"
    using cold_step(1,2) [where ver = ver and inp = "l_cold inp" and d = d1] hot_step(2) [OF assms, of ver "l_hot inp"] by (simp_all add: c h)
  show "\<exists>es. integrator (snd (snd (iteration ver inp (t, d)))) = fold energy_step es (integrator d)"
    using hot_step(1) [OF assms, of ver "l_hot inp"] by (simp add: iteration_def h c i)
  show "kept d (snd (snd (iteration ver inp (t, d))))"
    using i kept_trans [OF i(3,2)] by (simp add: iteration_def h c)
qed

definition loop_state :: "py_version \<Rightarrow> loop_in list \<Rightarrow> rat \<times> daemon \<Rightarrow> rat \<times> daemon" where
  "loop_state ver ins st = fold (\<lambda>inp st. snd (iteration ver inp st)) ins st"

lemma loop_forever_state: "snd (loop_forever ver ins (t, d)) = snd (loop_state ver ins (t, d))"
proof (induction ins arbitrary: t d)
  case (Cons inp ins)
  obtain c t1 d1 where "iteration ver inp (t, d) = (c, t1, d1)"
    by (metis prod_cases3)
  then show ?case
    using Cons.IH [of t1 d1] by (simp add: loop_state_def split_beta)
qed (simp add: loop_state_def)

lemma loop_step:
  assumes "energy_ok (integrator d)"
  shows "(\<exists>es. integrator (snd (loop_state ver ins (t, d))) = fold energy_step es (integrator d))
    \<and> kept d (snd (loop_state ver ins (t, d)))"
  using assms
proof (induction ins arbitrary: t d)
  case (Cons inp ins)
  obtain t1 d1 c where i: "iteration ver inp (t, d) = (c, t1, d1)"
    by (metis prod_cases3)
  obtain es where es: "integrator d1 = fold energy_step es (integrator d)"
    using iteration_step(1) [OF Cons.prems, of ver inp t] i by auto
  then have ok: "energy_ok (integrator d1)"
    using energy_counter.inv_run [OF Cons.prems] by simp
  obtain fs where "integrator (snd (loop_state ver ins (t1, d1))) = fold energy_step (es @ fs) (integrator d)"
    using Cons.IH [OF ok] es by auto
  moreover have "kept d (snd (loop_state ver ins (t1, d1)))"
    using Cons.IH [OF ok, of t1] iteration_step(2) [OF Cons.prems, of ver inp t] i kept_trans by fastforce
  ultimately show ?case
    using i by (simp add: loop_state_def del: fold_append) blast
qed (auto simp: loop_state_def kept_refl intro: exI [of _ "[]"])

(*X*)

section \<open>Runs\<close>

text \<open>The daemon in its loop, from its construction on: connected, after some iterations.\<close>

definition running_daemon ::
  "py_version \<Rightarrow> rat \<Rightarrow> loop_in list \<Rightarrow> daemon \<Rightarrow> daemon"
where
  "running_daemon ver now ins d0 = snd (loop_forever ver ins (now, d0\<lparr>d_publisher := snd (mqtt_connect (d_publisher d0))\<rparr>))"

lemma energy_update_path:
  assumes "energy_update st agg e = Inr (st', out)"
  shows "persist_path st' = persist_path st"
proof (cases "\<not> is_finite e \<or> \<not> plt (Fin 0) e \<or> plt MAX_ELAPSED_S e")
  case True
  then show ?thesis
    using assms by (auto simp: energy_update_def bindE_Inr_iff)
next
  case False
  from assms [unfolded energy_update_def if_not_P [OF False] bindE_Inr_iff Let_def] show ?thesis
    by (elim exE conjE) auto
qed

lemma energy_step_path: "persist_path (energy_step ev st) = persist_path st"
proof (cases "energy_update st (fst ev) (snd ev)")
  case (Inr r)
  then show ?thesis
    using energy_update_path [of st "fst ev" "snd ev" "fst r" "snd r"] by (simp add: energy_step_def split_beta)
qed (simp add: energy_step_def)

lemma fold_energy_path: "persist_path (fold energy_step es st) = persist_path st"
  by (induction es arbitrary: st) (simp_all add: energy_step_path)

lemma daemon_init_ok:
  assumes "daemon_init ivs polling mqtt bms path fs bms_fs now = Inr d0"
  shows "energy_ok (integrator d0) \<and> persist_path (integrator d0) = path \<and> d_inverters d0 = ivs
    \<and> d_publisher d0 = publisher_init mqtt (length ivs) \<and> energy_disk d0 = fs"
  using assms energy_init_ok [of path "target fs"] by (auto simp: daemon_init_def bindE_Inr_iff)

lemma running_ok:
  assumes "daemon_init ivs polling mqtt bms path fs bms_fs now = Inr d0"
  shows "(\<exists>es. integrator (running_daemon ver t ins d0) = fold energy_step es (integrator d0))
    \<and> kept (d0\<lparr>d_publisher := snd (mqtt_connect (d_publisher d0))\<rparr>) (running_daemon ver t ins d0)
    \<and> energy_ok (integrator (running_daemon ver t ins d0))"
proof -
  let ?d = "d0\<lparr>d_publisher := snd (mqtt_connect (d_publisher d0))\<rparr>"
  have ok: "energy_ok (integrator ?d)"
    using daemon_init_ok [OF assms] by simp
  from loop_step [OF ok, of ver ins t] obtain es
    where "integrator (running_daemon ver t ins d0) = fold energy_step es (integrator d0)"
      "kept ?d (running_daemon ver t ins d0)"
    by (auto simp: running_daemon_def loop_forever_state)
  then show ?thesis
    using energy_counter.inv_run [of "integrator d0" es] ok by auto
qed

text \<open>C1. No cycle is ever aborted: in every state the daemon reaches, whatever the ports delivered
  and will deliver, a hot and a cold cycle run to their ends, publish their values, and a hot cycle
  publishes the six energy totals as the integrator holds them.\<close>

theorem cycles_never_abort:
  assumes "daemon_init ivs polling mqtt bms path fs bms_fs now = Inr d0"
  shows "let d = running_daemon ver t ins d0 in
     (case run_one_hot_cycle ver hot d of (vals, calls, d') \<Rightarrow>
        (\<exists>kv. vals = Some kv \<and> set (publish_values (pub_cfg (d_publisher d)) kv) \<subseteq> set calls
          \<and> (\<forall>(k, v) \<in> set (kwh_spec (counter_of (wh (integrator d')))). dget kv k = Some (PyFloat v))))
     \<and> (case run_one_cold_cycle ver cold d of (vals, calls, d') \<Rightarrow>
        (\<exists>kv. vals = Some kv \<and> set (publish_values (pub_cfg (d_publisher d)) kv) \<subseteq> set calls))"
proof -
  define d where "d = running_daemon ver t ins d0"
  have ok: "energy_ok (integrator d)"
    using running_ok [OF assms] by (simp add: d_def)
  obtain agg vals calls d' d1 durs c1 per where h: "run_one_hot_cycle ver hot d = (Some vals, calls, d')"
    "poll_all_parallel HOT (h_ivs hot) d = (per, durs, c1, d1)" "aggregate_inverters ver per = Some agg"
    "integrator d' = energy_step (sensors_py agg, elapsed_since (last_hot d) (h_now hot)) (integrator d)"
    "d' = d1\<lparr>integrator := integrator d', last_hot := Some (h_now hot)\<rparr>"
    "vals = dupdate (sensors_py agg) (map (\<lambda>(k, v). (k, PyFloat v)) (kwh_spec (counter_of (wh (integrator d')))))"
    "calls = c1 @ publish_values (pub_cfg (d_publisher d)) vals
       @ (if \<exists>blocks \<in> set per. blocks \<noteq> [] then set_online (pub_cfg (d_publisher d)) else []) @ meta_calls hot durs d'"
    by (rule hot_cycle [OF ok])
  have "dget vals k = Some (PyFloat v)" if "(k, v) \<in> set (kwh_spec f)" "f = counter_of (wh (integrator d'))" for k v f
    using that unfolding h(6) dget_dupdate by (auto simp: kwh_spec_def)
  moreover obtain agg2 calls2 where "run_one_cold_cycle ver cold d = (Some (sensors_py agg2), calls2,
       daemon_save_energy (c_save_ok cold) (snd (snd (snd (poll_all_parallel COLD (c_ivs cold) d)))))"
    "aggregate_inverters ver (fst (poll_all_parallel COLD (c_ivs cold) d)) = Some agg2"
    "calls2 = fst (snd (snd (poll_all_parallel COLD (c_ivs cold) d)))
       @ publish_values (pub_cfg (d_publisher d)) (sensors_py agg2)"
    by (rule cold_cycle)
  ultimately show ?thesis
    unfolding Let_def d_def [symmetric] by (auto simp: h(1) h(7))
qed

definition demo_hot :: hot_in where
  "demo_hot = \<lparr>h_ivs = (\<lambda>_. dead_port True), h_start = 0, h_now = 1, h_end = 1, h_uptime = 1\<rparr>"

definition demo_cold :: cold_in where
  "demo_cold = \<lparr>c_ivs = (\<lambda>_. dead_port True), c_save_ok = (\<lambda>_. False)\<rparr>"

definition demo_loop :: loop_in where
  "demo_loop = \<lparr>l_hot = demo_hot, l_check = 61, l_cold = demo_cold, l_after_cold = 62\<rparr>"

theorem cycles_never_abort_witness:
  "\<exists>d0 kv calls d'. daemon_init demo_ivs demo_polling demo_mqtt
       demo_cfg (Some ''energy.json'') \<lparr>target = BadJson, tmp = None\<rparr> \<lparr>target = NoFile, tmp = None\<rparr> 0 = Inr d0
     \<and> run_one_hot_cycle Py312 demo_hot (running_daemon Py312 0 [demo_loop] d0) = (Some kv, calls, d')
     \<and> set (publish_values demo_mqtt kv) \<subseteq> set calls"
proof -
  obtain d0 where i: "daemon_init demo_ivs demo_polling demo_mqtt demo_cfg (Some ''energy.json'')
      \<lparr>target = BadJson, tmp = None\<rparr> \<lparr>target = NoFile, tmp = None\<rparr> 0 = Inr d0"
    by (simp add: daemon_init_def energy_init_def energy_load_def)
  have "pub_cfg (d_publisher (running_daemon Py312 0 [demo_loop] d0)) = demo_mqtt"
    using running_ok [OF i, of Py312 0 "[demo_loop]"] daemon_init_ok [OF i]
    by (simp add: kept_def mqtt_connect_def publisher_init_def Let_def)
  then show ?thesis
    using cycles_never_abort [OF i, of Py312 0 "[demo_loop]" demo_hot demo_cold] i
    by (auto simp: Let_def split: prod.splits)
qed

text \<open>C8. The energy totals over the life of the bridge: they never go back while it runs, in whatever
  order cycles succeed, fail or are cut short; and when nothing fails at the shutdown and the totals
  are finite, the next start goes on exactly from where the last one ended.\<close>

theorem daemon_energy_monotone:
  assumes "daemon_init ivs polling mqtt bms (Some path) fs bms_fs now = Inr d0"
    and "daemon_start ver t ins (\<lambda>_. True) bin d0 = (calls, bms_calls, d1)"
    and "all_finite (wh (integrator d1))"
  shows "ple (kwh_published k (integrator (running_daemon ver t as d0)))
       (kwh_published k (integrator (running_daemon ver t (as @ bs) d0)))
    \<and> integrator d1 = integrator (running_daemon ver t ins d0)
    \<and> (\<exists>d2. daemon_init ivs polling mqtt bms (Some path) (energy_disk d1) bms_fs now' = Inr d2
         \<and> integrator d2 = integrator d1)"
proof -
  have ok: "energy_ok (integrator (running_daemon ver t as d0))"
    using running_ok [OF assms(1)] by simp
  have app: "running_daemon ver t (as @ bs) d0 = snd (loop_state ver bs (loop_state ver as (t, d0\<lparr>d_publisher := snd (mqtt_connect (d_publisher d0))\<rparr>)))"
    by (simp add: running_daemon_def loop_forever_state loop_state_def)
  obtain t' where st: "loop_state ver as (t, d0\<lparr>d_publisher := snd (mqtt_connect (d_publisher d0))\<rparr>) = (t', running_daemon ver t as d0)"
    by (metis loop_forever_state prod.collapse running_daemon_def)
  obtain es where "integrator (running_daemon ver t (as @ bs) d0) = fold energy_step es (integrator (running_daemon ver t as d0))"
    using loop_step [OF ok, of ver bs t'] unfolding app st by blast
  then have mono: "ple (kwh_published k (integrator (running_daemon ver t as d0)))
      (kwh_published k (integrator (running_daemon ver t (as @ bs) d0)))"
    using energy_counter.reading_run [OF ok, of k es] by simp
  have d1: "integrator d1 = integrator (running_daemon ver t ins d0)"
    "energy_disk d1 = energy_save (\<lambda>_. True) (integrator (running_daemon ver t ins d0)) (energy_disk (running_daemon ver t ins d0))"
    using assms(2) by (auto simp: daemon_start_def daemon_save_energy_def running_daemon_def Let_def split: prod.splits)
  have ok1: "energy_ok (integrator d1)" "persist_path (integrator d1) = Some path"
    using running_ok [OF assms(1), of ver t ins] daemon_init_ok [OF assms(1)] by (auto simp: d1(1) fold_energy_path)
  then have "energy_init (Some path) (target (energy_disk d1)) = Inr (integrator d1)"
    using load_saved [OF ok1(1) assms(3)] by (simp add: d1 energy_save_def Let_def)
  then show ?thesis
    using mono d1(1) by (simp add: daemon_init_def)
qed

definition demo_bms_in :: bms_in where
  "demo_bms_in = \<lparr>bi_connect_ok = False, bi_event_set = False, bi_sessions = [], bi_save_ok = (\<lambda>_. True), bi_unix = 0\<rparr>"

definition empty_disk :: energy_fs where
  "empty_disk = \<lparr>target = NoFile, tmp = None\<rparr>"

lemma demo_start: "\<exists>d0 calls bms_calls d1.
      daemon_init demo_ivs demo_polling demo_mqtt demo_cfg (Some ''energy.json'') empty_disk empty_disk 0 = Inr d0
    \<and> integrator d0 = \<lparr>persist_path = Some ''energy.json'', wh = zero_wh\<rparr>
    \<and> daemon_start Py312 0 ins (\<lambda>_. True) demo_bms_in d0 = (calls, bms_calls, d1)"
  by (simp add: daemon_init_def energy_init_def energy_load_def empty_disk_def) (metis prod_cases3)

theorem daemon_energy_monotone_witness:
  "\<exists>d0 calls bms_calls d1 d2.
      daemon_init demo_ivs demo_polling demo_mqtt demo_cfg (Some ''energy.json'') empty_disk empty_disk 0 = Inr d0
    \<and> daemon_start Py312 0 [] (\<lambda>_. True) demo_bms_in d0 = (calls, bms_calls, d1)
    \<and> daemon_init demo_ivs demo_polling demo_mqtt demo_cfg (Some ''energy.json'') (energy_disk d1) empty_disk 100 = Inr d2
    \<and> integrator d2 = integrator d1"
proof -
  obtain d0 calls bms_calls d1 where
    s: "daemon_init demo_ivs demo_polling demo_mqtt demo_cfg (Some ''energy.json'') empty_disk empty_disk 0 = Inr d0"
    "integrator d0 = \<lparr>persist_path = Some ''energy.json'', wh = zero_wh\<rparr>"
    "daemon_start Py312 0 [] (\<lambda>_. True) demo_bms_in d0 = (calls, bms_calls, d1)"
    using demo_start [of "[]"] by blast
  have "integrator d1 = integrator d0"
    using s(3) by (auto simp: daemon_start_def daemon_save_energy_def Let_def split: prod.splits)
  then have "all_finite (wh (integrator d1))"
    by (auto simp: s(2) zero_wh_def all_finite_def)
  from daemon_energy_monotone [OF s(1,3) this, of k "[]" "[]" 100] s show ?thesis
    by blast
qed

end
