(* ===== verification/Daemon_Messages.thy ===== *)
theory Daemon_Messages
  imports Daemon_Runs
begin

text \<open>
  What the bridge sends: every key of the aggregated values is a sensor of the tables, so every message
  of a run has an announced topic; and what the broker retains when the bridge has been shut down.
\<close>

section \<open>The keys of the aggregated values\<close>

definition inverter_sensor :: "string \<Rightarrow> bool" where
  "inverter_sensor k \<longleftrightarrow> k \<in> set (map fst PER_INVERTER_SENSORS)"

definition site_sensor :: "string \<Rightarrow> bool" where
  "site_sensor k \<longleftrightarrow> k \<in> set (map fst AGGREGATE_SENSORS)"

lemma inverter_sensors:
  "inverter_sensor ''battery_current''" "inverter_sensor ''battery_voltage''" "inverter_sensor ''charge_state''"
  "inverter_sensor ''load_power''" "inverter_sensor ''load_power_l1''" "inverter_sensor ''load_power_l2''"
  "inverter_sensor ''load_apparent_power_l1''" "inverter_sensor ''load_apparent_power_l2''"
  "inverter_sensor ''load_apparent_power''" "inverter_sensor ''load_percentage''"
  "inverter_sensor ''ac_output_frequency''" "inverter_sensor ''ac_output_voltage''"
  "inverter_sensor ''grid_frequency''" "inverter_sensor ''grid_voltage''" "inverter_sensor ''grid_power''"
  "inverter_sensor ''temperature''" "inverter_sensor ''temperature_dc_dc''" "inverter_sensor ''temperature_dc_ac''"
  "inverter_sensor ''temperature_transformer''" "inverter_sensor ''device_mode''" "inverter_sensor ''bus_voltage''"
  "inverter_sensor ''pv_voltage_mppt1''" "inverter_sensor ''pv_voltage_mppt2''" "inverter_sensor ''pv_current_mppt1''"
  "inverter_sensor ''pv_current_mppt2''" "inverter_sensor ''pv_current''" "inverter_sensor ''pv_power_mppt1''"
  "inverter_sensor ''pv_power_mppt2''" "inverter_sensor ''pv_power''" "inverter_sensor ''fault_bits''"
  "inverter_sensor ''status''"
  by code_simp+

lemma cold_sensors: "\<forall>k \<in> set (daily_keys @ history_keys @ diag_keys). inverter_sensor k" "\<forall>k \<in> set daily_keys. site_sensor k"
  by code_simp+

lemma site_sensors:
  "site_sensor ''battery_state_of_charge''" "site_sensor ''battery_voltage''" "site_sensor ''battery_power''"
  "site_sensor ''load_power''" "site_sensor ''mode''" "site_sensor ''grid_voltage''" "site_sensor ''grid_frequency''"
  "site_sensor ''grid_power''" "site_sensor ''bus_voltage''" "site_sensor ''pv_power''"
  by code_simp+

definition only :: "(string \<Rightarrow> bool) \<Rightarrow> sensors \<Rightarrow> bool" where
  "only P e \<longleftrightarrow> (\<forall>x \<in> set e. P (fst x))"

definition own_sensor :: "nat \<Rightarrow> string \<Rightarrow> bool" where
  "own_sensor i key \<longleftrightarrow> (\<exists>k. key = ikey i k \<and> inverter_sensor k)"

lemma only_simps [simp]: "only P []" "only P (x # e) = (P (fst x) \<and> only P e)" "only P (e @ f) = (only P e \<and> only P f)"
  by (auto simp: only_def)

lemma own_ikey [simp]: "own_sensor i (ikey i k) = inverter_sensor k"
  by (simp add: own_sensor_def ikey_inj)

lemma only_sub: "fst ` set e \<subseteq> {a, b} \<Longrightarrow> P a \<Longrightarrow> P b \<Longrightarrow> only P e" "fst ` set e \<subseteq> {a} \<Longrightarrow> P a \<Longrightarrow> only P e"
  by (auto simp: only_def)

lemma present_keys: "x \<in> set (present_fields rd name ks) \<Longrightarrow> fst x \<in> set ks"
  by (auto simp: present_fields_def split: option.splits)

lemma own_map: "\<forall>x \<in> set xs. inverter_sensor (fst x) \<Longrightarrow> only (own_sensor i) (map (\<lambda>(k, v). (ikey i k, Num v)) xs)"
  by (auto simp: only_def)

lemma own_battery: "only (own_sensor i) (battery_assign (i, rd))"
  by (simp add: battery_assign_def inverter_sensors split: option.split)

lemma own_state: "only (own_sensor i) (state_assign (i, rd))"
proof -
  have "only (own_sensor i) e" if "state_entries i s pb = Some (e, t)" for s pb e t
    by (rule state_entries_shape [OF that])
      (simp only: only_simps fst_conv own_ikey inverter_sensors only_sub simp_thms)
  then show ?thesis
    by (auto simp: state_assign_def split: option.split)
qed

lemma own_pv: "only (own_sensor i) (pv_assign (i, rd))"
  by (simp add: pv_assign_def pv_entries_def Let_def inverter_sensors)

lemma own_cold: "only (own_sensor i) (cold_assign (i, rd))"
proof -
  have "inverter_sensor (fst x)" if "x \<in> set (present_fields rd ''daily_stats'' daily_keys
        @ present_fields rd ''runtime_ctrs'' history_keys @ present_fields rd ''device_info'' diag_keys)" for x
    using that present_keys cold_sensors(1) unfolding set_append by blast
  then have "only (own_sensor i) (map (\<lambda>(k, v). (ikey i k, Num v)) (present_fields rd ''daily_stats'' daily_keys
        @ present_fields rd ''runtime_ctrs'' history_keys @ present_fields rd ''device_info'' diag_keys))"
    by (intro own_map) blast
  then show ?thesis
    by (simp add: cold_assign_def cold_entries_def inverter_sensors split: option.split)
qed

lemma dkeys_dupdate: "set (dkeys (dupdate d e)) = set (dkeys d) \<union> fst ` set e"
proof (induction e arbitrary: d)
  case (Cons x e)
  then show ?case
    by (cases x) (auto simp: dupdate_def dict_simps)
qed (simp add: dupdate_def)

lemma only_dupdate: "only P e \<Longrightarrow> only P (dupdate [] e)"
proof -
  assume P: "only P e"
  have "P (fst x)" if "x \<in> set (dupdate [] e)" for x
  proof -
    have "fst x \<in> set (dkeys (dupdate [] e))"
      using that by (simp add: dkeys_def)
    then show ?thesis
      using P unfolding dkeys_dupdate by (auto simp: only_def dkeys_def)
  qed
  then show ?thesis
    by (simp add: only_def)
qed

lemma dkeys_add_daily: "set (dkeys (add_daily d rd)) \<subseteq> set (dkeys d) \<union> set daily_keys"
proof -
  have "set (dkeys (foldl (\<lambda>d (k, v). dset k (fl (dget_or d k 0 + v)) d) d xs)) \<subseteq> set (dkeys d) \<union> fst ` set xs" for xs d
  proof (induction xs arbitrary: d)
    case (Cons x xs)
    obtain k v where "x = (k, v)"
      by (cases x)
    then show ?case
      using Cons.IH [of "dset k (fl (dget_or d k 0 + v)) d"] by (auto simp: dict_simps)
  qed simp
  then show ?thesis
    using present_keys unfolding add_daily_def by fastforce
qed

lemma site_cold: "only site_sensor (cold_site_assign xs)"
proof -
  have "set (dkeys (foldl (\<lambda>d (i, rd). add_daily d rd) d xs)) \<subseteq> set (dkeys d) \<union> set daily_keys" for d
  proof (induction xs arbitrary: d)
    case (Cons x xs)
    then show ?case
      using dkeys_add_daily [of d "snd x"] by (auto simp: split_beta)
  qed simp
  from this [of "[]"] show ?thesis
    using cold_sensors(2) by (auto simp: only_def cold_site_assign_def dkeys_def)
qed

text \<open>Every key of the aggregated values is a sensor of the site or of one of the inverters.\<close>

lemma aggregate_keys:
  assumes "aggregate_inverters ver per = Some out"
  shows "only (\<lambda>k. site_sensor k \<or> (\<exists>i. 1 \<le> i \<and> i \<le> length per \<and> own_sensor i k)) out"
proof -
  let ?P = "\<lambda>k. site_sensor k \<or> (\<exists>i. 1 \<le> i \<and> i \<le> length per \<and> own_sensor i k)"
  have own: "only ?P (concat (map f (enum1 per)))" if "\<And>i rd. only (own_sensor i) (f (i, rd))" for f :: "nat \<times> readings \<Rightarrow> sensors"
  proof -
    have "?P (fst y)" if y: "y \<in> set (f (i, rd))" and i: "(i, rd) \<in> set (enum1 per)" for y i rd
    proof -
      have "own_sensor i (fst y)"
        using \<open>\<And>i rd. only (own_sensor i) (f (i, rd))\<close> [of i rd] y by (simp add: only_def)
      then show ?thesis
        using i by (auto simp: enum1_mem)
    qed
    then show ?thesis
      unfolding only_def set_concat set_map by (auto simp only: UN_iff image_iff split_paired_all)
  qed
  have site: "only site_sensor e \<Longrightarrow> only ?P e" for e
    by (auto simp: only_def)
  obtain s where out: "out = dupdate [] (concat (map battery_assign (enum1 per))
        @ battery_site_assign ver (blocks_named ''battery'' (enum1 per))
        @ concat (map state_assign (enum1 per)) @ state_site_assign s
        @ concat (map pv_assign (enum1 per)) @ pv_site_assign (enum1 per)
        @ concat (map cold_assign (enum1 per)) @ cold_site_assign (enum1 per))"
    using aggregate_Some [OF assms] by blast
  have "only site_sensor (battery_site_assign ver bs)" "only site_sensor (state_site_assign s)"
    "only site_sensor (pv_site_assign xs)" for bs xs
    by (simp_all add: battery_site_assign_def state_site_assign_def pv_site_assign_def Let_def site_sensors
        split: option.split)
  then have "only ?P (concat (map battery_assign (enum1 per))
        @ battery_site_assign ver (blocks_named ''battery'' (enum1 per))
        @ concat (map state_assign (enum1 per)) @ state_site_assign s
        @ concat (map pv_assign (enum1 per)) @ pv_site_assign (enum1 per)
        @ concat (map cold_assign (enum1 per)) @ cold_site_assign (enum1 per))"
    using own [OF own_battery] own [OF own_state] own [OF own_pv] own [OF own_cold] site site_cold
    unfolding only_simps by blast
  then show ?thesis
    unfolding out by (rule only_dupdate)
qed

lemma announced_site: "site_sensor k \<Longrightarrow> k \<in> set (announced_keys n)"
  by (simp add: site_sensor_def announced_keys_eq)

lemma announced_own: "own_sensor i k \<Longrightarrow> 1 \<le> i \<Longrightarrow> i \<le> n \<Longrightarrow> k \<in> set (announced_keys n)"
  unfolding announced_keys_eq set_append Un_iff inverter_keys_mem
  by (auto simp: own_sensor_def inverter_sensor_def simp del: upt_Suc)

section \<open>Every message has an announced topic\<close>

text \<open>What a running bridge may send: a reading on an announced state topic, not retained, or the
  availability marker.\<close>

definition announced_msg :: "mqtt_cfg \<Rightarrow> nat \<Rightarrow> paho_call \<Rightarrow> bool" where
  "announced_msg cfg n c \<longleftrightarrow>
     (\<exists>m. c = Publish m \<and> (m = availability_msg cfg ''online''
        \<or> \<not> retain m \<and> (\<exists>k \<in> set (announced_keys n). topic m = state_topic cfg k)))"

lemma announced_value: "k \<in> set (announced_keys n) \<Longrightarrow> c \<in> set (publish_value cfg k v) \<Longrightarrow> announced_msg cfg n c"
  by (auto simp: announced_msg_def publish_value_def)

lemma announced_values: "\<forall>k \<in> set (dkeys kv). k \<in> set (announced_keys n) \<Longrightarrow> c \<in> set (publish_values cfg kv) \<Longrightarrow> announced_msg cfg n c"
  by (auto simp: publish_values_def dkeys_def intro: announced_value)

lemma announced_online: "c \<in> set (set_online cfg) \<Longrightarrow> announced_msg cfg n c"
  by (auto simp: set_online_def announced_msg_def)

lemma announced_meta: "\<forall>k \<in> fst ` set META_SENSORS. k \<in> set (announced_keys n)"
  by (simp add: announced_keys_eq)

lemma announced_energy: "\<forall>k \<in> fst ` set ENERGY_SENSORS. k \<in> set (announced_keys n)"
  by (simp add: announced_keys_eq)

lemma kwh_keys: "map fst (kwh_spec f) = map fst ENERGY_SENSORS"
  by (simp add: kwh_spec_def ENERGY_SENSORS_def)

lemma announced_meta_calls: "c \<in> set (meta_calls inp durs d) \<Longrightarrow> announced_msg (pub_cfg (d_publisher d)) n c"
proof -
  have k: "''_meta/poll_duration_ms'' \<in> set (announced_keys n)"
    "''_meta/poll_duration_per_inverter_ms'' \<in> set (announced_keys n)"
    "''_meta/crc_fails_total'' \<in> set (announced_keys n)" "''_meta/uptime_s'' \<in> set (announced_keys n)"
    using announced_meta [of n] unfolding META_SENSORS_def by auto
  have j: "c \<in> set (publish_json cfg k v) \<Longrightarrow> k \<in> set (announced_keys n) \<Longrightarrow> announced_msg cfg n c" for cfg k v
    by (auto simp: announced_msg_def publish_json_def)
  assume "c \<in> set (meta_calls inp durs d)"
  then show ?thesis
    unfolding meta_calls_def Let_def set_append Un_iff
    using announced_value [OF k(1)] j [OF _ k(2)] announced_value [OF k(3)] announced_value [OF k(4)] by blast
qed

lemma announced_status:
  assumes "c \<in> set (publish_status d)" and "length (d_inverters d) = n"
  shows "announced_msg (pub_cfg (d_publisher d)) n c"
proof -
  obtain i iv where "c = Publish \<lparr>topic = state_topic (pub_cfg (d_publisher d)) (ikey i ''status''),
     content = StrOf (PyStr (status_text (fst (view d (iv_name iv))))),
     msg_qos = qos (pub_cfg (d_publisher d)), retain = False\<rparr>" "(i, iv) \<in> set (enum1 (d_inverters d))"
    using assms(1) unfolding status_calls by auto
  moreover have "ikey i ''status'' \<in> set (announced_keys n)"
    using calculation(2) assms(2) by (intro announced_own [of i]) (auto simp: enum1_mem inverter_sensors)
  ultimately show ?thesis
    by (auto simp: announced_msg_def)
qed

lemma announced_agg:
  assumes "aggregate_inverters ver per = Some agg" and "length per = n"
  shows "\<forall>k \<in> set (dkeys (sensors_py agg)). k \<in> set (announced_keys n)"
proof -
  have "dkeys (sensors_py agg) = dkeys agg"
    by (auto simp: sensors_py_def dkeys_def)
  then show ?thesis
    using aggregate_keys [OF assms(1)] assms(2) announced_site announced_own
    by (fastforce simp: only_def dkeys_def)
qed

lemma poll_all_shape:
  assumes "poll_all_parallel tier inp d = (per, durs, c1, d1)"
  shows "length per = length (d_inverters d) \<and> c1 = publish_status d1 \<and> same_frame d d1"
proof -
  obtain outs ds d2 where p: "poll_each tier (d_inverters d) inp d = (outs, ds, d2)"
    by (metis prod_cases3)
  then have "per = outs" "c1 = publish_status d1" "d1 = d2"
    using assms by (auto simp: poll_all_parallel_def)
  then show ?thesis
    using poll_each_length [of tier "d_inverters d" inp d] poll_each_frame [of d tier "d_inverters d" inp] by (simp add: p)
qed

lemma hot_values_announced:
  assumes "aggregate_inverters ver per = Some agg" and "length per = n"
  shows "\<forall>k \<in> set (dkeys (dupdate (sensors_py agg) (map (\<lambda>(k, v). (k, PyFloat v)) (kwh_spec g)))). k \<in> set (announced_keys n)"
proof -
  have "fst ` set (map (\<lambda>(k, v). (k, PyFloat v)) (kwh_spec g)) = fst ` set ENERGY_SENSORS"
    using arg_cong [OF kwh_keys [of g], of set] by (auto simp: image_image split_beta)
  then show ?thesis
    using announced_agg [OF assms] announced_energy [of n]
    unfolding dkeys_dupdate by (simp only: ball_Un simp_thms)
qed

lemma hot_announced:
  assumes "energy_ok (integrator d)" and "c \<in> set (fst (snd (run_one_hot_cycle ver inp d)))"
  shows "announced_msg (pub_cfg (d_publisher d)) (length (d_inverters d)) c"
proof -
  obtain agg vals calls d' d1 durs c1 per where h: "run_one_hot_cycle ver inp d = (Some vals, calls, d')"
    "poll_all_parallel HOT (h_ivs inp) d = (per, durs, c1, d1)" "aggregate_inverters ver per = Some agg"
    "integrator d' = energy_step (sensors_py agg, elapsed_since (last_hot d) (h_now inp)) (integrator d)"
    "d' = d1\<lparr>integrator := integrator d', last_hot := Some (h_now inp)\<rparr>"
    "vals = dupdate (sensors_py agg) (map (\<lambda>(k, v). (k, PyFloat v)) (kwh_spec (counter_of (wh (integrator d')))))"
    "calls = c1 @ publish_values (pub_cfg (d_publisher d)) vals
       @ (if \<exists>blocks \<in> set per. blocks \<noteq> [] then set_online (pub_cfg (d_publisher d)) else []) @ meta_calls inp durs d'"
    by (rule hot_cycle [OF assms(1)])
  note p = poll_all_shape [OF h(2)]
  have f: "d_publisher d1 = d_publisher d" "d_inverters d1 = d_inverters d" "d_publisher d' = d_publisher d"
    using p arg_cong [OF h(5), of d_publisher] by (simp_all add: same_frame_def)
  have "\<forall>k \<in> set (dkeys vals). k \<in> set (announced_keys (length (d_inverters d)))"
    unfolding h(6) by (rule hot_values_announced [OF h(3) p [THEN conjunct1]])
  then show ?thesis
    using assms(2) announced_status [of c d1] announced_meta_calls [of c inp durs d'] p
    by (auto simp: h(1) h(7) f intro: announced_values announced_online split: if_splits)
qed

lemma cold_announced:
  assumes "c \<in> set (fst (snd (run_one_cold_cycle ver inp d)))"
  shows "announced_msg (pub_cfg (d_publisher d)) (length (d_inverters d)) c"
proof -
  obtain per durs c1 d1 where p: "poll_all_parallel COLD (c_ivs inp) d = (per, durs, c1, d1)"
    by (metis prod_cases4)
  obtain agg calls where h: "run_one_cold_cycle ver inp d = (Some (sensors_py agg), calls,
       daemon_save_energy (c_save_ok inp) (snd (snd (snd (poll_all_parallel COLD (c_ivs inp) d)))))"
    "aggregate_inverters ver (fst (poll_all_parallel COLD (c_ivs inp) d)) = Some agg"
    "calls = fst (snd (snd (poll_all_parallel COLD (c_ivs inp) d)))
       @ publish_values (pub_cfg (d_publisher d)) (sensors_py agg)"
    by (rule cold_cycle)
  note s = poll_all_shape [OF p]
  have f: "d_publisher d1 = d_publisher d" "d_inverters d1 = d_inverters d"
    using s by (simp_all add: same_frame_def)
  have "\<forall>k \<in> set (dkeys (sensors_py agg)). k \<in> set (announced_keys (length (d_inverters d)))"
    using s h(2) by (intro announced_agg) (auto simp: p)
  then show ?thesis
    using assms announced_status [of c d1] s by (auto simp: h(1) h(3) p f intro: announced_values)
qed

lemma iteration_announced:
  assumes "energy_ok (integrator d)" and "c \<in> set (fst (iteration ver inp (t, d)))"
  shows "announced_msg (pub_cfg (d_publisher d)) (length (d_inverters d)) c"
proof -
  obtain v c1 d1 where h: "run_one_hot_cycle ver (l_hot inp) d = (v, c1, d1)"
    by (metis prod_cases3)
  obtain v2 c2 d2 where c: "run_one_cold_cycle ver (l_cold inp) d1 = (v2, c2, d2)"
    by (metis prod_cases3)
  have "c \<in> set c1 \<or> c \<in> set c2"
    using assms(2) by (auto simp: iteration_def h c split: option.splits if_splits)
  moreover have "kept d d1"
    using hot_step(2) [OF assms(1), of ver "l_hot inp"] by (simp add: h)
  ultimately show ?thesis
    using hot_announced [OF assms(1), of c ver "l_hot inp"] cold_announced [of c ver "l_cold inp" d1]
    by (auto simp: h c kept_def)
qed

lemma loop_announced:
  assumes "energy_ok (integrator d)" and "c \<in> set (fst (loop_forever ver ins (t, d)))"
  shows "announced_msg (pub_cfg (d_publisher d)) (length (d_inverters d)) c"
  using assms
proof (induction ins arbitrary: t d)
  case (Cons inp ins)
  obtain c1 t1 d1 where i: "iteration ver inp (t, d) = (c1, t1, d1)"
    by (metis prod_cases3)
  obtain cs d2 where l: "loop_forever ver ins (t1, d1) = (cs, d2)"
    by fastforce
  have ok: "energy_ok (integrator d1)" "kept d d1"
    using iteration_step [OF Cons.prems(1), of ver inp t] energy_counter.inv_run [OF Cons.prems(1)] by (auto simp: i)
  show ?case
    using Cons.prems iteration_announced [OF Cons.prems(1), of c ver inp t] Cons.IH [OF ok(1), of t1] ok(2)
    by (auto simp: i l kept_def)
qed simp

lemma payload_state_topic: "\<exists>kv. discovery_payload cfg k meta name force = PyDict kv \<and> dget kv ''state_topic'' = Some (PyStr (state_topic cfg k))"
  by (simp add: discovery_payload_def Let_def split_beta)

lemma discovered:
  assumes "k \<in> set (announced_keys (n_inverters p))"
  shows "\<exists>m kv. m \<in> set (published (publish_discovery p)) \<and> content m = Json (PyDict kv)
    \<and> dget kv ''state_topic'' = Some (PyStr (state_topic (pub_cfg p) k))"
proof -
  let ?cfg = "pub_cfg p"
  have one: "\<exists>m kv. m \<in> set (published (publish_discovery_one ?cfg k meta name)) \<and> content m = Json (PyDict kv)
    \<and> dget kv ''state_topic'' = Some (PyStr (state_topic ?cfg k))" for meta name
    using payload_state_topic [of ?cfg k meta name None] by (auto simp: publish_discovery_one_def)
  have "\<exists>meta name. set (published (publish_discovery_one ?cfg k meta name)) \<subseteq> set (published (publish_discovery p))"
  proof -
    have sub: "set (published (publish_discovery_one ?cfg (f key) meta (g key))) \<subseteq>
        set (published (concat (map (\<lambda>(key, meta). publish_discovery_one ?cfg (f key) meta (g key)) kvs)))"
      if "(key, meta) \<in> set kvs" for f g key meta kvs
      using that by (induction kvs) auto
    have subi: "set (published (concat (map (F i) xs))) \<subseteq> set (published (concat (map (\<lambda>i. concat (map (F i) xs)) is)))"
      if "i \<in> set is" for F :: "nat \<Rightarrow> string \<times> sensor_meta \<Rightarrow> paho_call list" and i xs "is"
      using that by (induction "is") auto
    consider (site) meta where "(k, meta) \<in> set AGGREGATE_SENSORS" | (energy) meta where "(k, meta) \<in> set ENERGY_SENSORS"
      | (inverter) i sk meta where "k = ikey i sk" "i \<in> set [1..<Suc (n_inverters p)]" "(sk, meta) \<in> set PER_INVERTER_SENSORS"
      | (meta) meta where "(k, meta) \<in> set META_SENSORS"
      using assms unfolding announced_keys_def by (auto simp del: upt_Suc)
    then show ?thesis
    proof cases
      case site
      from sub [OF this, of "\<lambda>k. k" "\<lambda>k. capitalize (spaced k)"] show ?thesis
        unfolding publish_discovery_def Let_def published_append set_append by blast
    next
      case energy
      from sub [OF this, of "\<lambda>k. k" "\<lambda>k. capitalize (spaced k)"] show ?thesis
        unfolding publish_discovery_def Let_def published_append set_append by blast
    next
      case inverter
      from sub [OF inverter(3), of "ikey i" "\<lambda>sub_key. ''Inverter '' @ show_nat i @ '' - '' @ capitalize (spaced sub_key)"]
        subi [OF inverter(2), of "\<lambda>i (sub_key, meta). publish_discovery_one ?cfg (ikey i sub_key) meta
             (''Inverter '' @ show_nat i @ '' - '' @ capitalize (spaced sub_key))" PER_INVERTER_SENSORS]
      show ?thesis
        unfolding publish_discovery_def Let_def published_append set_append inverter(1) by blast
    next
      case meta
      from sub [OF this, of "\<lambda>k. k" "\<lambda>k. ''Meta '' @ spaced (drop 6 k)"] show ?thesis
        unfolding publish_discovery_def Let_def published_append set_append by blast
    qed
  qed
  then show ?thesis
    using one by blast
qed

text \<open>C12. Nothing is published in vain: over any run, every message the loop sends is the retained
  availability marker or a reading that is not retained, on the very topic that a discovery message
  announces to Home Assistant, for any number of inverters and whatever they deliver.\<close>

theorem published_topics_announced:
  assumes "daemon_init ivs polling mqtt bms path fs bms_fs now = Inr d0"
    and "c \<in> set (fst (loop_forever ver ins (t, d0\<lparr>d_publisher := snd (mqtt_connect (d_publisher d0))\<rparr>)))"
  shows "\<exists>m. c = Publish m \<and> (m = availability_msg mqtt ''online'' \<or>
     \<not> retain m \<and> (\<exists>a kv. a \<in> set (published (publish_discovery (d_publisher d0))) \<and> content a = Json (PyDict kv)
        \<and> dget kv ''state_topic'' = Some (PyStr (topic m))))"
proof -
  let ?d = "d0\<lparr>d_publisher := snd (mqtt_connect (d_publisher d0))\<rparr>"
  note i = daemon_init_ok [OF assms(1)]
  have ok: "energy_ok (integrator ?d)"
    using i by simp
  have p: "pub_cfg (d_publisher d0) = mqtt" "n_inverters (d_publisher d0) = length ivs"
    "pub_cfg (d_publisher ?d) = mqtt" "length (d_inverters ?d) = length ivs"
    using i by (simp_all add: publisher_init_def mqtt_connect_def Let_def)
  from loop_announced [OF ok assms(2)] obtain m where m: "c = Publish m"
    "m = availability_msg mqtt ''online'' \<or> \<not> retain m \<and> (\<exists>k \<in> set (announced_keys (length ivs)). topic m = state_topic mqtt k)"
    unfolding announced_msg_def p by blast
  then show ?thesis
    using discovered [of _ "d_publisher d0"] unfolding p by metis
qed

lemma first_message:
  assumes "energy_ok (integrator d)" and "d_inverters d = iv # ivs"
  shows "\<exists>m cs. fst (loop_forever ver (inp # ins) (t, d)) = Publish m # cs
    \<and> topic m = state_topic (pub_cfg (d_publisher d)) (ikey 1 ''status'') \<and> \<not> retain m"
proof -
  obtain agg vals calls d' d1 durs c1 per where h: "run_one_hot_cycle ver (l_hot inp) d = (Some vals, calls, d')"
    "poll_all_parallel HOT (h_ivs (l_hot inp)) d = (per, durs, c1, d1)" "aggregate_inverters ver per = Some agg"
    "integrator d' = energy_step (sensors_py agg, elapsed_since (last_hot d) (h_now (l_hot inp))) (integrator d)"
    "d' = d1\<lparr>integrator := integrator d', last_hot := Some (h_now (l_hot inp))\<rparr>"
    "vals = dupdate (sensors_py agg) (map (\<lambda>(k, v). (k, PyFloat v)) (kwh_spec (counter_of (wh (integrator d')))))"
    "calls = c1 @ publish_values (pub_cfg (d_publisher d)) vals
       @ (if \<exists>blocks \<in> set per. blocks \<noteq> [] then set_online (pub_cfg (d_publisher d)) else []) @ meta_calls (l_hot inp) durs d'"
    by (rule hot_cycle [OF assms(1)])
  note s = poll_all_shape [OF h(2)]
  have f: "d_publisher d1 = d_publisher d" "d_inverters d1 = iv # ivs"
    using s assms(2) by (simp_all add: same_frame_def)
  have e: "enum1 (iv # ivs) = (1, iv) # zip [2..<Suc (Suc (length ivs))] ivs"
    unfolding enum1_def by (simp add: upt_rec numeral_2_eq_2 del: upt_Suc)
  obtain rest where "c1 = Publish \<lparr>topic = state_topic (pub_cfg (d_publisher d)) (ikey 1 ''status''),
     content = StrOf (PyStr (status_text (fst (view d1 (iv_name iv))))),
     msg_qos = qos (pub_cfg (d_publisher d)), retain = False\<rparr> # rest"
    using s unfolding status_calls f e by simp
  moreover have "\<exists>cs. fst (loop_forever ver (inp # ins) (t, d)) = calls @ cs"
    by (auto simp: iteration_def h(1) split: prod.split option.split)
  ultimately show ?thesis
    unfolding h(7) by auto
qed

theorem published_topics_announced_witness:
  "\<exists>d0 calls m. daemon_init demo_ivs demo_polling demo_mqtt demo_cfg None \<lparr>target = NoFile, tmp = None\<rparr>
       \<lparr>target = NoFile, tmp = None\<rparr> 0 = Inr d0
     \<and> fst (loop_forever Py312 [demo_loop] (0, d0\<lparr>d_publisher := snd (mqtt_connect (d_publisher d0))\<rparr>)) = Publish m # calls
     \<and> topic m = state_topic demo_mqtt (ikey 1 ''status'') \<and> \<not> retain m
     \<and> (\<exists>a kv. a \<in> set (published (publish_discovery (d_publisher d0))) \<and> content a = Json (PyDict kv)
        \<and> dget kv ''state_topic'' = Some (PyStr (topic m)))"
proof -
  obtain d0 where i: "daemon_init demo_ivs demo_polling demo_mqtt demo_cfg None
      \<lparr>target = NoFile, tmp = None\<rparr> \<lparr>target = NoFile, tmp = None\<rparr> 0 = Inr d0"
    by (simp add: daemon_init_def energy_init_def energy_load_def)
  define d where "d = d0\<lparr>d_publisher := snd (mqtt_connect (d_publisher d0))\<rparr>"
  have d: "energy_ok (integrator d)" "d_inverters d = demo_ivs" "pub_cfg (d_publisher d) = demo_mqtt"
    using daemon_init_ok [OF i] by (simp_all add: d_def publisher_init_def mqtt_connect_def Let_def)
  from first_message [OF d(1) d(2) [unfolded demo_ivs_def], of Py312 demo_loop "[]" 0] obtain m calls
    where m: "fst (loop_forever Py312 [demo_loop] (0, d)) = Publish m # calls"
      "topic m = state_topic demo_mqtt (ikey 1 ''status'')" "\<not> retain m"
    unfolding d(3) by blast
  have "Publish m \<in> set (fst (loop_forever Py312 [demo_loop] (0, d)))"
    by (simp only: m(1) list.set_intros)
  from published_topics_announced [OF i this [unfolded d_def]] m(3)
  have "\<exists>a kv. a \<in> set (published (publish_discovery (d_publisher d0))) \<and> content a = Json (PyDict kv)
        \<and> dget kv ''state_topic'' = Some (PyStr (topic m))"
    by (auto simp: availability_msg_def)
  then show ?thesis
    using i m unfolding d_def by blast
qed

section \<open>Shutdown\<close>

lemma announced_retained:
  assumes "\<forall>c \<in> set cs. announced_msg cfg n c" and "u \<noteq> availability_topic cfg"
  shows "retained cs store u = store u"
  using assms
proof (induction cs arbitrary: store)
  case (Cons c cs)
  have "retain_call c store u = store u"
    using Cons.prems by (auto simp: announced_msg_def retain_call_def availability_msg_def)
  then show ?case
    using Cons by (simp add: retained_def)
qed (simp add: retained_def)

lemma retained_append: "retained (a @ b) store = retained b (retained a store)"
  by (simp add: retained_def)

text \<open>A clean shutdown leaves the broker in order: whatever happened during the run and whatever the
  broker held before, availability is retained as offline at the end, every discovery message is
  retained as announced, no other retained topic was touched, the client has been told to disconnect
  last, and the energy of the run has been saved.\<close>

theorem daemon_shutdown:
  assumes "daemon_init ivs polling mqtt bms path fs bms_fs now = Inr d0"
    and "daemon_start ver t ins ok bin d0 = (calls, bms_calls, d1)"
    and "retain_discovery mqtt"
  shows "retained calls store (availability_topic mqtt) = Some (Text ''offline'')
    \<and> (\<forall>m \<in> set (published (publish_discovery (d_publisher d0))). retained calls store (topic m) = Some (content m))
    \<and> (\<forall>u. u \<noteq> availability_topic mqtt \<and> u \<notin> topic ` set (published (publish_discovery (d_publisher d0)))
         \<longrightarrow> retained calls store u = store u)
    \<and> last calls = DisconnectCall \<and> \<not> connected (d_publisher d1)
    \<and> energy_disk d1 = energy_save ok (integrator d1) (energy_disk (running_daemon ver t ins d0))"
proof -
  obtain c0 p where c0: "mqtt_connect (d_publisher d0) = (c0, p)" "retained c0 store = store"
    by (simp add: mqtt_connect_def Let_def retained_def retain_call_def)
  let ?d = "d0\<lparr>d_publisher := p\<rparr>"
  note i = daemon_init_ok [OF assms(1)]
  have pp: "pub_cfg p = mqtt" "n_inverters p = length ivs" "connected p" "d_inverters ?d = ivs"
    "pub_cfg (d_publisher d0) = mqtt"
    using i c0(1) by (auto simp: publisher_init_def mqtt_connect_def Let_def)
  have same: "publish_discovery p = publish_discovery (d_publisher d0)"
    using i c0(1) by (auto simp: publisher_init_def mqtt_connect_def Let_def publish_discovery_def)
  obtain c2 d2 where l: "loop_forever ver ins (t, ?d) = (c2, d2)"
    by fastforce
  have k: "d2 = running_daemon ver t ins d0" "kept ?d d2"
    using running_ok [OF assms(1), of ver t ins] by (simp_all add: running_daemon_def c0(1) l)
  have q: "d_publisher d2 = p"
    using k(2) by (simp add: kept_def)
  have calls: "calls = c0 @ (publish_discovery p @ set_online mqtt) @ c2
        @ [Publish (availability_msg mqtt ''offline''), LoopStop, DisconnectCall]"
    and d1: "\<not> connected (d_publisher d1)" "integrator d1 = integrator d2" "energy_disk d1 = energy_save ok (integrator d2) (energy_disk d2)"
    using assms(2) q pp by (auto simp: daemon_start_def c0(1) l Let_def daemon_save_energy_def mqtt_disconnect_def split: prod.splits)
  have ann: "\<forall>c \<in> set c2. announced_msg mqtt (length ivs) c"
    using loop_announced [of ?d _ ver ins t] i pp l by auto
  have r: "\<forall>m \<in> set (published (publish_discovery p)). retain m"
    using discovery_retain assms(3) pp by blast
  define st where "st = retained (c0 @ (publish_discovery p @ set_online mqtt)) store"
  have st: "st u = (if u = availability_topic mqtt then Some (Text ''online'')
      else fold (\<lambda>m st. if retain m then st(topic m \<mapsto> content m) else st) (published (publish_discovery p)) store u)" for u
  proof -
    have "st = retained (publish_discovery p @ set_online mqtt) store"
      unfolding st_def retained_append c0(2) by (rule refl)
    then show ?thesis
      by (simp add: retained_published set_online_def availability_msg_def)
  qed
  have "retained calls store u = (if u = availability_topic mqtt then Some (Text ''offline'') else st u)" for u
    using announced_retained [OF ann, of u st] unfolding calls st_def append_assoc [symmetric]
    by (simp add: retained_append) (simp add: retained_def retain_call_def availability_msg_def)
  moreover have "last calls = DisconnectCall"
    by (simp add: calls)
  moreover have "topic m \<noteq> availability_topic mqtt" if "m \<in> set (published (publish_discovery p))" for m
    using availability_fresh [OF that] pp by simp
  ultimately show ?thesis
    using fold_retain [OF r distinct_discovery_topics] d1 k(1) unfolding same st by auto
qed


theorem daemon_shutdown_witness:
  "\<exists>d0 calls bms_calls d1.
      daemon_init demo_ivs demo_polling demo_mqtt demo_cfg (Some ''energy.json'') empty_disk empty_disk 0 = Inr d0
    \<and> daemon_start Py312 0 [demo_loop, demo_loop] (\<lambda>_. True) demo_bms_in d0 = (calls, bms_calls, d1)
    \<and> retained calls Map.empty (availability_topic demo_mqtt) = Some (Text ''offline'') \<and> last calls = DisconnectCall"
proof -
  obtain d0 calls bms_calls d1 where
    s: "daemon_init demo_ivs demo_polling demo_mqtt demo_cfg (Some ''energy.json'') empty_disk empty_disk 0 = Inr d0"
    "daemon_start Py312 0 [demo_loop, demo_loop] (\<lambda>_. True) demo_bms_in d0 = (calls, bms_calls, d1)"
    using demo_start by blast
  have "retain_discovery demo_mqtt"
    by (simp add: demo_mqtt_def)
  from daemon_shutdown [OF s this, of Map.empty] s show ?thesis
    by blast
qed

end
