(* ===== verification/Bridge_Config.thy ===== *)
theory Bridge_Config
  imports Daemon Py_Parse
begin

text \<open>
  \<open>config.py\<close>: the loader of the YAML configuration. The document is its decoded value, with mappings
  keyed by strings; the password file is what reading it gives. Values that the loader stores
  without looking at them (names, ports, host, topics, log settings) stay dynamic values; \<open>str()\<close>
  of a float, a list or a mapping is the parameter \<open>repr\<close>. Every exception is a constructor.
\<close>

section \<open>Configuration\<close>

record loaded_inverter =
  li_name :: pyval
  li_port :: pyval
  li_slave :: int

record loaded_mqtt =
  lm_host :: pyval
  lm_username :: pyval
  lm_password :: string
  lm_port :: int
  lm_client_id :: pyval
  lm_topic_prefix :: pyval
  lm_discovery_prefix :: pyval
  lm_retain_discovery :: bool
  lm_qos :: int

record logging_cfg =
  lg_level :: pyval
  lg_format :: pyval

record bridge_config =
  bc_inverters :: "loaded_inverter list"
  bc_mqtt :: loaded_mqtt
  bc_polling :: polling_cfg
  bc_logging :: logging_cfg
  bc_bms :: bms_cfg

text \<open>The defaults of the dataclasses.\<close>

definition default_polling :: polling_cfg where
  "default_polling = \<lparr>hot_interval_s = Fin 3, cold_interval_s = Fin 60, serial_timeout_s = Fin (3 / 2),
     inter_query_delay_s = Fin (flit 5 2), retry_attempts = 3, retry_backoff_s = Fin (flit 1 1)\<rparr>"

definition default_logging :: logging_cfg where
  "default_logging = \<lparr>lg_level = PyStr ''INFO'', lg_format = PyStr ''text''\<rparr>"

definition default_serials :: "string list" where
  "default_serials = [''BN012502180020'', ''BN012502180443'', ''BN012502180269'', ''BN012502180456'']"

definition default_bms :: bms_cfg where
  "default_bms = \<lparr>b_enabled = False, b_master_mac = '''', b_pack_count = 4, b_poll_fast_interval_s = Fin 5,
     b_poll_slow_interval_s = Fin 300, b_inter_pack_delay_s = Fin (1 / 2), b_connect_timeout_s = Fin 15,
     b_reconnect_initial_backoff_s = Fin 2, b_reconnect_max_backoff_s = Fin 60, b_max_failed_cycles = 3,
     b_stale_pack_timeout_s = Fin 60, b_mqtt_topic_prefix = ''gadi_bms'', b_mqtt_device_name = ''BlueSun'',
     b_mqtt_device_id = ''bluesun_bms'', b_energy_persist_path = ''/var/lib/inverter-bridge/bms-energy.json'',
     b_pack_serials = default_serials\<rparr>"

datatype config_error =
    RootNotMapping
  | InvertersMissing
  | MqttMissing
  | NotIntOrHex
  | SlaveOutOfRange int
  | DuplicateSlave int
  | PasswordFileKeyMissing
  | PasswordFileMissing string
  | PasswordUnreadable
  | BadPackSerials
  | MasterMacMissing
  | PackCountOutOfRange int
  | CfgKeyError string
  | CfgTypeError
  | CfgAttributeError
  | ConversionError string

text \<open>A text file: absent, unreadable (or not UTF-8), or its text.\<close>

datatype text_file = TextMissing | TextRaises | TextIs string

section \<open>Access\<close>

text \<open>\<open>v[k]\<close> for a string \<open>k\<close>.\<close>

fun subscript :: "pyval \<Rightarrow> string \<Rightarrow> config_error + pyval" where
  "subscript (PyDict d) k = (case dget d k of None \<Rightarrow> Inl (CfgKeyError k) | Some v \<Rightarrow> Inr v)"
| "subscript _ k = Inl CfgTypeError"

text \<open>\<open>k in v\<close>: a key, an element, or a part of the text.\<close>

fun py_in :: "string \<Rightarrow> pyval \<Rightarrow> config_error + bool" where
  "py_in k (PyDict d) = Inr (dget d k \<noteq> None)"
| "py_in k (PyList xs) = Inr (PyStr k \<in> set xs)"
| "py_in k (PyStr s) = Inr (\<exists>i \<in> set [0..<Suc (length s)]. starts_with k (drop i s))"
| "py_in k _ = Inl CfgTypeError"

text \<open>\<open>d.get(k, default)\<close> of a value that may be no mapping is made on a section first found.\<close>

definition config_section :: "(string, pyval) dict \<Rightarrow> string \<Rightarrow> config_error + (string, pyval) dict" where
  "config_section data k =
     (case dget data k of None \<Rightarrow> Inr [] | Some (PyDict d) \<Rightarrow> Inr d | Some _ \<Rightarrow> Inl CfgAttributeError)"

definition get_float :: "(string, pyval) dict \<Rightarrow> string \<Rightarrow> pyfloat \<Rightarrow> config_error + pyfloat" where
  "get_float d k v = (case py_float (dget_or d k (PyFloat v)) of None \<Rightarrow> Inl (ConversionError k) | Some f \<Rightarrow> Inr f)"

definition get_int :: "(string, pyval) dict \<Rightarrow> string \<Rightarrow> int \<Rightarrow> config_error + int" where
  "get_int d k v = (case int_of_py (dget_or d k (PyInt v)) of None \<Rightarrow> Inl (ConversionError k) | Some n \<Rightarrow> Inr n)"

definition get_str :: "(pyval \<Rightarrow> string) \<Rightarrow> (string, pyval) dict \<Rightarrow> string \<Rightarrow> string \<Rightarrow> string" where
  "get_str repr d k v = py_str repr (dget_or d k (PyStr v))"

section \<open>The loader\<close>

fun parse_int_or_hex :: "pyval \<Rightarrow> config_error + int" where
  "parse_int_or_hex (PyInt n) = Inr n"
| "parse_int_or_hex (PyBool b) = Inr (if b then 1 else 0)"
| "parse_int_or_hex (PyStr s) = (case int_base0 s of None \<Rightarrow> Inl (ConversionError ''slave'') | Some n \<Rightarrow> Inr n)"
| "parse_int_or_hex _ = Inl NotIntOrHex"

fun load_inverters :: "pyval list \<Rightarrow> int set \<Rightarrow> config_error + loaded_inverter list" where
  "load_inverters [] seen_slaves = Inr []"
| "load_inverters (item # items) seen_slaves =
     bindE (subscript item ''slave'') (\<lambda>v.
     bindE (parse_int_or_hex v) (\<lambda>slave.
     if \<not> (1 \<le> slave \<and> slave \<le> 247) then Inl (SlaveOutOfRange slave)
     else if slave \<in> seen_slaves then Inl (DuplicateSlave slave)
     else
       bindE (subscript item ''name'') (\<lambda>name.
       bindE (subscript item ''port'') (\<lambda>dev.
       bindE (load_inverters items (insert slave seen_slaves)) (\<lambda>rest.
       Inr (\<lparr>li_name = name, li_port = dev, li_slave = slave\<rparr> # rest))))))"

text \<open>What iterating over the value gives; the elements of a text or a mapping are texts.\<close>

fun py_iter :: "pyval \<Rightarrow> config_error + pyval list" where
  "py_iter (PyList xs) = Inr xs"
| "py_iter (PyDict d) = Inr (map (\<lambda>(k, _). PyStr k) d)"
| "py_iter (PyStr s) = Inr (map (\<lambda>c. PyStr [c]) s)"
| "py_iter _ = Inl CfgTypeError"

definition load_mqtt :: "(string \<Rightarrow> text_file) \<Rightarrow> pyval \<Rightarrow> config_error + loaded_mqtt" where
  "load_mqtt files mq =
     bindE (py_in ''password_file'' mq) (\<lambda>present.
     if \<not> present then Inl PasswordFileKeyMissing
     else
       bindE (subscript mq ''password_file'') (\<lambda>pw_path.
       case (pw_path, mq) of
         (PyStr pw_file, PyDict d) \<Rightarrow>
           (case files pw_file of
              TextMissing \<Rightarrow> Inl (PasswordFileMissing pw_file)
            | TextRaises \<Rightarrow> Inl PasswordUnreadable
            | TextIs text \<Rightarrow>
                bindE (subscript mq ''host'') (\<lambda>host.
                bindE (subscript mq ''username'') (\<lambda>username.
                bindE (get_int d ''port'' 1883) (\<lambda>port.
                bindE (get_int d ''qos'' 0) (\<lambda>qos.
                Inr \<lparr>lm_host = host, lm_username = username, lm_password = strip text, lm_port = port,
                  lm_client_id = dget_or d ''client_id'' (PyStr ''inverter_bridge''),
                  lm_topic_prefix = dget_or d ''topic_prefix'' (PyStr ''gadi_inverters''),
                  lm_discovery_prefix = dget_or d ''discovery_prefix'' (PyStr ''homeassistant''),
                  lm_retain_discovery = py_bool (dget_or d ''retain_discovery'' (PyBool True)),
                  lm_qos = qos\<rparr>)))))
       | _ \<Rightarrow> Inl CfgTypeError))"

definition load_polling :: "(string, pyval) dict \<Rightarrow> config_error + polling_cfg" where
  "load_polling d =
     bindE (get_float d ''hot_interval_s'' (Fin 3)) (\<lambda>hot.
     bindE (get_float d ''cold_interval_s'' (Fin 60)) (\<lambda>cold.
     bindE (get_float d ''serial_timeout_s'' (Fin (3 / 2))) (\<lambda>timeout.
     bindE (get_float d ''inter_query_delay_s'' (Fin (flit 5 2))) (\<lambda>delay.
     bindE (get_int d ''retry_attempts'' 3) (\<lambda>attempts.
     bindE (get_float d ''retry_backoff_s'' (Fin (flit 1 1))) (\<lambda>backoff.
     Inr \<lparr>hot_interval_s = hot, cold_interval_s = cold, serial_timeout_s = timeout,
       inter_query_delay_s = delay, retry_attempts = attempts, retry_backoff_s = backoff\<rparr>))))))"

fun str_list :: "pyval list \<Rightarrow> string list option" where
  "str_list [] = Some []"
| "str_list (PyStr s # ys) = map_option (Cons s) (str_list ys)"
| "str_list (_ # ys) = None"

definition load_serials :: "(string, pyval) dict \<Rightarrow> config_error + string list" where
  "load_serials d =
     (case dget_or d ''pack_serials'' PyNone of
        PyNone \<Rightarrow> Inr default_serials
      | PyList ys \<Rightarrow> (case str_list ys of None \<Rightarrow> Inl BadPackSerials | Some ss \<Rightarrow> Inr ss)
      | _ \<Rightarrow> Inl BadPackSerials)"

definition load_bms :: "(pyval \<Rightarrow> string) \<Rightarrow> (string, pyval) dict \<Rightarrow> config_error + bms_cfg" where
  "load_bms repr d =
     bindE (load_serials d) (\<lambda>serials.
     bindE (get_int d ''pack_count'' 4) (\<lambda>pack_count.
     bindE (get_float d ''poll_fast_interval_s'' (Fin 5)) (\<lambda>fast.
     bindE (get_float d ''poll_slow_interval_s'' (Fin 300)) (\<lambda>slow.
     bindE (get_float d ''inter_pack_delay_s'' (Fin (1 / 2))) (\<lambda>delay.
     bindE (get_float d ''connect_timeout_s'' (Fin 15)) (\<lambda>timeout.
     bindE (get_float d ''reconnect_initial_backoff_s'' (Fin 2)) (\<lambda>initial.
     bindE (get_float d ''reconnect_max_backoff_s'' (Fin 60)) (\<lambda>maximal.
     bindE (get_float d ''stale_pack_timeout_s'' (Fin 60)) (\<lambda>stale.
     let bms = \<lparr>b_enabled = py_bool (dget_or d ''enabled'' (PyBool False)),
           b_master_mac = get_str repr d ''master_mac'' '''', b_pack_count = pack_count,
           b_poll_fast_interval_s = fast, b_poll_slow_interval_s = slow, b_inter_pack_delay_s = delay,
           b_connect_timeout_s = timeout, b_reconnect_initial_backoff_s = initial,
           b_reconnect_max_backoff_s = maximal, b_max_failed_cycles = b_max_failed_cycles default_bms,
           b_stale_pack_timeout_s = stale,
           b_mqtt_topic_prefix = get_str repr d ''mqtt_topic_prefix'' ''gadi_bms'',
           b_mqtt_device_name = get_str repr d ''mqtt_device_name'' ''BlueSun'',
           b_mqtt_device_id = get_str repr d ''mqtt_device_id'' ''bluesun_bms'',
           b_energy_persist_path = get_str repr d ''energy_persist_path'' ''/var/lib/inverter-bridge/bms-energy.json'',
           b_pack_serials = serials\<rparr>
     in if b_enabled bms \<and> b_master_mac bms = [] then Inl MasterMacMissing
        else if b_enabled bms \<and> \<not> (1 \<le> b_pack_count bms \<and> b_pack_count bms \<le> 4) then Inl (PackCountOutOfRange (b_pack_count bms))
        else Inr bms)))))))))"

definition load_config :: "(pyval \<Rightarrow> string) \<Rightarrow> (string \<Rightarrow> text_file) \<Rightarrow> pyval \<Rightarrow> config_error + bridge_config" where
  "load_config repr files document =
     (case document of
        PyDict data \<Rightarrow>
          (case dget data ''inverters'' of
             None \<Rightarrow> Inl InvertersMissing
           | Some invs \<Rightarrow>
               if \<not> py_bool invs then Inl InvertersMissing
               else
                 (case dget data ''mqtt'' of
                    None \<Rightarrow> Inl MqttMissing
                  | Some mq \<Rightarrow>
                      bindE (py_iter invs) (\<lambda>items.
                      bindE (load_inverters items {}) (\<lambda>inverters.
                      bindE (load_mqtt files mq) (\<lambda>mqtt.
                      bindE (config_section data ''polling'') (\<lambda>poll_data.
                      bindE (load_polling poll_data) (\<lambda>polling.
                      bindE (config_section data ''logging'') (\<lambda>log_data.
                      bindE (config_section data ''bms'') (\<lambda>bms_data.
                      bindE (load_bms repr bms_data) (\<lambda>bms.
                      Inr \<lparr>bc_inverters = inverters, bc_mqtt = mqtt, bc_polling = polling,
                        bc_logging = \<lparr>lg_level = dget_or log_data ''level'' (PyStr ''INFO''),
                          lg_format = dget_or log_data ''format'' (PyStr ''text'')\<rparr>,
                        bc_bms = bms\<rparr>))))))))))
      | _ \<Rightarrow> Inl RootNotMapping)"

section \<open>What a loaded configuration guarantees\<close>

text \<open>An entry of the list \<open>inverters\<close>, and what is stored for it.\<close>

definition entry_gives :: "loaded_inverter \<Rightarrow> pyval \<Rightarrow> bool" where
  "entry_gives i item \<longleftrightarrow> (\<exists>d v. item = PyDict d \<and> dget d ''slave'' = Some v \<and> parse_int_or_hex v = Inr (li_slave i)
     \<and> 1 \<le> li_slave i \<and> li_slave i \<le> 247 \<and> dget d ''name'' = Some (li_name i) \<and> dget d ''port'' = Some (li_port i))"

lemma subscript_Inr: "subscript v k = Inr x \<longleftrightarrow> (\<exists>d. v = PyDict d \<and> dget d k = Some x)"
  by (cases v) (auto split: option.splits)

lemma load_inverters_Inr:
  "load_inverters items seen = Inr xs \<longleftrightarrow>
     list_all2 entry_gives xs items \<and> distinct (map li_slave xs) \<and> set (map li_slave xs) \<inter> seen = {}"
proof (induction items arbitrary: seen xs)
  case (Cons item items)
  have "load_inverters (item # items) seen = Inr xs \<longleftrightarrow>
      (\<exists>i rest. xs = i # rest \<and> entry_gives i item \<and> li_slave i \<notin> seen
         \<and> load_inverters items (insert (li_slave i) seen) = Inr rest)"
  proof
    assume "load_inverters (item # items) seen = Inr xs"
    then obtain v slave name dev rest where "subscript item ''slave'' = Inr v" "parse_int_or_hex v = Inr slave"
        "1 \<le> slave" "slave \<le> 247" "slave \<notin> seen" "subscript item ''name'' = Inr name" "subscript item ''port'' = Inr dev"
        "load_inverters items (insert slave seen) = Inr rest"
        "xs = \<lparr>li_name = name, li_port = dev, li_slave = slave\<rparr> # rest"
      by (auto simp: bindE_Inr_iff split: if_splits)
    then show "\<exists>i rest. xs = i # rest \<and> entry_gives i item \<and> li_slave i \<notin> seen
         \<and> load_inverters items (insert (li_slave i) seen) = Inr rest"
      by (auto simp: entry_gives_def subscript_Inr)
  next
    assume "\<exists>i rest. xs = i # rest \<and> entry_gives i item \<and> li_slave i \<notin> seen
         \<and> load_inverters items (insert (li_slave i) seen) = Inr rest"
    then obtain i rest d v where "xs = i # rest" "item = PyDict d" "dget d ''slave'' = Some v"
        "parse_int_or_hex v = Inr (li_slave i)" "1 \<le> li_slave i" "li_slave i \<le> 247"
        "dget d ''name'' = Some (li_name i)" "dget d ''port'' = Some (li_port i)" "li_slave i \<notin> seen"
        "load_inverters items (insert (li_slave i) seen) = Inr rest"
      by (auto simp: entry_gives_def)
    then show "load_inverters (item # items) seen = Inr xs"
      by simp
  qed
  also have "\<dots> \<longleftrightarrow> list_all2 entry_gives xs (item # items) \<and> distinct (map li_slave xs) \<and> set (map li_slave xs) \<inter> seen = {}"
    unfolding Cons.IH by (cases xs) auto
  finally show ?case .
qed auto

definition inverters_ok :: "loaded_inverter list \<Rightarrow> bool" where
  "inverters_ok is \<longleftrightarrow> is \<noteq> [] \<and> distinct (map li_slave is) \<and> (\<forall>i \<in> set is. 1 \<le> li_slave i \<and> li_slave i \<le> 247)"

definition bms_ok :: "bms_cfg \<Rightarrow> bool" where
  "bms_ok b \<longleftrightarrow> b_max_failed_cycles b = 3
     \<and> (b_enabled b \<longrightarrow> b_master_mac b \<noteq> [] \<and> 1 \<le> b_pack_count b \<and> b_pack_count b \<le> 4)"

lemma load_config_Inr:
  "load_config repr files doc = Inr c \<longleftrightarrow>
     (\<exists>data invs mq items poll_data log_data bms_data. doc = PyDict data \<and> dget data ''inverters'' = Some invs \<and> py_bool invs
        \<and> dget data ''mqtt'' = Some mq \<and> py_iter invs = Inr items \<and> load_inverters items {} = Inr (bc_inverters c)
        \<and> load_mqtt files mq = Inr (bc_mqtt c) \<and> config_section data ''polling'' = Inr poll_data
        \<and> load_polling poll_data = Inr (bc_polling c) \<and> config_section data ''logging'' = Inr log_data
        \<and> bc_logging c = \<lparr>lg_level = dget_or log_data ''level'' (PyStr ''INFO''), lg_format = dget_or log_data ''format'' (PyStr ''text'')\<rparr>
        \<and> config_section data ''bms'' = Inr bms_data \<and> load_bms repr bms_data = Inr (bc_bms c))"
  by (cases c) (auto simp: load_config_def bindE_Inr_iff split: pyval.split option.split)

lemma py_iter_items: "py_iter invs = Inr items \<Longrightarrow> py_bool invs \<Longrightarrow> items \<noteq> []"
  by (cases invs) auto

lemma load_bms_ok: "load_bms repr d = Inr b \<Longrightarrow> bms_ok b"
  by (auto simp: load_bms_def bindE_Inr_iff Let_def bms_ok_def default_bms_def split: if_splits)

lemma loaded_ok:
  assumes "load_config repr files doc = Inr c"
  shows "inverters_ok (bc_inverters c) \<and> bms_ok (bc_bms c)"
proof -
  obtain invs items where i: "py_iter invs = Inr items" "py_bool invs" "load_inverters items {} = Inr (bc_inverters c)"
    and b: "bms_ok (bc_bms c)"
    using assms load_bms_ok unfolding load_config_Inr by blast
  have "list_all2 entry_gives (bc_inverters c) items" "distinct (map li_slave (bc_inverters c))"
    using i(3) unfolding load_inverters_Inr by simp_all
  moreover have "1 \<le> li_slave x \<and> li_slave x \<le> 247" if "x \<in> set (bc_inverters c)" for x
    using calculation(1) that by (auto simp: list_all2_conv_all_nth in_set_conv_nth entry_gives_def)
  moreover have "bc_inverters c \<noteq> []"
    using calculation(1) py_iter_items [OF i(1,2)] by auto
  ultimately show ?thesis
    using b by (simp add: inverters_ok_def)
qed

text \<open>C32. What loading checks holds of every configuration it returns, whatever the document: there is an
  inverter, the slave addresses are distinct and between 1 and 247, an enabled battery service has a
  MAC and one to four packs; so every register request of the poll is one the protocol layer
  accepts, and the number of failed cycles is 3 whatever the document says.\<close>

theorem config_validated:
  assumes "load_config repr files doc = Inr c"
  shows "inverters_ok (bc_inverters c) \<and> bms_ok (bc_bms c)
    \<and> (\<forall>i \<in> set (bc_inverters c). \<forall>b \<in> set BLOCKS. \<exists>req. build_read_holding_request (li_slave i) (bl_addr b) (int (bl_count b)) = Inr req)
    \<and> (b_enabled (bc_bms c) \<longrightarrow> set (pack_numbers (bc_bms c)) \<noteq> {} \<and> set (pack_numbers (bc_bms c)) \<subseteq> {1..4})"
proof -
  have r: "\<forall>b \<in> set BLOCKS. 0 \<le> bl_addr b \<and> bl_addr b \<le> 65535 \<and> 1 \<le> bl_count b \<and> bl_count b \<le> 125"
    by code_simp
  have "\<exists>req. build_read_holding_request s (bl_addr b) (int (bl_count b)) = Inr req"
    if "b \<in> set BLOCKS" "1 \<le> s" "s \<le> 247" for b s
    using r that by (auto simp: build_read_holding_request_def)
  then show ?thesis
    using loaded_ok [OF assms] by (auto simp: inverters_ok_def bms_ok_def pack_numbers_def)
qed

section \<open>Defaults\<close>

lemma pfloat_small: "is_double x \<Longrightarrow> \<bar>x\<bar> \<le> 1000 \<Longrightarrow> pfloat (Fin x) = Fin x"
  by (simp add: mkf_def fl_double dbl_limit_def)

lemma pfloat_defaults [simp]:
  "mkf 3 = Fin 3" "mkf 60 = Fin 60" "mkf 5 = Fin 5" "mkf 300 = Fin 300" "mkf 15 = Fin 15" "mkf 2 = Fin 2"
  "mkf (3 / 2) = Fin (3 / 2)" "mkf (1 / 2) = Fin (1 / 2)"
  "mkf (flit 5 2) = Fin (flit 5 2)" "mkf (flit 1 (Suc 0)) = Fin (flit 1 (Suc 0))"
proof -
  have i: "is_double (of_int m)" if "\<bar>m\<bar> \<le> 300" for m
    using that by (intro is_double_int) (simp add: order_trans)
  have h: "is_double (of_int m / 2)" if "\<bar>m\<bar> \<le> 300" for m
    unfolding is_double_def by (intro exI [of _ m] exI [of _ "- 1"]) (use that in \<open>simp add: power_int_def\<close>)
  have f: "is_double (flit k j)" "\<bar>flit k j\<bar> \<le> 1000" if "0 \<le> of_int k / (10 :: rat) ^ j" "of_int k / (10 :: rat) ^ j \<le> of_int 1" for k j
    using fl_mono [OF that(1)] fl_mono [OF that(2)] fl_int [of 1] by (simp_all add: flit_def fl_is_double)
  show "mkf 3 = Fin 3" "mkf 60 = Fin 60" "mkf 5 = Fin 5" "mkf 300 = Fin 300" "mkf 15 = Fin 15" "mkf 2 = Fin 2"
    using pfloat_small [OF i [of 3]] pfloat_small [OF i [of 60]] pfloat_small [OF i [of 5]] pfloat_small [OF i [of 300]]
      pfloat_small [OF i [of 15]] pfloat_small [OF i [of 2]] by simp_all
  show "mkf (3 / 2) = Fin (3 / 2)" "mkf (1 / 2) = Fin (1 / 2)"
    using pfloat_small [OF h [of 3]] pfloat_small [OF h [of 1]] by simp_all
  show "mkf (flit 5 2) = Fin (flit 5 2)" "mkf (flit 1 (Suc 0)) = Fin (flit 1 (Suc 0))"
    using pfloat_small [OF f [of 5 2]] pfloat_small [OF f [of 1 1]] by simp_all
qed

lemma default_loads: "load_polling [] = Inr default_polling" "load_bms repr [] = Inr default_bms"
  by (simp_all add: load_polling_def load_bms_def get_float_def get_int_def get_str_def load_serials_def dget_or_def
      default_polling_def default_bms_def)

text \<open>The loader's own defaults are those of the dataclasses: a document without the sections
  \<open>polling\<close>, \<open>logging\<close> and \<open>bms\<close> loads to the default records, with the battery service disabled.\<close>

theorem config_defaults_agree:
  assumes "load_config repr files (PyDict data) = Inr c"
    and "dget data ''polling'' = None" "dget data ''logging'' = None" "dget data ''bms'' = None"
  shows "bc_polling c = default_polling \<and> bc_logging c = default_logging \<and> bc_bms c = default_bms"
  using assms default_loads unfolding load_config_Inr by (auto simp: config_section_def default_logging_def dget_or_def)

section \<open>Documents\<close>

definition inverter_document :: "loaded_inverter \<Rightarrow> pyval" where
  "inverter_document i = PyDict [(''name'', li_name i), (''port'', li_port i), (''slave'', PyInt (li_slave i))]"

definition mqtt_document :: "string \<Rightarrow> loaded_mqtt \<Rightarrow> pyval" where
  "mqtt_document path m = PyDict
     [(''host'', lm_host m), (''username'', lm_username m), (''password_file'', PyStr path),
      (''port'', PyInt (lm_port m)), (''client_id'', lm_client_id m), (''topic_prefix'', lm_topic_prefix m),
      (''discovery_prefix'', lm_discovery_prefix m), (''retain_discovery'', PyBool (lm_retain_discovery m)),
      (''qos'', PyInt (lm_qos m))]"

definition polling_document :: "polling_cfg \<Rightarrow> (string, pyval) dict" where
  "polling_document p =
     [(''hot_interval_s'', PyFloat (hot_interval_s p)), (''cold_interval_s'', PyFloat (cold_interval_s p)),
      (''serial_timeout_s'', PyFloat (serial_timeout_s p)), (''inter_query_delay_s'', PyFloat (inter_query_delay_s p)),
      (''retry_attempts'', PyInt (retry_attempts p)), (''retry_backoff_s'', PyFloat (retry_backoff_s p))]"

definition bms_document :: "bms_cfg \<Rightarrow> (string, pyval) dict" where
  "bms_document b =
     [(''enabled'', PyBool (b_enabled b)), (''master_mac'', PyStr (b_master_mac b)),
      (''pack_count'', PyInt (b_pack_count b)), (''poll_fast_interval_s'', PyFloat (b_poll_fast_interval_s b)),
      (''poll_slow_interval_s'', PyFloat (b_poll_slow_interval_s b)),
      (''inter_pack_delay_s'', PyFloat (b_inter_pack_delay_s b)), (''connect_timeout_s'', PyFloat (b_connect_timeout_s b)),
      (''reconnect_initial_backoff_s'', PyFloat (b_reconnect_initial_backoff_s b)),
      (''reconnect_max_backoff_s'', PyFloat (b_reconnect_max_backoff_s b)),
      (''stale_pack_timeout_s'', PyFloat (b_stale_pack_timeout_s b)),
      (''mqtt_topic_prefix'', PyStr (b_mqtt_topic_prefix b)), (''mqtt_device_name'', PyStr (b_mqtt_device_name b)),
      (''mqtt_device_id'', PyStr (b_mqtt_device_id b)), (''energy_persist_path'', PyStr (b_energy_persist_path b)),
      (''pack_serials'', PyList (map PyStr (b_pack_serials b)))]"

definition config_document :: "string \<Rightarrow> bridge_config \<Rightarrow> pyval" where
  "config_document path c = PyDict
     [(''inverters'', PyList (map inverter_document (bc_inverters c))), (''mqtt'', mqtt_document path (bc_mqtt c)),
      (''polling'', PyDict (polling_document (bc_polling c))),
      (''logging'', PyDict [(''level'', lg_level (bc_logging c)), (''format'', lg_format (bc_logging c))]),
      (''bms'', PyDict (bms_document (bc_bms c)))]"

definition config_floats :: "bridge_config \<Rightarrow> pyfloat list" where
  "config_floats c = (let p = bc_polling c; b = bc_bms c in
     [hot_interval_s p, cold_interval_s p, serial_timeout_s p, inter_query_delay_s p, retry_backoff_s p,
      b_poll_fast_interval_s b, b_poll_slow_interval_s b, b_inter_pack_delay_s b, b_connect_timeout_s b,
      b_reconnect_initial_backoff_s b, b_reconnect_max_backoff_s b, b_stale_pack_timeout_s b])"

lemma str_list_map: "str_list (map PyStr ss) = Some ss"
  by (induction ss) simp_all

lemma get_document:
  "dget d k = Some (PyFloat f) \<Longrightarrow> pdouble f \<Longrightarrow> get_float d k v = Inr f"
  "dget d k = Some (PyInt n) \<Longrightarrow> get_int d k w = Inr n"
  "dget d k = Some (PyStr s) \<Longrightarrow> get_str repr d k s0 = s"
  by (simp_all add: get_float_def get_int_def get_str_def dget_or_def)

lemma load_polling_document:
  assumes "\<forall>f \<in> {hot_interval_s p, cold_interval_s p, serial_timeout_s p, inter_query_delay_s p, retry_backoff_s p}. pdouble f"
  shows "load_polling (polling_document p) = Inr p"
  using assms by (simp add: load_polling_def get_document polling_document_def)

lemma load_bms_document:
  assumes "bms_ok b" and "\<forall>f \<in> {b_poll_fast_interval_s b, b_poll_slow_interval_s b, b_inter_pack_delay_s b,
      b_connect_timeout_s b, b_reconnect_initial_backoff_s b, b_reconnect_max_backoff_s b, b_stale_pack_timeout_s b}. pdouble f"
  shows "load_bms repr (bms_document b) = Inr b"
proof -
  have g: "get_int (bms_document b) ''pack_count'' n = Inr (b_pack_count b)"
    "get_float (bms_document b) ''poll_fast_interval_s'' v = Inr (b_poll_fast_interval_s b)"
    "get_float (bms_document b) ''poll_slow_interval_s'' v = Inr (b_poll_slow_interval_s b)"
    "get_float (bms_document b) ''inter_pack_delay_s'' v = Inr (b_inter_pack_delay_s b)"
    "get_float (bms_document b) ''connect_timeout_s'' v = Inr (b_connect_timeout_s b)"
    "get_float (bms_document b) ''reconnect_initial_backoff_s'' v = Inr (b_reconnect_initial_backoff_s b)"
    "get_float (bms_document b) ''reconnect_max_backoff_s'' v = Inr (b_reconnect_max_backoff_s b)"
    "get_float (bms_document b) ''stale_pack_timeout_s'' v = Inr (b_stale_pack_timeout_s b)"
    "get_str repr (bms_document b) ''master_mac'' s = b_master_mac b"
    "get_str repr (bms_document b) ''mqtt_topic_prefix'' s = b_mqtt_topic_prefix b"
    "get_str repr (bms_document b) ''mqtt_device_name'' s = b_mqtt_device_name b"
    "get_str repr (bms_document b) ''mqtt_device_id'' s = b_mqtt_device_id b"
    "get_str repr (bms_document b) ''energy_persist_path'' s = b_energy_persist_path b" for n v s
    using assms(2) by (simp_all add: get_document bms_document_def)
  have s: "load_serials (bms_document b) = Inr (b_pack_serials b)"
    "py_bool (dget_or (bms_document b) ''enabled'' v) = b_enabled b" for v
    by (simp_all add: load_serials_def bms_document_def dget_or_def str_list_map)
  have "b_max_failed_cycles default_bms = b_max_failed_cycles b"
    using assms(1) by (simp add: bms_ok_def default_bms_def)
  then show ?thesis
    using assms(1) unfolding load_bms_def Let_def s bindE.simps g by (auto simp: bms_ok_def)
qed

lemma load_document:
  assumes "inverters_ok (bc_inverters c)" and "bms_ok (bc_bms c)" and "\<forall>f \<in> set (config_floats c). pdouble f"
    and "files path = TextIs body" and "lm_password (bc_mqtt c) = strip body"
  shows "load_config repr files (config_document path c) = Inr c"
proof -
  have e: "entry_gives i (inverter_document i)" if "i \<in> set (bc_inverters c)" for i
    using assms(1) that by (auto simp: entry_gives_def inverter_document_def inverters_ok_def)
  then have "list_all2 entry_gives (bc_inverters c) (map inverter_document (bc_inverters c))"
    by (simp add: list_all2_conv_all_nth)
  then have i: "load_inverters (map inverter_document (bc_inverters c)) {} = Inr (bc_inverters c)"
    using assms(1) by (simp add: load_inverters_Inr inverters_ok_def)
  have m: "load_mqtt files (mqtt_document path (bc_mqtt c)) = Inr (bc_mqtt c)"
    using assms(4,5) by (simp add: load_mqtt_def mqtt_document_def get_document dget_or_def)
  have p: "load_polling (polling_document (bc_polling c)) = Inr (bc_polling c)"
    using assms(3) by (intro load_polling_document) (simp add: config_floats_def Let_def)
  have b: "load_bms repr (bms_document (bc_bms c)) = Inr (bc_bms c)"
    using assms(2,3) by (intro load_bms_document) (simp_all add: config_floats_def Let_def)
  have "bc_inverters c \<noteq> []"
    using assms(1) by (simp add: inverters_ok_def)
  then show ?thesis
    using i m p b unfolding load_config_Inr config_document_def
    by (simp add: config_section_def dget_or_def)
qed

definition demo_config :: bridge_config where
  "demo_config =
     \<lparr>bc_inverters = [\<lparr>li_name = PyStr ''inv1'', li_port = PyStr ''/dev/ttyUSB0'', li_slave = 1\<rparr>,
        \<lparr>li_name = PyStr ''inv1'', li_port = PyStr ''/dev/ttyUSB1'', li_slave = 247\<rparr>],
      bc_mqtt = \<lparr>lm_host = PyStr ''broker'', lm_username = PyStr ''u'', lm_password = ''secret'', lm_port = 1883,
        lm_client_id = PyStr ''inverter_bridge'', lm_topic_prefix = PyStr ''gadi_inverters'',
        lm_discovery_prefix = PyStr ''homeassistant'', lm_retain_discovery = True, lm_qos = 0\<rparr>,
      bc_polling = default_polling, bc_logging = default_logging, bc_bms = default_bms\<rparr>"

lemma demo_config_ok: "inverters_ok (bc_inverters demo_config)" "bms_ok (bc_bms demo_config)"
  "\<forall>f \<in> set (config_floats demo_config). pdouble f" "lm_password (bc_mqtt demo_config) = strip ''secret''"
proof -
  have d: "mkf x = Fin x \<Longrightarrow> pdouble (Fin x)" for x
    using pdouble_mkf [of x] by simp
  note ds = pfloat_defaults [THEN d]
  show "inverters_ok (bc_inverters demo_config)" "bms_ok (bc_bms demo_config)"
    by (simp_all add: demo_config_def inverters_ok_def bms_ok_def default_bms_def)
  show "\<forall>f \<in> set (config_floats demo_config). pdouble f"
    using ds by (simp add: demo_config_def config_floats_def default_polling_def default_bms_def Let_def)
  show "lm_password (bc_mqtt demo_config) = strip ''secret''"
    by (simp add: demo_config_def) code_simp
qed

text \<open>C31. A configuration survives being written and loaded: every valid configuration, written as a
  document with all its keys, loads to itself, whatever the names, the topics and the other values;
  the password is the text of the file without surrounding blanks.\<close>

theorem config_roundtrip:
  assumes "inverters_ok (bc_inverters c)" and "bms_ok (bc_bms c)" and "\<forall>f \<in> set (config_floats c). pdouble f"
    and "files path = TextIs body" and "lm_password (bc_mqtt c) = strip body"
  shows "load_config repr files (config_document path c) = Inr c"
  by (rule load_document [where files = files and path = path, OF assms])

theorem config_roundtrip_witness:
  "load_config (\<lambda>_. ''?'') (\<lambda>_. TextIs ''secret'') (config_document ''pw'' demo_config) = Inr demo_config"
  by (rule config_roundtrip [where body = "''secret''", OF demo_config_ok(1-3) _ demo_config_ok(4)]) simp

lemma demo_loads: "load_config (\<lambda>_. ''?'') (\<lambda>_. TextIs ''secret'') (config_document ''pw'' demo_config) = Inr demo_config"
  by (rule load_document [where body = "''secret''", OF demo_config_ok(1-3) _ demo_config_ok(4)]) simp

theorem config_validated_witness:
  "\<exists>c. load_config (\<lambda>_. ''?'') (\<lambda>_. TextIs ''secret'') (config_document ''pw'' demo_config) = Inr c
     \<and> length (bc_inverters c) = 2
     \<and> (\<exists>req. build_read_holding_request 247 (bl_addr (hd BLOCKS)) (int (bl_count (hd BLOCKS))) = Inr req)"
proof -
  have "\<lparr>li_name = PyStr ''inv1'', li_port = PyStr ''/dev/ttyUSB1'', li_slave = 247\<rparr> \<in> set (bc_inverters demo_config)"
    "hd BLOCKS \<in> set BLOCKS" "length (bc_inverters demo_config) = 2"
    by (simp_all add: demo_config_def BLOCKS_def)
  note m = this
  have "\<forall>i \<in> set (bc_inverters demo_config). \<forall>b \<in> set BLOCKS.
      \<exists>req. build_read_holding_request (li_slave i) (bl_addr b) (int (bl_count b)) = Inr req"
    using config_validated [OF demo_loads] by blast
  from bspec [OF bspec [OF this m(1)] m(2)] show ?thesis
    using demo_loads m(3) by simp
qed

definition small_inverter :: pyval where
  "small_inverter = PyDict [(''name'', PyStr ''a''), (''slave'', PyStr ''0x0A''), (''port'', PyStr ''/dev/x'')]"

definition small_mqtt :: "(string, pyval) dict" where
  "small_mqtt = [(''host'', PyStr ''h''), (''username'', PyStr ''u''), (''password_file'', PyStr ''pw'')]"

definition small_document :: "(string, pyval) dict" where
  "small_document = [(''inverters'', PyList [small_inverter]), (''mqtt'', PyDict small_mqtt)]"

lemma small_loads:
  "\<exists>c. load_config (\<lambda>_. ''?'') (\<lambda>_. TextIs ''secret'') (PyDict small_document) = Inr c \<and> map li_slave (bc_inverters c) = [10]"
proof -
  have n: "int_base0 ''0x0A'' = Some 10"
    by (simp add: int_base0_def strip_def is_space_def to_lower_def based_def is_base_digit_def hex_val_def is_digit_def
        nat_of_base_def signed_int_def Let_def)
  have i: "load_inverters [small_inverter] {} = Inr [\<lparr>li_name = PyStr ''a'', li_port = PyStr ''/dev/x'', li_slave = 10\<rparr>]"
    by (simp add: small_inverter_def n)
  have d: "dget small_mqtt ''host'' = Some (PyStr ''h'')" "dget small_mqtt ''username'' = Some (PyStr ''u'')"
    "dget small_mqtt ''password_file'' = Some (PyStr ''pw'')" "dget small_mqtt ''port'' = None" "dget small_mqtt ''qos'' = None"
    by (simp_all add: small_mqtt_def)
  obtain m where m: "load_mqtt (\<lambda>_. TextIs ''secret'') (PyDict small_mqtt) = Inr m"
    by (simp add: load_mqtt_def get_int_def dget_or_def d)
  have k: "dget small_document ''inverters'' = Some (PyList [small_inverter])" "dget small_document ''mqtt'' = Some (PyDict small_mqtt)"
    "dget small_document ''polling'' = None" "dget small_document ''logging'' = None" "dget small_document ''bms'' = None"
    by (simp_all add: small_document_def)
  show ?thesis
    by (simp add: load_config_def k i m config_section_def default_loads del: load_inverters.simps)
qed

theorem config_defaults_agree_witness:
  "\<exists>c. load_config (\<lambda>_. ''?'') (\<lambda>_. TextIs ''secret'') (PyDict small_document) = Inr c
     \<and> map li_slave (bc_inverters c) = [10] \<and> retry_attempts (bc_polling c) = 3 \<and> \<not> b_enabled (bc_bms c)"
proof -
  have k: "dget small_document ''polling'' = None" "dget small_document ''logging'' = None" "dget small_document ''bms'' = None"
    by (simp_all add: small_document_def)
  obtain c where c: "load_config (\<lambda>_. ''?'') (\<lambda>_. TextIs ''secret'') (PyDict small_document) = Inr c" "map li_slave (bc_inverters c) = [10]"
    by (rule exE [OF small_loads]) (elim conjE, rule that)
  show ?thesis
    using config_defaults_agree [OF c(1) k] c by (auto simp: default_polling_def default_bms_def)
qed

text \<open>Names are not checked: the loader accepts two inverters of one name, although the daemon keys
  its ports, its failure counts and its running polls by name. The document below is accepted, and
  both inverters are kept.\<close>

theorem config_names_unchecked:
  "\<exists>doc c. load_config (\<lambda>_. ''?'') (\<lambda>_. TextIs ''secret'') doc = Inr c \<and> map li_name (bc_inverters c) = [PyStr ''inv1'', PyStr ''inv1'']"
  using demo_loads by (intro exI [of _ "config_document ''pw'' demo_config"] exI [of _ demo_config]) (simp add: demo_config_def)

text \<open>The list of inverters in full: it is accepted exactly when every entry is a mapping with a slave
  address from 1 to 247, as an integer or as text in any base, a name and a port, and no address
  comes twice; the result has the entries in order.\<close>

theorem inverters_exact:
  "load_inverters items {} = Inr xs \<longleftrightarrow> list_all2 entry_gives xs items \<and> distinct (map li_slave xs)"
  by (simp add: load_inverters_Inr)

end
