(* ===== verification/Cleanup_Tool.thy ===== *)
theory Cleanup_Tool
  imports Mqtt_Publisher Bms_Discovery Py_Parse
begin

text \<open>
  \<open>tools/cleanup_orphan_discoveries.py\<close>: which retained discovery messages the tool takes for leftovers
  of earlier deployments, and what it clears. A file and a payload are their decoded content; the
  specification is a set of unique ids per group; the broker is the list of messages it delivers and
  the outcome of every publish. The result of a run is the exit code with the clearing publishes.
\<close>

section \<open>The specification\<close>

record canonical_spec =
  cs_aggregates :: "string set"
  cs_per_inverter :: "string set"
  cs_meta :: "string set"
  cs_binary_sensors :: "string set"

definition all_sensor_unique_ids :: "canonical_spec \<Rightarrow> string set" where
  "all_sensor_unique_ids spec = cs_aggregates spec \<union> cs_per_inverter spec \<union> cs_meta spec"

datatype spec_error = SpecOsError | SpecUnicodeError | SpecTypeError

text \<open>\<open>data.get(k) or []\<close>, and what iterating over it gives.\<close>

definition or_empty :: "(string, pyval) dict \<Rightarrow> string \<Rightarrow> pyval" where
  "or_empty d k = (let v = dget_or d k PyNone in if py_bool v then v else PyList [])"

fun spec_items :: "pyval \<Rightarrow> spec_error + pyval list" where
  "spec_items (PyList xs) = Inr xs"
| "spec_items (PyDict d) = Inr (map (\<lambda>(k, _). PyStr k) d)"
| "spec_items (PyStr s) = Inr (map (\<lambda>c. PyStr [c]) s)"
| "spec_items _ = Inl SpecTypeError"

fun unhashable :: "pyval \<Rightarrow> bool" where
  "unhashable (PyList _) = True"
| "unhashable (PyDict _) = True"
| "unhashable _ = False"

text \<open>\<open>set(...)\<close>: the texts among the elements; a unique id is never equal to the others.\<close>

definition spec_set :: "pyval \<Rightarrow> spec_error + string set" where
  "spec_set v =
     bindE (spec_items v) (\<lambda>xs.
       if list_ex unhashable xs then Inl SpecTypeError
       else Inr (set (List.map_filter (\<lambda>x. case x of PyStr s \<Rightarrow> Some s | _ \<Rightarrow> None) xs)))"

definition empty_spec :: canonical_spec where
  "empty_spec = \<lparr>cs_aggregates = {}, cs_per_inverter = {}, cs_meta = {}, cs_binary_sensors = {}\<rparr>"

definition load_canonical_spec :: "(pyval \<Rightarrow> string) \<Rightarrow> json_file \<Rightarrow> nat \<Rightarrow> spec_error + canonical_spec" where
  "load_canonical_spec repr file n =
     (case file of
        NoFile \<Rightarrow> Inr empty_spec
      | OsErrorOnRead \<Rightarrow> Inl SpecOsError
      | NotUtf8 \<Rightarrow> Inl SpecUnicodeError
      | BadJson \<Rightarrow> Inr empty_spec
      | JsonDoc (PyDict data) \<Rightarrow>
          bindE (spec_set (or_empty data ''aggregates'')) (\<lambda>aggregates.
          bindE (spec_set (or_empty data ''meta'')) (\<lambda>meta.
          bindE (spec_set (or_empty data ''binary_sensors'')) (\<lambda>binary_sensors.
          bindE (if n = 0 then Inr [] else spec_items (or_empty data ''per_inverter_suffixes'')) (\<lambda>suffixes.
          Inr \<lparr>cs_aggregates = aggregates,
            cs_per_inverter = (\<Union>i \<in> set [1..<Suc n]. set (map (\<lambda>suffix. ikey i (py_str repr suffix)) suffixes)),
            cs_meta = meta, cs_binary_sensors = binary_sensors\<rparr>))))
      | JsonDoc _ \<Rightarrow> Inr empty_spec)"

section \<open>Categories\<close>

record discovery =
  ds_component :: string
  ds_topic :: string
  ds_object_id :: string
  ds_unique_id :: string
  ds_state_topic :: string
  ds_identifiers :: "string list"

datatype category = CANONICAL | ORPHAN_V1 | ORPHAN_COLLISION | SA_STATIC | UNRELATED

definition ORPHAN_V1_PREFIX :: string where
  "ORPHAN_V1_PREFIX = ''gadi_inverters_''"

definition SA_TOPIC_PREFIX :: string where
  "SA_TOPIC_PREFIX = ''solar_assistant''"

text \<open>What the collision pattern matches at the start of a text: one or more groups of an underscore and
  digits, up to the end, or up to a newline that is the end. \<open>digits\<close>: how many were read in this group.\<close>

fun collision_tail :: "nat \<Rightarrow> string \<Rightarrow> bool" where
  "collision_tail digits [] = (0 < digits)"
| "collision_tail digits (c # cs) =
     (if is_digit c then collision_tail (Suc digits) cs
      else if 0 < digits \<and> c = CHR ''_'' then collision_tail 0 cs
      else 0 < digits \<and> c = CHR 0x0A \<and> cs = [])"

fun collision_at :: "string \<Rightarrow> bool" where
  "collision_at (c # cs) = (c = CHR ''_'' \<and> collision_tail 0 cs)"
| "collision_at [] = False"

text \<open>\<open>search\<close> and \<open>uid[:m.start()]\<close>.\<close>

fun strip_collision_suffix :: "string \<Rightarrow> string \<times> bool" where
  "strip_collision_suffix [] = ([], False)"
| "strip_collision_suffix (c # cs) =
     (if collision_at (c # cs) then ([], True)
      else (case strip_collision_suffix cs of (base, had) \<Rightarrow> (c # base, had)))"

text \<open>A numbered prefix: digits, at least one, then an underscore.\<close>

definition numbered :: "string \<Rightarrow> string \<Rightarrow> bool" where
  "numbered p s \<longleftrightarrow> starts_with p s \<and>
     (let r = drop (length p) s; ds = takeWhile is_digit r in ds \<noteq> [] \<and> take 1 (drop (length ds) r) = ''_'')"

definition sa_unique_id :: "string \<Rightarrow> bool" where
  "sa_unique_id s \<longleftrightarrow> starts_with ''total_'' s \<or> numbered ''inverter_'' s \<or> numbered ''battery_'' s
     \<or> numbered ''bms_'' s \<or> starts_with ''meta_'' s"

definition looks_sa_static :: "discovery \<Rightarrow> bool" where
  "looks_sa_static d =
     (if \<not> sa_unique_id (ds_unique_id d) then False
      else if starts_with (SA_TOPIC_PREFIX @ ''/'') (ds_state_topic d) then True
      else ''sa_inverter'' \<in> set (ds_identifiers d))"

definition categorize :: "discovery \<Rightarrow> canonical_spec \<Rightarrow> category" where
  "categorize d spec =
     (let uid = ds_unique_id d;
          ids = (if ds_component d = ''binary_sensor'' then cs_binary_sensors spec else all_sensor_unique_ids spec)
      in if uid \<in> ids then CANONICAL
         else if starts_with ORPHAN_V1_PREFIX uid then ORPHAN_V1
         else
           (case strip_collision_suffix uid of
              (base, had_suffix) \<Rightarrow>
                if had_suffix \<and> base \<noteq> uid \<and> base \<in> ids then ORPHAN_COLLISION
                else if looks_sa_static d then SA_STATIC
                else UNRELATED))"

section \<open>Parsing a payload\<close>

datatype retained_payload = EmptyPayload | PayloadNotUtf8 | PayloadNotJson | PayloadJson pyval

fun split_slash :: "string \<Rightarrow> string list" where
  "split_slash [] = [[]]"
| "split_slash (c # cs) =
     (if c = CHR ''/'' then [] # split_slash cs
      else (case split_slash cs of [] \<Rightarrow> [[c]] | p # ps \<Rightarrow> (c # p) # ps))"

text \<open>\<open>raw.get(a) or raw.get(b) or ""\<close>.\<close>

definition first_of :: "(string, pyval) dict \<Rightarrow> string \<Rightarrow> string \<Rightarrow> pyval" where
  "first_of raw a b =
     (if py_bool (dget_or raw a PyNone) then dget_or raw a PyNone
      else if py_bool (dget_or raw b PyNone) then dget_or raw b PyNone
      else PyStr '''')"

definition payload_identifiers :: "(pyval \<Rightarrow> string) \<Rightarrow> (string, pyval) dict \<Rightarrow> string list" where
  "payload_identifiers repr raw =
     (case dget_or raw ''device'' PyNone of
        PyDict device \<Rightarrow>
          (case dget_or device ''identifiers'' PyNone of
             PyStr s \<Rightarrow> [s]
           | PyList xs \<Rightarrow> map (py_str repr) xs
           | _ \<Rightarrow> [])
      | _ \<Rightarrow> [])"

definition parse_discovery :: "(pyval \<Rightarrow> string) \<Rightarrow> string \<Rightarrow> string \<Rightarrow> retained_payload \<Rightarrow> discovery option" where
  "parse_discovery repr component path payload =
     (case payload of
        EmptyPayload \<Rightarrow> None
      | PayloadNotUtf8 \<Rightarrow> None
      | _ \<Rightarrow>
          let raw = (case payload of PayloadJson (PyDict kv) \<Rightarrow> kv | _ \<Rightarrow> []);
              parts = split_slash path
          in Some \<lparr>ds_component = component, ds_topic = path,
               ds_object_id = (if 4 \<le> length parts \<and> last parts = ''config'' then parts ! (length parts - 2) else ''''),
               ds_unique_id = py_str repr (first_of raw ''unique_id'' ''uniq_id''),
               ds_state_topic = py_str repr (first_of raw ''state_topic'' ''stat_t''),
               ds_identifiers = payload_identifiers repr raw\<rparr>)"

section \<open>Capturing\<close>

record broker_msg =
  bm_topic :: string
  bm_payload :: retained_payload
  bm_retain :: bool

definition on_message :: "broker_msg \<Rightarrow> (string, string \<times> retained_payload) dict \<Rightarrow> (string, string \<times> retained_payload) dict" where
  "on_message msg captured =
     (if \<not> bm_retain msg then captured
      else
        let parts = split_slash (bm_topic msg) in
        if length parts < 4 then captured
        else if parts ! 1 \<notin> {''sensor'', ''binary_sensor''} then captured
        else dset (bm_topic msg) (parts ! 1, bm_payload msg) captured)"

definition capture_retained :: "(pyval \<Rightarrow> string) \<Rightarrow> broker_msg list \<Rightarrow> discovery list" where
  "capture_retained repr msgs =
     List.map_filter (\<lambda>(path, component, payload). parse_discovery repr component path payload)
       (fold on_message msgs [])"

section \<open>Clearing\<close>

definition build_report :: "discovery list \<Rightarrow> canonical_spec \<Rightarrow> category \<Rightarrow> discovery list" where
  "build_report ds spec cat = filter (\<lambda>d. categorize d spec = cat) ds"

fun dedupe :: "string set \<Rightarrow> string list \<Rightarrow> string list" where
  "dedupe seen [] = []"
| "dedupe seen (t # ts) = (if t \<in> seen then dedupe seen ts else t # dedupe (insert t seen) ts)"

definition collect_topics_to_clean :: "(category \<Rightarrow> discovery list) \<Rightarrow> bool \<Rightarrow> string list" where
  "collect_topics_to_clean buckets include_sa_static =
     dedupe {} (map ds_topic (buckets ORPHAN_V1) @ map ds_topic (buckets ORPHAN_COLLISION)
       @ (if include_sa_static then map ds_topic (buckets SA_STATIC) else []))"

text \<open>One publish of the empty retained payload per topic, with whether it was acknowledged in time.\<close>

definition clear_retained :: "(string \<Rightarrow> bool) \<Rightarrow> string list \<Rightarrow> message list \<times> nat" where
  "clear_retained acked topics =
     (map (\<lambda>t. \<lparr>topic = t, content = Text '''', msg_qos = 1, retain = True\<rparr>) topics,
      length (filter acked topics))"

record cleanup_args =
  ca_n_inverters :: nat
  ca_include_sa_static :: bool
  ca_apply :: bool

record cleanup_in =
  ci_spec :: json_file
  ci_captured :: "broker_msg list option"
  ci_connects :: bool
  ci_acked :: "string \<Rightarrow> bool"

text \<open>The exit code, with the messages published; an exception that is not caught is the left side.\<close>

definition cleanup_main :: "(pyval \<Rightarrow> string) \<Rightarrow> cleanup_args \<Rightarrow> cleanup_in \<Rightarrow> spec_error + nat \<times> message list" where
  "cleanup_main repr args inp =
     bindE (load_canonical_spec repr (ci_spec inp) (ca_n_inverters args)) (\<lambda>spec.
       if all_sensor_unique_ids spec = {} \<and> cs_binary_sensors spec = {} then Inr (2, [])
       else
         (case ci_captured inp of
            None \<Rightarrow> Inr (3, [])
          | Some msgs \<Rightarrow>
              let topics = collect_topics_to_clean (build_report (capture_retained repr msgs) spec) (ca_include_sa_static args)
              in if \<not> ca_apply args then Inr (0, [])
                 else if topics = [] then Inr (0, [])
                 else if \<not> ci_connects inp then Inr (4, [])
                 else
                   (case clear_retained (ci_acked inp) topics of
                      (ms, acked) \<Rightarrow> Inr (if acked = length topics then 0 else 5, ms))))"

end
