(* ===== verification/Cleanup_Runs.thy ===== *)
theory Cleanup_Runs
  imports Cleanup_Tool
begin

text \<open>
  Runs of the cleanup tool: what a run publishes, exactly; that it spares everything the bridge itself
  keeps announced when the specification is the repository's own; and what it does to a bridge with
  more inverters than it was told of.
\<close>

section \<open>The specification of the repository\<close>

text \<open>\<open>docs/MQTT_CANONICAL.json\<close>, as decoded.\<close>

definition canonical_document :: pyval where
  "canonical_document = PyDict
     [(''version'', PyInt 3),
      (''aggregates'', PyList (map PyStr
        [''total_battery_state_of_charge'', ''total_battery_voltage'', ''total_battery_power'', ''total_bus_voltage'',
         ''total_load_power'', ''total_pv_power'', ''total_grid_power'', ''total_grid_voltage'', ''total_grid_frequency'',
         ''total_mode'', ''total_pv_energy_today'', ''total_load_energy_today'', ''total_battery_charge_ah_today'',
         ''total_battery_discharge_ah_today'', ''total_battery_energy_in'', ''total_battery_energy_out'', ''total_pv_energy'',
         ''total_load_energy'', ''total_grid_energy_in'', ''total_grid_energy_out''])),
      (''per_inverter_suffixes'', PyList (map PyStr
        [''battery_current'', ''battery_voltage'', ''bus_voltage'', ''load_power'', ''load_power_l1'', ''load_power_l2'',
         ''load_apparent_power'', ''load_apparent_power_l1'', ''load_apparent_power_l2'', ''load_percentage'',
         ''ac_output_voltage'', ''ac_output_frequency'', ''grid_voltage'', ''grid_power'', ''grid_frequency'', ''temperature'',
         ''temperature_dc_dc'', ''temperature_dc_ac'', ''temperature_transformer'', ''pv_voltage_mppt1'', ''pv_voltage_mppt2'',
         ''pv_current'', ''pv_current_mppt1'', ''pv_current_mppt2'', ''pv_power'', ''pv_power_mppt1'', ''pv_power_mppt2'',
         ''device_mode'', ''charge_state'', ''pv_energy_today'', ''load_energy_today'', ''battery_charge_ah_today'',
         ''battery_discharge_ah_today'', ''pv_energy_yesterday'', ''pv_energy_2_days_ago'', ''pv_energy_3_days_ago'',
         ''pv_energy_4_days_ago'', ''pv_energy_5_days_ago'', ''pv_energy_6_days_ago'', ''pv_energy_7_days_ago'',
         ''firmware_version'', ''hardware_version'', ''status'', ''fault_bits''])),
      (''meta'', PyList (map PyStr
        [''meta_poll_duration_ms'', ''meta_poll_duration_per_inverter_ms'', ''meta_crc_fails_total'', ''meta_uptime_s''])),
      (''binary_sensors'', PyList [PyStr ''inverter_bridge_online''])]"

text \<open>It lists what the publisher announces.\<close>

lemma canonical_lists: "canonical_document = PyDict
   [(''version'', PyInt 3),
    (''aggregates'', PyList (map PyStr (map key_to_unique_id (map fst AGGREGATE_SENSORS @ map fst ENERGY_SENSORS)))),
    (''per_inverter_suffixes'', PyList (map PyStr (map fst PER_INVERTER_SENSORS))),
    (''meta'', PyList (map PyStr (map key_to_unique_id (map fst META_SENSORS)))),
    (''binary_sensors'', PyList [PyStr ''inverter_bridge_online''])]"
proof -
  have "map key_to_unique_id (map fst AGGREGATE_SENSORS @ map fst ENERGY_SENSORS) =
      [''total_battery_state_of_charge'', ''total_battery_voltage'', ''total_battery_power'', ''total_bus_voltage'',
         ''total_load_power'', ''total_pv_power'', ''total_grid_power'', ''total_grid_voltage'', ''total_grid_frequency'',
         ''total_mode'', ''total_pv_energy_today'', ''total_load_energy_today'', ''total_battery_charge_ah_today'',
         ''total_battery_discharge_ah_today'', ''total_battery_energy_in'', ''total_battery_energy_out'', ''total_pv_energy'',
         ''total_load_energy'', ''total_grid_energy_in'', ''total_grid_energy_out'']"
    by code_simp
  moreover have "map key_to_unique_id (map fst META_SENSORS) =
      [''meta_poll_duration_ms'', ''meta_poll_duration_per_inverter_ms'', ''meta_crc_fails_total'', ''meta_uptime_s'']"
    by code_simp
  ultimately show ?thesis
    by (simp only: canonical_document_def) (simp add: PER_INVERTER_SENSORS_def)
qed

definition canonical_spec_of :: "nat \<Rightarrow> canonical_spec" where
  "canonical_spec_of n =
     \<lparr>cs_aggregates = key_to_unique_id ` (fst ` set (AGGREGATE_SENSORS @ ENERGY_SENSORS)),
      cs_per_inverter = (\<Union>i \<in> set [1..<Suc n]. ikey i ` (fst ` set PER_INVERTER_SENSORS)),
      cs_meta = key_to_unique_id ` (fst ` set META_SENSORS), cs_binary_sensors = {''inverter_bridge_online''}\<rparr>"

lemma spec_set_texts: "spec_set (PyList (map PyStr ss)) = Inr (set ss)"
proof -
  have "\<not> list_ex unhashable (map PyStr ss)" "List.map_filter (\<lambda>x. case x of PyStr s \<Rightarrow> Some s | _ \<Rightarrow> None) (map PyStr ss) = ss"
    by (induction ss) (simp_all add: List.map_filter_simps)
  then show ?thesis
    by (simp add: spec_set_def)
qed

lemma load_repository_spec: "load_canonical_spec repr (JsonDoc canonical_document) n = Inr (canonical_spec_of n)"
proof -
  define A where "A = map key_to_unique_id (map fst AGGREGATE_SENSORS @ map fst ENERGY_SENSORS)"
  define P where "P = map fst PER_INVERTER_SENSORS"
  define M where "M = map key_to_unique_id (map fst META_SENSORS)"
  have ne: "A \<noteq> []" "P \<noteq> []" "M \<noteq> []"
    by (simp_all add: A_def P_def M_def AGGREGATE_SENSORS_def PER_INVERTER_SENSORS_def META_SENSORS_def)
  have d: "canonical_document = PyDict [(''version'', PyInt 3), (''aggregates'', PyList (map PyStr A)),
    (''per_inverter_suffixes'', PyList (map PyStr P)), (''meta'', PyList (map PyStr M)),
    (''binary_sensors'', PyList (map PyStr [''inverter_bridge_online'']))]"
    unfolding canonical_lists A_def P_def M_def by simp
  have g: "or_empty kv k = PyList (map PyStr ss)" if "dget kv k = Some (PyList (map PyStr ss))" for kv k ss
    using that by (simp add: or_empty_def dget_or_def Let_def)
  have "load_canonical_spec repr (JsonDoc canonical_document) n = Inr \<lparr>cs_aggregates = set A,
      cs_per_inverter = (\<Union>i \<in> set [1..<Suc n]. set (map (\<lambda>suffix. ikey i (py_str repr suffix)) (if n = 0 then [] else map PyStr P))),
      cs_meta = set M, cs_binary_sensors = set [''inverter_bridge_online'']\<rparr>"
    unfolding d load_canonical_spec_def json_file.case pyval.case
    by (simp add: g spec_set_texts image_image del: upt_Suc list.map)
  moreover have "(\<Union>i \<in> set [1..<Suc n]. set (map (\<lambda>suffix. ikey i (py_str repr suffix)) (if n = 0 then [] else map PyStr P))) =
      (\<Union>i \<in> set [1..<Suc n]. ikey i ` (fst ` set PER_INVERTER_SENSORS))"
    by (cases "n = 0") (simp_all add: P_def image_image del: upt_Suc)
  moreover have "set A = key_to_unique_id ` (fst ` set (AGGREGATE_SENSORS @ ENERGY_SENSORS))" "set M = key_to_unique_id ` (fst ` set META_SENSORS)"
    by (simp_all add: A_def M_def image_Un image_image)
  ultimately show ?thesis
    by (simp only: canonical_spec_of_def) simp
qed

section \<open>What is captured and cleared\<close>

lemma captured_entries:
  assumes "(t, cp, pl) \<in> set (fold on_message msgs [])"
  shows "cp = split_slash t ! 1 \<and> cp \<in> {''sensor'', ''binary_sensor''} \<and> (\<exists>b \<in> set msgs. bm_topic b = t \<and> bm_payload b = pl)"
proof -
  let ?ok = "\<lambda>acc ms. \<forall>(t, cp, pl) \<in> set acc. cp = split_slash t ! 1 \<and> cp \<in> {''sensor'', ''binary_sensor''}
     \<and> (\<exists>b \<in> set ms. bm_topic b = t \<and> bm_payload b = pl)"
  have step: "?ok (on_message b acc) (ms @ [b])" if "?ok acc ms" for b acc ms
  proof -
    have sub: "set (dset k v d) \<subseteq> insert (k, v) (set d)" for k :: string and v :: "string \<times> retained_payload" and d
      by (induction d) auto
    show ?thesis
      using that sub unfolding on_message_def Let_def by (fastforce split: if_splits)
  qed
  have "?ok (fold on_message ms acc) (pre @ ms)" if "?ok acc pre" for ms acc pre
    using that
  proof (induction ms arbitrary: acc pre)
    case (Cons b ms)
    then show ?case
      using Cons.IH [OF step [OF Cons.prems]] by simp
  qed simp
  from this [of "[]" "[]" msgs] show ?thesis
    using assms by fastforce
qed

lemma captured_distinct: "distinct (map fst (fold on_message msgs []))"
proof -
  have "distinct (map fst acc) \<Longrightarrow> distinct (map fst (fold on_message msgs acc))" for acc
    by (induction msgs arbitrary: acc) (simp_all add: on_message_def Let_def distinct_update)
  then show ?thesis
    by simp
qed

lemma capture_mem:
  "d \<in> set (capture_retained repr msgs) \<longleftrightarrow>
     (\<exists>t cp pl. (t, cp, pl) \<in> set (fold on_message msgs []) \<and> parse_discovery repr cp t pl = Some d)"
  unfolding capture_retained_def by (force simp: List.map_filter_def)

lemma parse_topic: "parse_discovery repr cp t pl = Some d \<Longrightarrow> ds_topic d = t \<and> ds_component d = cp"
  by (auto simp: parse_discovery_def Let_def split: retained_payload.splits)

lemma dedupe_props: "set (dedupe seen ts) = set ts - seen" "distinct (dedupe seen ts)"
  by (induction ts arbitrary: seen) auto

definition cleaned :: "bool \<Rightarrow> category \<Rightarrow> bool" where
  "cleaned include_sa_static cat \<longleftrightarrow> cat = ORPHAN_V1 \<or> cat = ORPHAN_COLLISION \<or> include_sa_static \<and> cat = SA_STATIC"

lemma collected: "set (collect_topics_to_clean (build_report ds spec) inc) = ds_topic ` {d \<in> set ds. cleaned inc (categorize d spec)}"
  by (auto simp: collect_topics_to_clean_def dedupe_props build_report_def cleaned_def)

lemma cleanup_run:
  "case cleanup_main repr args inp of
     Inl e \<Rightarrow> load_canonical_spec repr (ci_spec inp) (ca_n_inverters args) = Inl e
   | Inr (code, ms) \<Rightarrow>
       (if ms = [] then code \<in> {0, 2, 3, 4}
        else \<exists>spec msgs. load_canonical_spec repr (ci_spec inp) (ca_n_inverters args) = Inr spec
          \<and> spec \<noteq> empty_spec \<and> ci_captured inp = Some msgs \<and> ca_apply args
          \<and> distinct (map topic ms) \<and> list_all (\<lambda>m. retain m \<and> content m = Text '''') ms
          \<and> topic ` set ms = ds_topic ` {d \<in> set (capture_retained repr msgs).
               cleaned (ca_include_sa_static args) (categorize d spec)}
          \<and> (code = 0 \<longleftrightarrow> list_all (\<lambda>m. ci_acked inp (topic m)) ms) \<and> code \<in> {0, 5})"
proof (cases "load_canonical_spec repr (ci_spec inp) (ca_n_inverters args)")
  case (Inl e)
  then show ?thesis
    by (simp add: cleanup_main_def)
next
  case (Inr spec)
  show ?thesis
  proof (cases "all_sensor_unique_ids spec = {} \<and> cs_binary_sensors spec = {} \<or> ci_captured inp = None \<or> \<not> ca_apply args \<or> \<not> ci_connects inp")
    case True
    then show ?thesis
      by (auto simp: cleanup_main_def Inr Let_def split: option.split)
  next
    case False
    then obtain msgs where m: "ci_captured inp = Some msgs"
      by auto
    define ts where "ts = collect_topics_to_clean (build_report (capture_retained repr msgs) spec) (ca_include_sa_static args)"
    have ts: "distinct ts" "set ts = ds_topic ` {d \<in> set (capture_retained repr msgs). cleaned (ca_include_sa_static args) (categorize d spec)}"
      by (simp_all add: ts_def collected) (simp add: collect_topics_to_clean_def dedupe_props)
    have e: "spec \<noteq> empty_spec"
      using False by (auto simp: empty_spec_def all_sensor_unique_ids_def)
    have f: "length (filter (ci_acked inp) ts) = length ts \<longleftrightarrow> (\<forall>t \<in> set ts. ci_acked inp t)"
      by (induction ts) (auto dest: sym simp: le_imp_less_Suc less_not_refl2 intro: length_filter_le)
    have "cleanup_main repr args inp = (if ts = [] then Inr (0, []) else
        Inr (if length (filter (ci_acked inp) ts) = length ts then 0 else 5,
          map (\<lambda>t. \<lparr>topic = t, content = Text '''', msg_qos = 1, retain = True\<rparr>) ts))"
      using False by (simp add: cleanup_main_def Inr m Let_def ts_def clear_retained_def)
    then show ?thesis
      using False e ts f Inr m by (auto simp: comp_def image_image list_all_iff)
  qed
qed

lemma cleared_topics:
  assumes "cleanup_main repr args inp = Inr (code, ms)" and "ms \<noteq> []"
  shows "\<exists>spec msgs. load_canonical_spec repr (ci_spec inp) (ca_n_inverters args) = Inr spec \<and> ci_captured inp = Some msgs
    \<and> topic ` set ms = ds_topic ` {d \<in> set (capture_retained repr msgs). cleaned (ca_include_sa_static args) (categorize d spec)}"
  using cleanup_run [where repr = repr and args = args and inp = inp] assms by auto


section \<open>The bridge's own discovery\<close>

lemma split_slash_part: "CHR ''/'' \<notin> set a \<Longrightarrow> split_slash (a @ CHR ''/'' # b) = a # split_slash b"
  by (induction a) auto

lemma split_slash_ne: "split_slash s \<noteq> []"
  by (induction s) (auto split: list.split)

lemma second_part:
  "split_slash (''homeassistant/sensor/'' @ r) ! 1 = ''sensor''"
  "split_slash (''homeassistant/binary_sensor/'' @ r) ! 1 = ''binary_sensor''"
  using split_slash_part [of "''homeassistant''" "''sensor/'' @ r"] split_slash_part [of "''sensor''" r]
    split_slash_part [of "''homeassistant''" "''binary_sensor/'' @ r"] split_slash_part [of "''binary_sensor''" r]
  by simp_all

lemma announced_canonical:
  assumes "k \<in> set (announced_keys n)" and "n \<le> m"
  shows "key_to_unique_id k \<in> all_sensor_unique_ids (canonical_spec_of m)"
proof -
  have i: "key_to_unique_id (ikey i s) = ikey i s" for i s
    by (simp add: key_to_unique_id_def ikey_def starts_with_def)
  consider "k \<in> fst ` set (AGGREGATE_SENSORS @ ENERGY_SENSORS)" | "k \<in> fst ` set META_SENSORS"
    | i s where "i \<in> set [1..<Suc n]" "s \<in> fst ` set PER_INVERTER_SENSORS" "k = ikey i s"
    using assms(1) unfolding announced_keys_eq set_append set_map image_Un Un_iff inverter_keys_mem by blast
  then show ?thesis
  proof cases
    case 3
    then have "i \<in> set [1..<Suc m]"
      using assms(2) by auto
    then show ?thesis
      using 3(2) unfolding 3(3) i all_sensor_unique_ids_def canonical_spec_of_def canonical_spec.simps by blast
  qed (auto simp: all_sensor_unique_ids_def canonical_spec_of_def simp del: upt_Suc)
qed

text \<open>What the discovery of a key says.\<close>

lemma announced_category:
  assumes "k \<in> set (announced_keys n)" and "n \<le> m"
    and "parse_discovery repr ''sensor'' t (PayloadJson (discovery_payload cfg k meta name force)) = Some d"
  shows "categorize d (canonical_spec_of m) = CANONICAL"
proof -
  have u: "ds_unique_id d = key_to_unique_id k" "ds_component d = ''sensor''"
  proof -
    have ne: "key_to_unique_id k \<noteq> []"
      by (cases k rule: unique_id_cases) simp_all
    obtain kv where kv: "discovery_payload cfg k meta name force = PyDict kv" "dget kv ''unique_id'' = Some (PyStr (key_to_unique_id k))"
      by (simp add: discovery_payload_def Let_def split_beta)
    then show "ds_unique_id d = key_to_unique_id k" "ds_component d = ''sensor''"
      using assms(3) ne by (auto simp: parse_discovery_def Let_def first_of_def dget_or_def)
  qed
  have "key_to_unique_id k \<in> all_sensor_unique_ids (canonical_spec_of m)"
    using assms(1,2) by (rule announced_canonical)
  then show ?thesis
    by (simp add: categorize_def u Let_def)
qed

lemma online_category:
  assumes "Publish m \<in> set (publish_binary_sensor_discovery cfg)" and "content m = Json v"
    and "parse_discovery repr ''binary_sensor'' t (PayloadJson v) = Some d"
  shows "categorize d (canonical_spec_of n) = CANONICAL"
proof -
  have "ds_unique_id d = ''inverter_bridge_online''" "ds_component d = ''binary_sensor''"
    using assms by (auto simp: publish_binary_sensor_discovery_def parse_discovery_def Let_def first_of_def dget_or_def)
  then show ?thesis
    by (simp add: categorize_def Let_def canonical_spec_of_def)
qed

lemma published_source: "m \<in> set (published (concat (map F xs))) \<Longrightarrow> \<exists>x \<in> set xs. m \<in> set (published (F x))"
  by (induction xs) auto

lemma discovery_messages:
  assumes "m \<in> set (published (publish_discovery p))"
  shows "(\<exists>k meta name. k \<in> set (announced_keys (n_inverters p)) \<and> topic m = config_topic (pub_cfg p) k
       \<and> content m = Json (discovery_payload (pub_cfg p) k meta name None))
    \<or> Publish m \<in> set (publish_binary_sensor_discovery (pub_cfg p))"
proof -
  have one: "\<exists>key meta. (key, meta) \<in> set kvs \<and> topic m = config_topic cfg (f key) \<and> content m = Json (discovery_payload cfg (f key) meta (g key) None)"
    if m: "m \<in> set (published (concat (map (\<lambda>(key, meta). publish_discovery_one cfg (f key) meta (g key)) kvs)))" for cfg f g kvs
  proof -
    obtain x where x: "x \<in> set kvs" "m \<in> set (published ((\<lambda>(key, meta). publish_discovery_one cfg (f key) meta (g key)) x))"
      using published_source [OF m] by blast
    obtain key meta where k: "x = (key, meta)"
      by (cases x)
    show ?thesis
      using x unfolding k by (intro exI [of _ key] exI [of _ meta]) (simp add: publish_discovery_one_def)
  qed
  from assms consider "m \<in> set (published (concat (map (\<lambda>(key, meta). publish_discovery_one (pub_cfg p) key meta (capitalize (spaced key))) AGGREGATE_SENSORS)))"
    | "m \<in> set (published (concat (map (\<lambda>(key, meta). publish_discovery_one (pub_cfg p) key meta (capitalize (spaced key))) ENERGY_SENSORS)))"
    | "m \<in> set (published (concat (map (\<lambda>i. concat (map (\<lambda>(sub_key, meta).
           publish_discovery_one (pub_cfg p) (ikey i sub_key) meta (''Inverter '' @ show_nat i @ '' - '' @ capitalize (spaced sub_key)))
           PER_INVERTER_SENSORS)) [1..<Suc (n_inverters p)])))"
    | "m \<in> set (published (concat (map (\<lambda>(key, meta). publish_discovery_one (pub_cfg p) key meta (''Meta '' @ spaced (drop 6 key))) META_SENSORS)))"
    | "m \<in> set (published (publish_binary_sensor_discovery (pub_cfg p)))"
    unfolding publish_discovery_def Let_def published_append set_append by blast
  then show ?thesis
  proof cases
    case 1
    from one [of "pub_cfg p" "\<lambda>k. k" "\<lambda>k. capitalize (spaced k)", OF 1] show ?thesis
      unfolding announced_keys_eq by force
  next
    case 2
    from one [of "pub_cfg p" "\<lambda>k. k" "\<lambda>k. capitalize (spaced k)", OF 2] show ?thesis
      unfolding announced_keys_eq by force
  next
    case 3
    from published_source [OF 3] obtain i where i: "i \<in> set [1..<Suc (n_inverters p)]"
        "m \<in> set (published (concat (map (\<lambda>(sub_key, meta). publish_discovery_one (pub_cfg p) (ikey i sub_key) meta
           (''Inverter '' @ show_nat i @ '' - '' @ capitalize (spaced sub_key))) PER_INVERTER_SENSORS)))"
      by blast
    from one [of "pub_cfg p" "ikey i" "\<lambda>sub_key. ''Inverter '' @ show_nat i @ '' - '' @ capitalize (spaced sub_key)", OF i(2)]
    obtain key meta where k: "(key, meta) \<in> set PER_INVERTER_SENSORS" "topic m = config_topic (pub_cfg p) (ikey i key)"
      "content m = Json (discovery_payload (pub_cfg p) (ikey i key) meta (''Inverter '' @ show_nat i @ '' - '' @ capitalize (spaced key)) None)"
      by blast
    have "ikey i key \<in> set (announced_keys (n_inverters p))"
      using i(1) k(1) unfolding announced_keys_eq set_append Un_iff inverter_keys_mem by force
    then show ?thesis
      using k(2,3) by blast
  next
    case 4
    from one [of "pub_cfg p" "\<lambda>k. k" "\<lambda>k. ''Meta '' @ spaced (drop 6 k)", OF 4] show ?thesis
      unfolding announced_keys_eq by force
  next
    case 5
    then show ?thesis
      by (simp add: publish_binary_sensor_discovery_def Let_def)
  qed
qed

section \<open>The battery entities\<close>

lemma strip_prefix: "\<exists>t. uid = fst (strip_collision_suffix uid) @ t"
proof (induction uid)
  case (Cons c cs)
  then show ?case
    by (cases "strip_collision_suffix cs") auto
qed simp

lemma canonical_heads: "x \<in> all_sensor_unique_ids (canonical_spec_of m) \<union> cs_binary_sensors (canonical_spec_of m) \<Longrightarrow>
    x \<noteq> [] \<and> hd x \<in> {CHR ''t'', CHR ''i'', CHR ''m''}"
proof -
  have k: "key_to_unique_id k \<noteq> [] \<and> hd (key_to_unique_id k) \<in> {CHR ''t'', CHR ''i'', CHR ''m''}" for k
    by (cases k rule: unique_id_cases) simp_all
  have i: "ikey i k \<noteq> [] \<and> hd (ikey i k) \<in> {CHR ''t'', CHR ''i'', CHR ''m''}" for i k
    by (simp add: ikey_def)
  show "x \<in> all_sensor_unique_ids (canonical_spec_of m) \<union> cs_binary_sensors (canonical_spec_of m) \<Longrightarrow>
      x \<noteq> [] \<and> hd x \<in> {CHR ''t'', CHR ''i'', CHR ''m''}"
    using k i unfolding all_sensor_unique_ids_def canonical_spec_of_def canonical_spec.simps by auto
qed

lemma foreign_category:
  assumes "starts_with ''bluesun_'' (ds_unique_id d)"
  shows "categorize d (canonical_spec_of m) = UNRELATED"
proof -
  obtain r where u: "ds_unique_id d = ''bluesun_'' @ r"
    using assms by (auto simp: starts_with_iff)
  obtain base had where s: "strip_collision_suffix (ds_unique_id d) = (base, had)"
    by fastforce
  obtain t where "ds_unique_id d = base @ t"
    using strip_prefix [of "ds_unique_id d"] s by auto
  then have "base = [] \<or> hd base = CHR ''b''"
    using u by (cases base) auto
  then have n: "base \<notin> all_sensor_unique_ids (canonical_spec_of m) \<union> cs_binary_sensors (canonical_spec_of m)"
    "ds_unique_id d \<notin> all_sensor_unique_ids (canonical_spec_of m) \<union> cs_binary_sensors (canonical_spec_of m)"
    using canonical_heads [of base m] canonical_heads [of "ds_unique_id d" m] u by auto
  have "\<not> starts_with ORPHAN_V1_PREFIX (ds_unique_id d)" "\<not> sa_unique_id (ds_unique_id d)"
    by (simp_all add: u ORPHAN_V1_PREFIX_def sa_unique_id_def numbered_def starts_with_def)
  then show ?thesis
    using n by (simp add: categorize_def Let_def s looks_sa_static_def)
qed

lemma bms_category:
  assumes "e \<in> set all_bms_entities"
    and "parse_discovery repr cp t (PayloadJson (build_discovery_payload e pre dev nm avail)) = Some d"
  shows "categorize d (canonical_spec_of m) = UNRELATED"
proof -
  have b: "starts_with ''bluesun_'' (e_object_id e)"
    using assms(1) bms_ids by blast
  then have "e_object_id e \<noteq> []"
    by (auto simp: starts_with_def)
  then have "ds_unique_id d = e_object_id e"
    using assms(2) by (auto simp: parse_discovery_def build_discovery_payload_def Let_def first_of_def dget_or_def)
  then show ?thesis
    using b by (intro foreign_category) simp
qed

section \<open>The bridge is spared\<close>

text \<open>What the bridge keeps announced, and that the broker delivers it unchanged.\<close>

definition own_discovery :: "publisher \<Rightarrow> string \<Rightarrow> string \<Rightarrow> string \<Rightarrow> string \<Rightarrow> (string \<times> retained_payload) set" where
  "own_discovery p pre dev nm avail =
     {(topic m, PayloadJson v) | m v. m \<in> set (published (publish_discovery p)) \<and> content m = Json v}
     \<union> {(discovery_topic_for e ''homeassistant'', PayloadJson (build_discovery_payload e pre dev nm avail)) | e. e \<in> set all_bms_entities}"

definition delivers :: "(string \<times> retained_payload) set \<Rightarrow> broker_msg list \<Rightarrow> bool" where
  "delivers own msgs \<longleftrightarrow> (\<forall>b \<in> set msgs. \<forall>(t, v) \<in> own. bm_topic b = t \<longrightarrow> bm_payload b = v)"

lemma own_categories:
  assumes "(t, v) \<in> own_discovery p pre dev nm avail" and "discovery_prefix (pub_cfg p) = ''homeassistant''"
    and "n_inverters p \<le> n" and "parse_discovery repr (split_slash t ! 1) t v = Some d"
  shows "categorize d (canonical_spec_of n) \<in> {CANONICAL, UNRELATED}"
proof -
  consider (own) m x where "t = topic m" "v = PayloadJson x" "m \<in> set (published (publish_discovery p))" "content m = Json x"
    | (bms) e where "v = PayloadJson (build_discovery_payload e pre dev nm avail)" "e \<in> set all_bms_entities"
    using assms(1) unfolding own_discovery_def by blast
  then show ?thesis
  proof cases
    case bms
    then show ?thesis
      using bms_category [OF bms(2)] assms(4) by blast
  next
    case own
    from discovery_messages [OF own(3)] show ?thesis
    proof (elim disjE exE conjE)
      fix k meta name
      assume k: "k \<in> set (announced_keys (n_inverters p))" "topic m = config_topic (pub_cfg p) k"
        "content m = Json (discovery_payload (pub_cfg p) k meta name None)"
      have "split_slash t ! 1 = ''sensor''"
        using second_part(1) unfolding own(1) k(2) config_topic_def assms(2) by simp
      then show ?thesis
        using announced_category [OF k(1) assms(3), of repr t "pub_cfg p" meta name None d] assms(4) own(2,4) k(3) by simp
    next
      assume b: "Publish m \<in> set (publish_binary_sensor_discovery (pub_cfg p))"
      then have "topic m = ''homeassistant/binary_sensor/'' @ ''inverter_bridge_online/config''"
        using assms(2) by (simp add: publish_binary_sensor_discovery_def Let_def)
      then have "split_slash t ! 1 = ''binary_sensor''"
        using second_part(2) [of "''inverter_bridge_online/config''"] unfolding own(1) by simp
      then show ?thesis
        using online_category [OF b own(4)] assms(4) own(2) by auto
    qed
  qed
qed

text \<open>C13. The tool never clears what the bridge announces: with the specification of the repository and at
  least as many inverters as the bridge has, whatever else the broker holds and with static
  discoveries included, no cleared topic is a discovery topic of the bridge, inverters and
  batteries.\<close>

theorem cleanup_spares_bridge:
  assumes "cleanup_main repr args inp = Inr (code, ms)"
    and "ci_spec inp = JsonDoc canonical_document" and "ci_captured inp = Some msgs"
    and "discovery_prefix (pub_cfg p) = ''homeassistant''" and "n_inverters p \<le> ca_n_inverters args"
    and "delivers (own_discovery p pre dev nm avail) msgs"
  shows "topic ` set ms \<inter> fst ` own_discovery p pre dev nm avail = {}"
proof (rule ccontr)
  assume "topic ` set ms \<inter> fst ` own_discovery p pre dev nm avail \<noteq> {}"
  then obtain t v where t: "t \<in> topic ` set ms" "(t, v) \<in> own_discovery p pre dev nm avail"
    by fastforce
  then have "ms \<noteq> []"
    by auto
  then have "topic ` set ms = ds_topic ` {d \<in> set (capture_retained repr msgs).
      cleaned (ca_include_sa_static args) (categorize d (canonical_spec_of (ca_n_inverters args)))}"
    using cleared_topics [OF assms(1)] assms(2,3) load_repository_spec [of repr] by auto
  then obtain d where d: "d \<in> set (capture_retained repr msgs)" "ds_topic d = t"
      "cleaned (ca_include_sa_static args) (categorize d (canonical_spec_of (ca_n_inverters args)))"
    using t(1) by auto
  from d(1) obtain cp pl where c: "(t, cp, pl) \<in> set (fold on_message msgs [])" "parse_discovery repr cp t pl = Some d"
    unfolding capture_mem using parse_topic d(2) by blast
  have "cp = split_slash t ! 1" "pl = v"
    using captured_entries [OF c(1)] assms(6) t(2) unfolding delivers_def by auto
  then have "categorize d (canonical_spec_of (ca_n_inverters args)) \<in> {CANONICAL, UNRELATED}"
    using own_categories [OF t(2) assms(4,5)] c(2) by simp
  then show False
    using d(3) by (auto simp: cleaned_def)
qed

definition orphan_msg :: broker_msg where
  "orphan_msg = \<lparr>bm_topic = ''homeassistant/sensor/gadi_inverters_pv/config'',
     bm_payload = PayloadJson (PyDict [(''unique_id'', PyStr ''gadi_inverters_pv'')]), bm_retain = True\<rparr>"

definition demo_bridge :: publisher where
  "demo_bridge = publisher_init \<lparr>host = ''broker'', username = ''u'', password = ''p'', port = 1883, client_id = ''c'',
     topic_prefix = ''gadi_inverters'', discovery_prefix = ''homeassistant'', retain_discovery = True, qos = 0\<rparr> 2"

lemma orphan_run: "cleanup_main repr \<lparr>ca_n_inverters = n, ca_include_sa_static = inc, ca_apply = True\<rparr>
    \<lparr>ci_spec = JsonDoc canonical_document, ci_captured = Some [orphan_msg], ci_connects = True, ci_acked = (\<lambda>_. True)\<rparr>
  = Inr (0, [\<lparr>topic = bm_topic orphan_msg, content = Text '''', msg_qos = 1, retain = True\<rparr>])"
proof -
  define d where "d = \<lparr>ds_component = ''sensor'', ds_topic = bm_topic orphan_msg, ds_object_id = ''gadi_inverters_pv'',
    ds_unique_id = ''gadi_inverters_pv'', ds_state_topic = '''', ds_identifiers = []\<rparr>"
  have c: "capture_retained repr [orphan_msg] = [d]"
    by (simp add: capture_retained_def on_message_def orphan_msg_def parse_discovery_def first_of_def dget_or_def
        payload_identifiers_def d_def List.map_filter_simps)
  have "''gadi_inverters_pv'' \<notin> all_sensor_unique_ids (canonical_spec_of n) \<union> cs_binary_sensors (canonical_spec_of n)"
    using canonical_heads [of "''gadi_inverters_pv''" n] by auto
  then have g: "categorize d (canonical_spec_of n) = ORPHAN_V1"
    by (simp add: categorize_def d_def ORPHAN_V1_PREFIX_def starts_with_def)
  have t: "collect_topics_to_clean (build_report [d] (canonical_spec_of n)) inc = [bm_topic orphan_msg]"
    by (simp add: collect_topics_to_clean_def build_report_def g) (simp add: d_def)
  have s: "cs_binary_sensors (canonical_spec_of n) \<noteq> {}"
    by (simp add: canonical_spec_of_def)
  show ?thesis
    by (simp add: cleanup_main_def load_repository_spec s c t clear_retained_def)
qed

lemma own_topic_heads:
  assumes "(t, v) \<in> own_discovery demo_bridge pre dev nm avail"
  shows "t \<noteq> bm_topic orphan_msg"
proof -
  have k: "''homeassistant/sensor/'' @ key_to_unique_id k @ ''/config'' \<noteq> bm_topic orphan_msg" for k
    by (cases k rule: unique_id_cases) (simp_all add: orphan_msg_def)
  have b: "discovery_topic_for e ''homeassistant'' \<noteq> bm_topic orphan_msg" if "e \<in> set all_bms_entities" for e
    using bms_ids that by (auto simp: starts_with_iff orphan_msg_def discovery_topic_for_def)
  have p: "discovery_prefix (pub_cfg demo_bridge) = ''homeassistant''"
    by (simp add: demo_bridge_def publisher_init_def)
  have "topic m \<noteq> bm_topic orphan_msg" if m: "m \<in> set (published (publish_discovery demo_bridge))" for m
    using discovery_messages [OF m]
  proof (elim disjE exE conjE)
    fix key meta name
    assume "topic m = config_topic (pub_cfg demo_bridge) key"
    then show ?thesis
      using k [of key] by (simp add: config_topic_def p)
  next
    assume "Publish m \<in> set (publish_binary_sensor_discovery (pub_cfg demo_bridge))"
    then show ?thesis
      by (simp add: publish_binary_sensor_discovery_def Let_def p orphan_msg_def)
  qed
  note m = this
  have "(\<exists>m \<in> set (published (publish_discovery demo_bridge)). t = topic m)
      \<or> (\<exists>e \<in> set all_bms_entities. t = discovery_topic_for e ''homeassistant'')"
    using assms unfolding own_discovery_def p by blast
  then show ?thesis
  proof (elim disjE bexE)
    fix m
    assume "m \<in> set (published (publish_discovery demo_bridge))" and "t = topic m"
    then show ?thesis
      using m by simp
  next
    fix e
    assume "e \<in> set all_bms_entities" and "t = discovery_topic_for e ''homeassistant''"
    then show ?thesis
      using b [of e] by (simp only:) simp
  qed
qed

theorem cleanup_spares_bridge_witness:
  "\<exists>ms. cleanup_main (\<lambda>_. ''?'') \<lparr>ca_n_inverters = 2, ca_include_sa_static = True, ca_apply = True\<rparr>
      \<lparr>ci_spec = JsonDoc canonical_document, ci_captured = Some [orphan_msg], ci_connects = True, ci_acked = (\<lambda>_. True)\<rparr> = Inr (0, ms)
    \<and> topic ` set ms = {''homeassistant/sensor/gadi_inverters_pv/config''}
    \<and> topic ` set ms \<inter> fst ` own_discovery demo_bridge ''bms'' ''bluesun_bms'' ''BlueSun'' ''a'' = {}"
proof -
  have d: "delivers (own_discovery demo_bridge ''bms'' ''bluesun_bms'' ''BlueSun'' ''a'') [orphan_msg]"
    using own_topic_heads unfolding delivers_def by fastforce
  have p: "discovery_prefix (pub_cfg demo_bridge) = ''homeassistant''" "n_inverters demo_bridge \<le> 2"
    by (simp_all add: demo_bridge_def publisher_init_def)
  show ?thesis
    using cleanup_spares_bridge [OF orphan_run [of "\<lambda>_. ''?''" 2 True], of "[orphan_msg]" demo_bridge "''bms''" "''bluesun_bms''" "''BlueSun''" "''a''"]
      orphan_run [of "\<lambda>_. ''?''" 2 True] d p
    by (simp add: orphan_msg_def)
qed

text \<open>The specification must know every inverter: with static discoveries included, a tool told of two
  inverters takes all sensors of a third one for leftovers, and clears the live announcements.\<close>

theorem cleanup_clears_third_inverter:
  "list_all (\<lambda>(k, meta). \<exists>d. parse_discovery repr ''sensor'' (config_topic cfg (ikey 3 k))
        (PayloadJson (discovery_payload cfg (ikey 3 k) meta name None)) = Some d
      \<and> categorize d (canonical_spec_of 2) = SA_STATIC) PER_INVERTER_SENSORS"
proof -
  have s: "\<forall>k \<in> set (map fst PER_INVERTER_SENSORS). \<not> snd (strip_collision_suffix (ikey 3 k)) \<and> sa_unique_id (ikey 3 k)"
    by code_simp
  have "\<exists>d. parse_discovery repr ''sensor'' t (PayloadJson (discovery_payload cfg (ikey 3 k) meta name None)) = Some d
      \<and> categorize d (canonical_spec_of 2) = SA_STATIC" if k: "(k, meta) \<in> set PER_INVERTER_SENSORS" for k meta t
  proof -
    have sk: "\<not> snd (strip_collision_suffix (ikey 3 k))" "sa_unique_id (ikey 3 k)"
      using s k by force+
    have u: "key_to_unique_id (ikey 3 k) = ikey 3 k"
      by (simp add: key_to_unique_id_def ikey_def starts_with_def)
    obtain d where d: "parse_discovery repr ''sensor'' t (PayloadJson (discovery_payload cfg (ikey 3 k) meta name None)) = Some d"
      "ds_unique_id d = ikey 3 k" "ds_identifiers d = [''sa_inverter'']" "ds_component d = ''sensor''"
    proof -
      have "ikey 3 k \<noteq> []"
        by (simp add: ikey_def)
      then have "\<exists>d. parse_discovery repr ''sensor'' t (PayloadJson (discovery_payload cfg (ikey 3 k) meta name None)) = Some d
          \<and> ds_unique_id d = ikey 3 k \<and> ds_identifiers d = [''sa_inverter''] \<and> ds_component d = ''sensor''"
        by (cases meta) (simp add: parse_discovery_def discovery_payload_def Let_def first_of_def dget_or_def payload_identifiers_def
            device_block_def u)
      then show ?thesis
        using that by blast
    qed
    have "ikey 3 k \<notin> all_sensor_unique_ids (canonical_spec_of 2)"
    proof -
      have "ikey 3 k \<noteq> ''meta_'' @ r" "ikey 3 k \<noteq> ''total_'' @ r" for r
        by (simp_all add: ikey_def)
      then have "ikey 3 k \<noteq> key_to_unique_id x" if "site_key x" for x
        using that by (cases x rule: unique_id_cases) (auto simp: site_key_def starts_with_def)
      then show ?thesis
        using site_tables meta_table unfolding all_sensor_unique_ids_def canonical_spec_of_def canonical_spec.simps
        by (auto simp: ikey_inj)
    qed
    moreover have "\<not> starts_with ORPHAN_V1_PREFIX (ikey 3 k)"
      by (simp add: ikey_def ORPHAN_V1_PREFIX_def starts_with_def)
    ultimately have "categorize d (canonical_spec_of 2) = SA_STATIC"
      using sk by (simp add: categorize_def Let_def d looks_sa_static_def split: prod.split) auto
    then show ?thesis
      using d(1) by blast
  qed
  then show ?thesis
    by (auto simp: list_all_iff)
qed

end
