(* ===== verification/Ws_Client.thy ===== *)
theory Ws_Client
  imports Py_Parse
begin

text \<open>
  The WebSocket client of the two Home Assistant tools, \<open>tools/purge_ha_zombies.py\<close> and
  \<open>tools/rename_ha_entities.py\<close> (the two files hold the same code): the address, the handshake, a
  command with its answer, the list of the entity registry. The connection is a clock, the frames that
  arrive with their times, and the payloads sent so far; \<open>websockets\<close> is third-party code, of which only
  this is used: a frame is delivered in order, and a lost connection raises on every later call.
\<close>

section \<open>The address\<close>

text \<open>\<open>urlparse\<close> as far as the tools use it: scheme, network location and path. A bracketed host is
  validated by the \<open>ipaddress\<close> module: \<open>host_ok\<close>.\<close>

definition scheme_char :: "char \<Rightarrow> bool" where
  "scheme_char c \<longleftrightarrow> (let n = of_char c :: nat in
     is_digit c \<or> 65 \<le> n \<and> n \<le> 90 \<or> 97 \<le> n \<and> n \<le> 122 \<or> c \<in> {CHR ''+'', CHR ''-'', CHR ''.''})"

definition split_scheme :: "string \<Rightarrow> string \<times> string" where
  "split_scheme u =
     (let p = takeWhile (\<lambda>c. c \<noteq> CHR '':'') u in
      if p \<noteq> [] \<and> p \<noteq> u \<and> list_all scheme_char p then (map to_lower p, drop (Suc (length p)) u)
      else ('''', u))"

definition clean_url :: "string \<Rightarrow> string" where
  "clean_url s =
     filter (\<lambda>c. c \<noteq> CHR 0x09 \<and> c \<noteq> CHR 0x0A \<and> c \<noteq> CHR 0x0D) (dropWhile (\<lambda>c. (of_char c :: nat) \<le> 32) s)"

definition until :: "string \<Rightarrow> string \<Rightarrow> string" where
  "until cs s = takeWhile (\<lambda>c. c \<notin> set cs) s"

text \<open>Without the parameters of the last segment of the path.\<close>

definition without_params :: "string \<Rightarrow> string" where
  "without_params p =
     (let seg = rev (until ''/'' (rev p)) in take (length p - length seg) p @ until '';'' seg)"

record parsed_url =
  u_scheme :: string
  u_netloc :: string
  u_path :: string

definition urlparse :: "(string \<Rightarrow> bool) \<Rightarrow> string \<Rightarrow> parsed_url option" where
  "urlparse host_ok s =
     (case split_scheme (clean_url s) of
        (scheme, rest) \<Rightarrow>
          let netloc = (if starts_with ''//'' rest then until ''/?#'' (drop 2 rest) else '''');
              tail = (if starts_with ''//'' rest then drop (2 + length netloc) rest else rest);
              path = until ''?'' (until ''#'' tail);
              opened = CHR ''['' \<in> set netloc; closed = CHR '']'' \<in> set netloc
          in if opened \<noteq> closed \<or> opened \<and> \<not> host_ok netloc then None
             else Some \<lparr>u_scheme = scheme, u_netloc = netloc,
                    u_path = (if scheme \<in> {'''', ''http'', ''https''} then without_params path else path)\<rparr>)"

definition rstrip_slash :: "string \<Rightarrow> string" where
  "rstrip_slash s = rev (dropWhile (\<lambda>c. c = CHR ''/'') (rev s))"

text \<open>\<open>None\<close> is \<open>ValueError\<close>.\<close>

definition ha_base_to_ws_url :: "(string \<Rightarrow> bool) \<Rightarrow> string \<Rightarrow> string option" where
  "ha_base_to_ws_url host_ok ha_base =
     (case urlparse host_ok ha_base of
        None \<Rightarrow> None
      | Some parsed \<Rightarrow>
          if u_scheme parsed \<notin> {''http'', ''https''} then None
          else
            let ws_scheme = (if u_scheme parsed = ''https'' then ''wss'' else ''ws'');
                netloc = (if u_netloc parsed \<noteq> [] then u_netloc parsed else u_path parsed);
                base_path = rstrip_slash (if u_netloc parsed \<noteq> [] then u_path parsed else '''')
            in Some (ws_scheme @ ''://'' @ netloc @ base_path @ ''/api/websocket''))"

section \<open>The connection\<close>

text \<open>A frame: decoded JSON, text that is not JSON, or the loss of the connection.\<close>

datatype ws_frame = WsText pyval | WsNotJson | WsLost

datatype ws_exc = WsTimeoutError | WsClosedError | WsRuntimeError | WsValueError | WsOsError

record ws_conn =
  ws_now :: rat
  ws_in :: "(rat \<times> ws_frame) list"
  ws_sent :: "pyval list"

definition recv_json :: "rat \<Rightarrow> ws_conn \<Rightarrow> (ws_exc + (string, pyval) dict) \<times> ws_conn" where
  "recv_json timeout ws =
     (if timeout \<le> 0 then (Inl WsTimeoutError, ws)
      else
        (case ws_in ws of
           [] \<Rightarrow> (Inl WsTimeoutError, ws\<lparr>ws_now := ws_now ws + timeout\<rparr>)
         | (t, frame) # rest \<Rightarrow>
             if ws_now ws + timeout < t then (Inl WsTimeoutError, ws\<lparr>ws_now := ws_now ws + timeout\<rparr>)
             else
               let ws' = ws\<lparr>ws_now := max (ws_now ws) t\<rparr> in
               (case frame of
                  WsText (PyDict msg) \<Rightarrow> (Inr msg, ws'\<lparr>ws_in := rest\<rparr>)
                | WsText _ \<Rightarrow> (Inl WsRuntimeError, ws'\<lparr>ws_in := rest\<rparr>)
                | WsNotJson \<Rightarrow> (Inl WsValueError, ws'\<lparr>ws_in := rest\<rparr>)
                | WsLost \<Rightarrow> (Inl WsClosedError, ws'))))"

definition send_json :: "(string, pyval) dict \<Rightarrow> ws_conn \<Rightarrow> (ws_exc + unit) \<times> ws_conn" where
  "send_json payload ws =
     (case ws_in ws of
        (t, WsLost) # _ \<Rightarrow>
          if t \<le> ws_now ws then (Inl WsClosedError, ws)
          else (Inr (), ws\<lparr>ws_sent := ws_sent ws @ [PyDict payload]\<rparr>)
      | _ \<Rightarrow> (Inr (), ws\<lparr>ws_sent := ws_sent ws @ [PyDict payload]\<rparr>))"

definition has_type :: "(string, pyval) dict \<Rightarrow> string \<Rightarrow> bool" where
  "has_type msg t \<longleftrightarrow> dget_or msg ''type'' PyNone = PyStr t"

definition auth :: "string \<Rightarrow> rat \<Rightarrow> ws_conn \<Rightarrow> (ws_exc + unit) \<times> ws_conn" where
  "auth ha_token timeout ws =
     (case recv_json timeout ws of
        (Inl e, ws) \<Rightarrow> (Inl e, ws)
      | (Inr first, ws) \<Rightarrow>
          if \<not> has_type first ''auth_required'' then (Inl WsRuntimeError, ws)
          else
            (case send_json [(''type'', PyStr ''auth''), (''access_token'', PyStr ha_token)] ws of
               (Inl e, ws) \<Rightarrow> (Inl e, ws)
             | (Inr _, ws) \<Rightarrow>
                 (case recv_json timeout ws of
                    (Inl e, ws) \<Rightarrow> (Inl e, ws)
                  | (Inr reply, ws) \<Rightarrow>
                      if has_type reply ''auth_ok'' then (Inr (), ws) else (Inl WsRuntimeError, ws))))"

lemma recv_json_shorter: "recv_json timeout ws = (Inr msg, ws') \<Longrightarrow> length (ws_in ws') < length (ws_in ws)"
  by (auto simp: recv_json_def Let_def split: if_splits list.splits ws_frame.splits pyval.splits)

definition is_result :: "int \<Rightarrow> (string, pyval) dict \<Rightarrow> bool" where
  "is_result msg_id msg \<longleftrightarrow> py_eq_int (dget_or msg ''id'' PyNone) msg_id \<and> has_type msg ''result''"

text \<open>The loop that waits for the answer: every frame in between is dropped, and each uses up the time.\<close>

function request_loop :: "int \<Rightarrow> rat \<Rightarrow> ws_conn \<Rightarrow> (ws_exc + (string, pyval) dict) \<times> ws_conn" where
  "request_loop msg_id deadline ws =
     (let remaining = max 0 (deadline - ws_now ws) in
      if remaining \<le> 0 then (Inl WsTimeoutError, ws)
      else
        (case recv_json remaining ws of
           (Inl e, ws') \<Rightarrow> (Inl e, ws')
         | (Inr msg, ws') \<Rightarrow>
             if is_result msg_id msg then (Inr msg, ws') else request_loop msg_id deadline ws'))"
  by pat_completeness auto
termination
  by (relation "measure (\<lambda>(_, _, ws). length (ws_in ws))") (auto dest: recv_json_shorter [OF sym])

declare request_loop.simps [simp del]

definition ws_request :: "int \<Rightarrow> (string, pyval) dict \<Rightarrow> rat \<Rightarrow> ws_conn \<Rightarrow> (ws_exc + (string, pyval) dict) \<times> ws_conn" where
  "ws_request msg_id payload timeout ws =
     (case send_json ((''id'', PyInt msg_id) # payload) ws of
        (Inl e, ws) \<Rightarrow> (Inl e, ws)
      | (Inr _, ws) \<Rightarrow> request_loop msg_id (ws_now ws + timeout) ws)"

section \<open>The client\<close>

record ws_client =
  cl_ws :: ws_conn
  cl_next_id :: int

text \<open>\<open>__aenter__\<close>: \<open>opened\<close> is what connecting gives, the exception or the new connection, on
  which nothing has been sent. The result comes with the payloads sent.\<close>

definition client_enter :: "string \<Rightarrow> rat \<Rightarrow> ws_exc + ws_conn \<Rightarrow> (ws_exc + ws_client) \<times> pyval list" where
  "client_enter ha_token timeout opened =
     (case opened of
        Inl e \<Rightarrow> (Inl e, [])
      | Inr conn \<Rightarrow>
          (case auth ha_token timeout (conn\<lparr>ws_sent := []\<rparr>) of
             (Inl e, conn') \<Rightarrow> (Inl e, ws_sent conn')
           | (Inr _, conn') \<Rightarrow> (Inr \<lparr>cl_ws = conn', cl_next_id = 1\<rparr>, ws_sent conn')))"

record registry_entry =
  re_entity_id :: string
  re_unique_id :: string
  re_platform :: string
  re_raw :: "(string, pyval) dict"

definition text_or_empty :: "(pyval \<Rightarrow> string) \<Rightarrow> pyval \<Rightarrow> string" where
  "text_or_empty repr v = py_str repr (if py_bool v then v else PyStr '''')"

definition entry_of :: "(pyval \<Rightarrow> string) \<Rightarrow> pyval \<Rightarrow> registry_entry option" where
  "entry_of repr item =
     (case item of
        PyDict d \<Rightarrow>
          (case dget_or d ''entity_id'' PyNone of
             PyStr s \<Rightarrow>
               if s = [] then None
               else Some \<lparr>re_entity_id = s, re_unique_id = text_or_empty repr (dget_or d ''unique_id'' PyNone),
                      re_platform = text_or_empty repr (dget_or d ''platform'' PyNone), re_raw = d\<rparr>
           | _ \<Rightarrow> None)
      | _ \<Rightarrow> None)"

definition parse_registry :: "(pyval \<Rightarrow> string) \<Rightarrow> (string, pyval) dict \<Rightarrow> ws_exc + registry_entry list" where
  "parse_registry repr reply =
     (if \<not> py_bool (dget_or reply ''success'' PyNone) then Inl WsRuntimeError
      else
        let result = dget_or reply ''result'' PyNone in
        (case (if py_bool result then result else PyList []) of
           PyList items \<Rightarrow> Inr (List.map_filter (entry_of repr) items)
         | _ \<Rightarrow> Inl WsRuntimeError))"

text \<open>One command of the client: the number is used up even if the command fails. The connection is
  there: the client is used inside its context only.\<close>

definition client_request :: "(string, pyval) dict \<Rightarrow> rat \<Rightarrow> ws_client \<Rightarrow> (ws_exc + (string, pyval) dict) \<times> ws_client" where
  "client_request payload timeout c =
     (case ws_request (cl_next_id c) payload timeout (cl_ws c) of
        (r, conn) \<Rightarrow> (r, c\<lparr>cl_ws := conn, cl_next_id := cl_next_id c + 1\<rparr>))"

definition list_entity_registry ::
  "(pyval \<Rightarrow> string) \<Rightarrow> rat \<Rightarrow> ws_client \<Rightarrow> (ws_exc + registry_entry list) \<times> ws_client" where
  "list_entity_registry repr timeout c =
     (case client_request [(''type'', PyStr ''config/entity_registry/list'')] timeout c of
        (r, c') \<Rightarrow> (bindE r (parse_registry repr), c'))"

text \<open>\<open>remove_entity\<close> and \<open>update_entity_id\<close>: whether Home Assistant agreed. Only a timeout is caught.\<close>

definition registry_command :: "(string, pyval) dict \<Rightarrow> rat \<Rightarrow> ws_client \<Rightarrow> (ws_exc + bool) \<times> ws_client" where
  "registry_command payload timeout c =
     (case client_request payload timeout c of
        (Inl WsTimeoutError, c') \<Rightarrow> (Inr False, c')
      | (Inl e, c') \<Rightarrow> (Inl e, c')
      | (Inr reply, c') \<Rightarrow> (Inr (py_bool (dget_or reply ''success'' PyNone)), c'))"

definition remove_entity :: "string \<Rightarrow> rat \<Rightarrow> ws_client \<Rightarrow> (ws_exc + bool) \<times> ws_client" where
  "remove_entity entity_id = registry_command [(''type'', PyStr ''config/entity_registry/remove''), (''entity_id'', PyStr entity_id)]"

definition update_entity_id :: "string \<Rightarrow> string \<Rightarrow> rat \<Rightarrow> ws_client \<Rightarrow> (ws_exc + bool) \<times> ws_client" where
  "update_entity_id old new = registry_command
     [(''type'', PyStr ''config/entity_registry/update''), (''entity_id'', PyStr old), (''new_entity_id'', PyStr new)]"

section \<open>The end of a run\<close>

text \<open>The exception that leaves a tool, or its exit code. A timeout is an \<open>OSError\<close>; what \<open>json\<close> raises is a
  \<open>ValueError\<close>, which the tools do not catch around the connection.\<close>

datatype tool_exc = ToolValueError | ToolTypeError | ToolAttributeError | ToolOtherError

fun ws_exit :: "ws_exc \<Rightarrow> tool_exc + nat" where
  "ws_exit WsValueError = Inl ToolValueError"
| "ws_exit _ = Inr 2"

fun list_exit :: "ws_exc \<Rightarrow> tool_exc + nat" where
  "list_exit WsRuntimeError = Inr 4"
| "list_exit WsTimeoutError = Inr 4"
| "list_exit e = ws_exit e"

text \<open>The prompt: \<open>None\<close> is the end of the input or an interrupt.\<close>

definition prompt_confirm :: "string option \<Rightarrow> bool" where
  "prompt_confirm answer =
     (case answer of None \<Rightarrow> False | Some s \<Rightarrow> map to_lower (strip s) \<in> {''y'', ''yes''})"

end
