(* ===== verification/Purge_Tool.thy ===== *)
theory Purge_Tool
  imports Ws_Client Cleanup_Tool
begin

text \<open>
  \<open>tools/purge_ha_zombies.py\<close>: which entries of the entity registry of Home Assistant the tool takes for
  zombies, and what it removes. Times are microseconds since the epoch; \<open>fromiso\<close> reads a timestamp (the
  grammar of \<open>datetime.fromisoformat\<close>) into local time and its offset, if it has one. The HTTP request
  is its decoded answer. A run is its exit code with everything sent on the WebSocket.
\<close>

type_synonym iso_reader = "string \<Rightarrow> (int \<times> int option) option"

record state_record =
  sr_entity_id :: string
  sr_state :: string
  sr_last_updated :: "int option"

definition STALE_STATES :: "string set" where
  "STALE_STATES = {''unavailable'', ''unknown''}"

definition DEFAULT_DOMAINS :: "string list" where
  "DEFAULT_DOMAINS = [''sensor.solar_assistant_'', ''binary_sensor.solar_assistant_'', ''binary_sensor.inverter_bridge_'']"

definition DEFAULT_MIN_AGE_S :: pyfloat where
  "DEFAULT_MIN_AGE_S = Fin 3600"

definition parse_iso8601 :: "iso_reader \<Rightarrow> pyval \<Rightarrow> tool_exc + int option" where
  "parse_iso8601 fromiso v =
     (if \<not> py_bool v then Inr None
      else
        (case v of
           PyStr s \<Rightarrow>
             Inr (case fromiso s of
                None \<Rightarrow> None
              | Some (t, tz) \<Rightarrow> Some (t - (case tz of None \<Rightarrow> 0 | Some offset \<Rightarrow> offset)))
         | _ \<Rightarrow> Inl ToolTypeError))"

section \<open>Selection\<close>

definition state_by_id :: "state_record list \<Rightarrow> (string, state_record) dict" where
  "state_by_id states = dupdate [] (map (\<lambda>s. (sr_entity_id s, s)) states)"

text \<open>\<open>(now - t).total_seconds()\<close>.\<close>

definition age_s :: "int \<Rightarrow> int \<Rightarrow> pyfloat" where
  "age_s now t = mkf (of_int (now - t) / 10 ^ 6)"

definition is_candidate ::
  "(string, state_record) dict \<Rightarrow> string list \<Rightarrow> pyfloat \<Rightarrow> bool \<Rightarrow> string set \<Rightarrow> int \<Rightarrow> registry_entry \<Rightarrow> bool"
where
  "is_candidate by_id prefixes min_age_s include_stale_values canonical now ent =
     (if \<not> list_ex (\<lambda>p. starts_with p (re_entity_id ent)) prefixes then False
      else if re_unique_id ent \<noteq> [] \<and> re_unique_id ent \<in> canonical then False
      else
        (case dget by_id (re_entity_id ent) of
           None \<Rightarrow> True
         | Some st \<Rightarrow>
             if sr_state st \<in> STALE_STATES then
               (case sr_last_updated st of None \<Rightarrow> True | Some t \<Rightarrow> ple min_age_s (age_s now t))
             else if include_stale_values then
               (case sr_last_updated st of None \<Rightarrow> False | Some t \<Rightarrow> ple min_age_s (age_s now t))
             else False))"

definition select_candidates ::
  "registry_entry list \<Rightarrow> state_record list \<Rightarrow> string list \<Rightarrow> pyfloat \<Rightarrow> bool \<Rightarrow> string set option \<Rightarrow> int \<Rightarrow> registry_entry list"
where
  "select_candidates registry states domain_prefixes min_age_s include_stale_values canonical_unique_ids now =
     filter (is_candidate (state_by_id states) domain_prefixes min_age_s include_stale_values
         (case canonical_unique_ids of None \<Rightarrow> {} | Some uids \<Rightarrow> uids) now) registry"

section \<open>The states\<close>

text \<open>The answer: a refusal (\<open>HTTPError\<close>, \<open>URLError\<close>), another exception of the request, a body that is
  not UTF-8 or not JSON, or its decoded content.\<close>

datatype rest_reply = RestRefused | RestRaises | RestNotJson | RestJson pyval

datatype fetch_exc = FetchRuntimeError | FetchUncaught tool_exc

fun states_of :: "iso_reader \<Rightarrow> pyval list \<Rightarrow> tool_exc + state_record list" where
  "states_of fromiso [] = Inr []"
| "states_of fromiso (PyDict item # items) =
     (case dget_or item ''entity_id'' PyNone of
        PyStr entity_id \<Rightarrow>
          if entity_id = [] then states_of fromiso items
          else
            bindE (parse_iso8601 fromiso (dget_or item ''last_updated'' PyNone)) (\<lambda>last_updated.
            bindE (states_of fromiso items) (\<lambda>out.
              Inr (\<lparr>sr_entity_id = entity_id,
                 sr_state = (case dget_or item ''state'' PyNone of PyStr s \<Rightarrow> s | _ \<Rightarrow> ''''),
                 sr_last_updated = last_updated\<rparr> # out)))
      | _ \<Rightarrow> states_of fromiso items)"
| "states_of fromiso (_ # items) = states_of fromiso items"

definition fetch_states :: "iso_reader \<Rightarrow> rest_reply \<Rightarrow> fetch_exc + state_record list" where
  "fetch_states fromiso reply =
     (case reply of
        RestRefused \<Rightarrow> Inl FetchRuntimeError
      | RestRaises \<Rightarrow> Inl (FetchUncaught ToolOtherError)
      | RestNotJson \<Rightarrow> Inl FetchRuntimeError
      | RestJson (PyList data) \<Rightarrow>
          (case states_of fromiso data of Inl e \<Rightarrow> Inl (FetchUncaught e) | Inr states \<Rightarrow> Inr states)
      | RestJson _ \<Rightarrow> Inl FetchRuntimeError)"

section \<open>The run\<close>

fun spec_exc :: "spec_error + 'a \<Rightarrow> tool_exc + 'a" where
  "spec_exc (Inl _) = Inl ToolTypeError"
| "spec_exc (Inr x) = Inr x"

text \<open>The safety net: \<open>None\<close> if the file cannot be read.\<close>

definition load_safety_net :: "(pyval \<Rightarrow> string) \<Rightarrow> json_file \<Rightarrow> tool_exc + string set option" where
  "load_safety_net repr file =
     (case file of
        NoFile \<Rightarrow> Inr None
      | OsErrorOnRead \<Rightarrow> Inr None
      | BadJson \<Rightarrow> Inr None
      | NotUtf8 \<Rightarrow> Inl ToolValueError
      | JsonDoc (PyDict spec) \<Rightarrow>
          spec_exc
            (bindE (spec_set (dget_or spec ''aggregates'' (PyList []))) (\<lambda>aggregates.
             bindE (spec_set (dget_or spec ''meta'' (PyList []))) (\<lambda>meta.
             bindE (spec_set (dget_or spec ''binary_sensors'' (PyList []))) (\<lambda>binary_sensors.
             bindE (spec_items (dget_or spec ''per_inverter_suffixes'' (PyList []))) (\<lambda>suffixes.
               Inr (Some (aggregates \<union> meta \<union> binary_sensors
                 \<union> (\<Union>n \<in> {1, 2}. set (map (\<lambda>suf. ikey n (py_str repr suf)) suffixes))))))))) 
      | JsonDoc _ \<Rightarrow> Inl ToolAttributeError)"

fun purge_apply :: "rat \<Rightarrow> registry_entry list \<Rightarrow> ws_client \<Rightarrow> (ws_exc + nat \<times> string list) \<times> ws_client" where
  "purge_apply timeout [] client = (Inr (0, []), client)"
| "purge_apply timeout (c # cs) client =
     (case remove_entity (re_entity_id c) timeout client of
        (Inl e, client) \<Rightarrow> (Inl e, client)
      | (Inr ok, client) \<Rightarrow>
          (case purge_apply timeout cs client of
             (Inl e, client) \<Rightarrow> (Inl e, client)
           | (Inr (n_ok, failures), client) \<Rightarrow>
               (Inr (if ok then (Suc n_ok, failures) else (n_ok, re_entity_id c # failures)), client)))"

record purge_args =
  pa_ha_base :: string
  pa_ha_token :: string
  pa_min_age_s :: pyfloat
  pa_domain :: "string list"
  pa_ws_timeout_s :: rat
  pa_yes :: bool
  pa_include_stale_values :: bool
  pa_canonical_spec :: "json_file option"
  pa_apply :: bool

record purge_in =
  pi_rest :: rest_reply
  pi_opened :: "ws_exc + ws_conn"
  pi_now :: int
  pi_answer :: "string option"

text \<open>What happens inside the context of the client, from the registry on.\<close>

definition purge_session ::
  "(pyval \<Rightarrow> string) \<Rightarrow> purge_args \<Rightarrow> purge_in \<Rightarrow> state_record list \<Rightarrow> ws_client \<Rightarrow> (tool_exc + nat) \<times> ws_client"
where
  "purge_session repr args inp states client =
     (case list_entity_registry repr (pa_ws_timeout_s args) client of
        (Inl e, client) \<Rightarrow> (list_exit e, client)
      | (Inr registry, client) \<Rightarrow>
          (case (case pa_canonical_spec args of None \<Rightarrow> Inr None | Some file \<Rightarrow> load_safety_net repr file) of
             Inl e \<Rightarrow> (Inl e, client)
           | Inr canonical_uids \<Rightarrow>
               let candidates = select_candidates registry states (pa_domain args) (pa_min_age_s args)
                     (pa_include_stale_values args) canonical_uids (pi_now inp)
               in if \<not> pa_apply args then (Inr 0, client)
                  else if candidates = [] then (Inr 0, client)
                  else if \<not> pa_yes args \<and> \<not> prompt_confirm (pi_answer inp) then (Inr 0, client)
                  else
                    (case purge_apply (pa_ws_timeout_s args) candidates client of
                       (Inl e, client) \<Rightarrow> (ws_exit e, client)
                     | (Inr (n_ok, failures), client) \<Rightarrow> (Inr (if failures \<noteq> [] then 6 else 0), client))))"

definition purge_run ::
  "(pyval \<Rightarrow> string) \<Rightarrow> iso_reader \<Rightarrow> (string \<Rightarrow> bool) \<Rightarrow> purge_args \<Rightarrow> purge_in \<Rightarrow> (tool_exc + nat) \<times> pyval list"
where
  "purge_run repr fromiso host_ok args inp =
     (case fetch_states fromiso (pi_rest inp) of
        Inl FetchRuntimeError \<Rightarrow> (Inr 3, [])
      | Inl (FetchUncaught e) \<Rightarrow> (Inl e, [])
      | Inr states \<Rightarrow>
          (case ha_base_to_ws_url host_ok (pa_ha_base args) of
             None \<Rightarrow> (Inl ToolValueError, [])
           | Some _ \<Rightarrow>
               (case client_enter (pa_ha_token args) (pa_ws_timeout_s args) (pi_opened inp) of
                  (Inl e, sent) \<Rightarrow> (ws_exit e, sent)
                | (Inr client, _) \<Rightarrow>
                    (case purge_session repr args inp states client of (r, client) \<Rightarrow> (r, ws_sent (cl_ws client))))))"

definition purge_main ::
  "(pyval \<Rightarrow> string) \<Rightarrow> iso_reader \<Rightarrow> (string \<Rightarrow> bool) \<Rightarrow> purge_args \<Rightarrow> purge_in \<Rightarrow> (tool_exc + nat) \<times> pyval list"
where
  "purge_main repr fromiso host_ok args inp =
     (if pa_domain args = [] then (Inr 1, []) else purge_run repr fromiso host_ok args inp)"

end
