(* ===== verification/Ws_Runs.thy ===== *)
theory Ws_Runs
  imports Ws_Client
begin

text \<open>
  What the WebSocket client promises: a command comes back within its timeout with the answer to its own
  number, and a loop of commands sends them in order and counts the acknowledged ones. The contract of
  such a loop is a locale, which the two tools interpret.
\<close>

section \<open>The address\<close>

text \<open>The comment in \<open>ha_base_to_ws_url\<close> says that it copes with a bare host; an address without a colon has
  no scheme and is refused.\<close>

theorem bare_host_refused: "CHR '':'' \<notin> set s \<Longrightarrow> ha_base_to_ws_url host_ok s = None"
proof -
  assume "CHR '':'' \<notin> set s"
  then have "CHR '':'' \<notin> set (clean_url s)"
    by (auto simp: clean_url_def dest: set_dropWhileD)
  then have "split_scheme (clean_url s) = ([], clean_url s)"
    by (auto simp: split_scheme_def Let_def takeWhile_eq_all_conv)
  then show ?thesis
    by (auto simp: ha_base_to_ws_url_def urlparse_def Let_def)
qed

section \<open>Receiving and sending\<close>

lemma recv_json_cases:
  assumes "recv_json timeout ws = (r, ws')"
  obtains (timeout) "r = Inl WsTimeoutError" "ws_in ws' = ws_in ws" "ws_now ws' = ws_now ws + max 0 timeout"
    | (lost) "r = Inl WsClosedError" "ws_in ws' = ws_in ws" "0 < timeout" "ws_now ws \<le> ws_now ws'" "ws_now ws' \<le> ws_now ws + timeout"
    | (bad) f t rest where "ws_in ws = (t, f) # rest" "ws_in ws' = rest" "r \<in> {Inl WsRuntimeError, Inl WsValueError}"
        "0 < timeout" "ws_now ws \<le> ws_now ws'" "ws_now ws' \<le> ws_now ws + timeout"
    | (msg) t msg rest where "ws_in ws = (t, WsText (PyDict msg)) # rest" "ws_in ws' = rest" "r = Inr msg"
        "0 < timeout" "ws_now ws \<le> ws_now ws'" "ws_now ws' \<le> ws_now ws + timeout"
  using assms unfolding recv_json_def
  by (auto simp: Let_def max_def split: if_splits list.splits ws_frame.splits pyval.splits)

lemma recv_json_sent: "recv_json timeout ws = (r, ws') \<Longrightarrow> ws_sent ws' = ws_sent ws"
  by (auto simp: recv_json_def Let_def split: if_splits list.splits ws_frame.splits pyval.splits)

lemma send_json_cases:
  assumes "send_json payload ws = (r, ws')"
  obtains (lost) "r = Inl WsClosedError" "ws' = ws"
    | (sent) "r = Inr ()" "ws' = ws\<lparr>ws_sent := ws_sent ws @ [PyDict payload]\<rparr>"
  using assms unfolding send_json_def by (auto split: list.splits ws_frame.splits if_splits)

section \<open>Waiting for an answer\<close>

definition not_result :: "int \<Rightarrow> rat \<times> ws_frame \<Rightarrow> bool" where
  "not_result i f \<longleftrightarrow> (\<exists>msg. snd f = WsText (PyDict msg) \<and> \<not> is_result i msg)"

text \<open>One round of the loop.\<close>

lemma request_loop_step:
  assumes "recv_json (deadline - ws_now ws) ws = (r1, ws1)" and "ws_now ws < deadline"
  shows "request_loop i deadline ws = (case r1 of Inl e \<Rightarrow> (Inl e, ws1)
    | Inr msg \<Rightarrow> if is_result i msg then (Inr msg, ws1) else request_loop i deadline ws1)"
  using assms by (subst request_loop.simps) (simp add: Let_def split: sum.splits)

definition loop_ends :: "int \<Rightarrow> rat \<Rightarrow> ws_exc + (string, pyval) dict \<Rightarrow> (rat \<times> ws_frame) list \<Rightarrow> ws_conn \<Rightarrow> bool" where
  "loop_ends i deadline r rest ws' \<longleftrightarrow>
     (case r of
        Inr msg \<Rightarrow> is_result i msg \<and> (\<exists>t. rest = (t, WsText (PyDict msg)) # ws_in ws')
      | Inl WsTimeoutError \<Rightarrow> rest = ws_in ws' \<and> deadline \<le> ws_now ws'
      | Inl WsClosedError \<Rightarrow> rest = ws_in ws'
      | Inl e \<Rightarrow> e \<in> {WsRuntimeError, WsValueError} \<and> rest \<noteq> [] \<and> ws_in ws' = tl rest)"

lemma request_loop_spec:
  assumes "request_loop i deadline ws = (r, ws')"
  shows "ws_sent ws' = ws_sent ws \<and> ws_now ws \<le> ws_now ws' \<and> ws_now ws' \<le> max (ws_now ws) deadline
    \<and> (\<exists>skipped rest. ws_in ws = skipped @ rest \<and> list_all (not_result i) skipped \<and> loop_ends i deadline r rest ws')"
  using assms
proof (induction ws rule: measure_induct_rule [of "\<lambda>ws. length (ws_in ws)"])
  case (less ws)
  show ?case
  proof (cases "deadline \<le> ws_now ws")
    case True
    then have "r = Inl WsTimeoutError" "ws' = ws"
      using less(2) by (simp_all add: request_loop.simps [of i deadline ws])
    then show ?thesis
      using True by (auto simp: loop_ends_def intro: exI [of _ "[]"])
  next
    case False
    then have d: "ws_now ws < deadline"
      by simp
    obtain r1 ws1 where r1: "recv_json (deadline - ws_now ws) ws = (r1, ws1)"
      by fastforce
    note step = less(2) [unfolded request_loop_step [OF r1 d], symmetric]
    note sent = recv_json_sent [OF r1]
    from r1 show ?thesis
    proof (cases rule: recv_json_cases)
      case timeout
      then show ?thesis
        using step d sent by (auto simp: loop_ends_def intro: exI [of _ "[]"])
    next
      case lost
      then show ?thesis
        using step d sent by (auto simp: loop_ends_def intro: exI [of _ "[]"])
    next
      case (bad f t rest)
      then have "loop_ends i deadline r ((t, f) # rest) ws'"
        using step by (auto simp: loop_ends_def)
      then show ?thesis
        using bad step sent by (intro conjI exI [of _ "[]"] exI [of _ "(t, f) # rest"]) auto
    next
      case (msg t m rest)
      show ?thesis
      proof (cases "is_result i m")
        case True
        then have "loop_ends i deadline r ((t, WsText (PyDict m)) # rest) ws'"
          using step msg by (auto simp: loop_ends_def)
        then show ?thesis
          using True msg step sent by (intro conjI exI [of _ "[]"] exI [of _ "(t, WsText (PyDict m)) # rest"]) auto
      next
        case other: False
        then obtain skipped rest' where s: "ws_in ws1 = skipped @ rest'" "list_all (not_result i) skipped"
            "loop_ends i deadline r rest' ws'"
          and n: "ws_sent ws' = ws_sent ws1" "ws_now ws1 \<le> ws_now ws'" "ws_now ws' \<le> max (ws_now ws1) deadline"
          using less(1) [of ws1] step msg by auto
        have "list_all (not_result i) ((t, WsText (PyDict m)) # skipped)"
          using s(2) other by (simp add: not_result_def)
        moreover have "ws_in ws = ((t, WsText (PyDict m)) # skipped) @ rest'"
          using msg s(1) by simp
        moreover have "ws_now ws' \<le> max (ws_now ws) deadline"
          using n(3) msg d by auto
        ultimately show ?thesis
          using s(3) msg(5) n sent by (intro conjI exI [of _ "(t, WsText (PyDict m)) # skipped"] exI [of _ rest']) auto
      qed
    qed
  qed
qed

lemma ws_request_spec:
  "case ws_request i payload timeout ws of (r, ws') \<Rightarrow>
     ws_now ws \<le> ws_now ws' \<and> ws_now ws' \<le> ws_now ws + max 0 timeout
     \<and> (if ws_sent ws' = ws_sent ws then r = Inl WsClosedError \<and> ws' = ws
        else ws_sent ws' = ws_sent ws @ [PyDict ((''id'', PyInt i) # payload)]
          \<and> (\<exists>skipped rest. ws_in ws = skipped @ rest \<and> list_all (not_result i) skipped
              \<and> loop_ends i (ws_now ws + timeout) r rest ws'))"
proof -
  obtain r0 ws0 where s: "send_json ((''id'', PyInt i) # payload) ws = (r0, ws0)"
    by fastforce
  obtain r ws' where q: "ws_request i payload timeout ws = (r, ws')"
    by fastforce
  from s show ?thesis
  proof (cases rule: send_json_cases)
    case lost
    then show ?thesis
      by (simp add: ws_request_def s)
  next
    case sent
    then have "request_loop i (ws_now ws + timeout) ws0 = (r, ws')"
      using q by (simp add: ws_request_def s)
    from request_loop_spec [OF this] have
      "ws_sent ws' = ws_sent ws0" "ws_now ws \<le> ws_now ws'" "ws_now ws' \<le> max (ws_now ws) (ws_now ws + timeout)"
      "\<exists>skipped rest. ws_in ws = skipped @ rest \<and> list_all (not_result i) skipped \<and> loop_ends i (ws_now ws + timeout) r rest ws'"
      using sent by simp_all
    moreover have "max (ws_now ws) (ws_now ws + timeout) = ws_now ws + max 0 timeout"
      by auto
    ultimately show ?thesis
      using sent q by simp
  qed
qed


section \<open>Commands\<close>

text \<open>A success reply to command \<open>i\<close> is among the frames.\<close>

definition acknowledged :: "int \<Rightarrow> (rat \<times> ws_frame) list \<Rightarrow> bool" where
  "acknowledged i frames \<longleftrightarrow>
     (\<exists>t msg. (t, WsText (PyDict msg)) \<in> set frames \<and> is_result i msg \<and> py_bool (dget_or msg ''success'' PyNone))"

lemma acknowledged_append: "acknowledged i ys \<Longrightarrow> acknowledged i (xs @ ys)"
  by (auto simp: acknowledged_def)

lemma client_request_spec:
  assumes "client_request payload timeout c = (r, c')"
  shows "cl_next_id c' = cl_next_id c + 1"
    and "(ws_sent (cl_ws c') = ws_sent (cl_ws c) \<and> r = Inl WsClosedError)
      \<or> ws_sent (cl_ws c') = ws_sent (cl_ws c) @ [PyDict ((''id'', PyInt (cl_next_id c)) # payload)]"
    and "\<exists>pre. ws_in (cl_ws c) = pre @ ws_in (cl_ws c')"
    and "\<And>msg. r = Inr msg \<Longrightarrow> is_result (cl_next_id c) msg \<and> (\<exists>t. (t, WsText (PyDict msg)) \<in> set (ws_in (cl_ws c)))"
proof -
  obtain conn where q: "ws_request (cl_next_id c) payload timeout (cl_ws c) = (r, conn)" "c' = c\<lparr>cl_ws := conn, cl_next_id := cl_next_id c + 1\<rparr>"
    using assms by (auto simp: client_request_def split: prod.splits)
  show "cl_next_id c' = cl_next_id c + 1"
    using q by simp
  note w = ws_request_spec [where i = "cl_next_id c" and payload = payload and timeout = timeout and ws = "cl_ws c", unfolded q(1) prod.case]
  have ends: "(\<exists>pre. rest = pre @ ws_in conn) \<and> (\<forall>msg. r = Inr msg \<longrightarrow> is_result (cl_next_id c) msg \<and> (\<exists>t. (t, WsText (PyDict msg)) \<in> set rest))"
    if "loop_ends (cl_next_id c) d r rest conn" for d rest
  proof (cases r)
    case (Inl e)
    then show ?thesis
      using that by (cases e; cases rest) (auto simp: loop_ends_def)
  qed (use that in \<open>auto simp: loop_ends_def\<close>)
  have "((ws_sent conn = ws_sent (cl_ws c) \<and> r = Inl WsClosedError)
      \<or> ws_sent conn = ws_sent (cl_ws c) @ [PyDict ((''id'', PyInt (cl_next_id c)) # payload)])
    \<and> (\<exists>pre. ws_in (cl_ws c) = pre @ ws_in conn)
    \<and> (\<forall>msg. r = Inr msg \<longrightarrow> is_result (cl_next_id c) msg \<and> (\<exists>t. (t, WsText (PyDict msg)) \<in> set (ws_in (cl_ws c))))"
  proof (cases "ws_sent conn = ws_sent (cl_ws c)")
    case True
    then have "r = Inl WsClosedError" "conn = cl_ws c"
      using w by simp_all
    then show ?thesis
      by simp
  next
    case False
    then obtain skipped rest where k: "ws_in (cl_ws c) = skipped @ rest"
        "loop_ends (cl_next_id c) (ws_now (cl_ws c) + timeout) r rest conn"
        "ws_sent conn = ws_sent (cl_ws c) @ [PyDict ((''id'', PyInt (cl_next_id c)) # payload)]"
      using w unfolding if_not_P [OF False] by blast
    then obtain pre where "rest = pre @ ws_in conn"
        "\<forall>msg. r = Inr msg \<longrightarrow> is_result (cl_next_id c) msg \<and> (\<exists>t. (t, WsText (PyDict msg)) \<in> set rest)"
      using ends by blast
    moreover have "set rest \<subseteq> set (ws_in (cl_ws c))"
      using k(1) by simp
    ultimately show ?thesis
      using k(1,3) by (intro conjI disjI2 exI [of _ "skipped @ pre"]) (simp, simp, blast)
  qed
  then show "(ws_sent (cl_ws c') = ws_sent (cl_ws c) \<and> r = Inl WsClosedError)
      \<or> ws_sent (cl_ws c') = ws_sent (cl_ws c) @ [PyDict ((''id'', PyInt (cl_next_id c)) # payload)]"
    and "\<exists>pre. ws_in (cl_ws c) = pre @ ws_in (cl_ws c')"
    and "\<And>msg. r = Inr msg \<Longrightarrow> is_result (cl_next_id c) msg \<and> (\<exists>t. (t, WsText (PyDict msg)) \<in> set (ws_in (cl_ws c)))"
    using q(2) by simp_all
qed

text \<open>A registry command sends its payload, unless the connection is lost; it is successful only if it
  was acknowledged.\<close>

lemma registry_command_spec:
  assumes "registry_command payload timeout c = (r, c')"
  shows "cl_next_id c' = cl_next_id c + 1"
    and "(ws_sent (cl_ws c') = ws_sent (cl_ws c) \<and> (\<exists>e. r = Inl e))
      \<or> ws_sent (cl_ws c') = ws_sent (cl_ws c) @ [PyDict ((''id'', PyInt (cl_next_id c)) # payload)]"
    and "\<exists>pre. ws_in (cl_ws c) = pre @ ws_in (cl_ws c')"
    and "r = Inr True \<Longrightarrow> acknowledged (cl_next_id c) (ws_in (cl_ws c))"
proof -
  obtain r0 where c: "client_request payload timeout c = (r0, c')"
    and r: "r = (case r0 of Inl WsTimeoutError \<Rightarrow> Inr False | Inl e \<Rightarrow> Inl e | Inr reply \<Rightarrow> Inr (py_bool (dget_or reply ''success'' PyNone)))"
    using assms by (auto simp: registry_command_def split: prod.splits sum.splits ws_exc.splits)
  note s = client_request_spec [OF c]
  show "cl_next_id c' = cl_next_id c + 1" "\<exists>pre. ws_in (cl_ws c) = pre @ ws_in (cl_ws c')"
    by (fact s)+
  show "(ws_sent (cl_ws c') = ws_sent (cl_ws c) \<and> (\<exists>e. r = Inl e))
      \<or> ws_sent (cl_ws c') = ws_sent (cl_ws c) @ [PyDict ((''id'', PyInt (cl_next_id c)) # payload)]"
    using s(2) r by auto
  show "r = Inr True \<Longrightarrow> acknowledged (cl_next_id c) (ws_in (cl_ws c))"
    using s(4) r by (auto simp: acknowledged_def split: sum.splits ws_exc.splits)
qed

section \<open>Loops of commands\<close>

text \<open>The payloads of commands numbered from \<open>i\<close> on.\<close>

fun numbered_from :: "int \<Rightarrow> (string, pyval) dict list \<Rightarrow> pyval list" where
  "numbered_from i [] = []"
| "numbered_from i (p # ps) = PyDict ((''id'', PyInt i) # p) # numbered_from (i + 1) ps"

text \<open>How a run ends that got as far as its commands, numbered from 2 on: with 0 if every command was sent
  and acknowledged, with 6 if all were sent and one was not, with 2 or an exception if the connection or
  a reply broke. \<open>k\<close> of \<open>n\<close> commands were sent.\<close>

definition loop_exit :: "ws_exc + nat \<times> 'b list \<Rightarrow> tool_exc + nat" where
  "loop_exit r = (case r of Inl e \<Rightarrow> ws_exit e | Inr (n, failures) \<Rightarrow> Inr (if failures \<noteq> [] then 6 else 0))"

definition all_acknowledged :: "(rat \<times> ws_frame) list \<Rightarrow> nat \<Rightarrow> bool" where
  "all_acknowledged fs n \<longleftrightarrow> list_all (\<lambda>j. acknowledged (2 + int j) fs) [0..<n]"

lemma all_acknowledged_append: "all_acknowledged ys n \<Longrightarrow> all_acknowledged (xs @ ys) n"
  by (auto simp: all_acknowledged_def list_all_iff acknowledged_append)

definition commands_end :: "tool_exc + nat \<Rightarrow> (rat \<times> ws_frame) list \<Rightarrow> nat \<Rightarrow> nat \<Rightarrow> bool" where
  "commands_end r fs k n \<longleftrightarrow>
     (case r of
        Inl e \<Rightarrow> e = ToolValueError
      | Inr code \<Rightarrow> if code = 0 then k = n \<and> all_acknowledged fs n else if code = 6 then k = n else code = 2)"

lemma commands_end_append: "commands_end r ys k n \<Longrightarrow> commands_end r (xs @ ys) k n"
  using all_acknowledged_append by (auto simp: commands_end_def split: sum.splits if_splits)

text \<open>The contract of a tool that applies a list of commands one by one, counts the successful ones and
  collects the others.\<close>

locale command_loop =
  fixes payload :: "'a \<Rightarrow> (string, pyval) dict"
    and label :: "'a \<Rightarrow> 'b"
    and run :: "rat \<Rightarrow> 'a list \<Rightarrow> ws_client \<Rightarrow> (ws_exc + nat \<times> 'b list) \<times> ws_client"
  assumes run_Nil: "run timeout [] c = (Inr (0, []), c)"
    and run_Cons: "run timeout (x # xs) c =
      (case registry_command (payload x) timeout c of
         (Inl e, c') \<Rightarrow> (Inl e, c')
       | (Inr ok, c') \<Rightarrow>
           (case run timeout xs c' of
              (Inl e, c'') \<Rightarrow> (Inl e, c'')
            | (Inr (n, failures), c'') \<Rightarrow> (Inr (if ok then (Suc n, failures) else (n, label x # failures)), c'')))"
begin

text \<open>The commands are sent in order; if no exception ends the loop all of them are, and each is either
  counted or listed.\<close>

lemma run_sent:
  assumes "run timeout xs c = (r, c')"
  shows "(\<exists>k. k \<le> length xs \<and> ws_sent (cl_ws c') = ws_sent (cl_ws c) @ numbered_from (cl_next_id c) (map payload (take k xs))
        \<and> (\<forall>n failures. r = Inr (n, failures) \<longrightarrow> k = length xs \<and> n + length failures = length xs))"
  using assms
proof (induction xs arbitrary: c r c')
  case Nil
  then show ?case
    by (auto simp: run_Nil)
next
  case (Cons x xs)
  obtain r1 c1 where q: "registry_command (payload x) timeout c = (r1, c1)"
    by fastforce
  note s = registry_command_spec [OF q]
  show ?case
  proof (cases r1)
    case (Inl e)
    then have "r = Inl e" "c' = c1"
      using Cons(2) by (simp_all add: run_Cons q)
    then show ?thesis
      using s(2) by (elim disjE) (auto intro: exI [of _ 0] exI [of _ 1])
  next
    case (Inr ok)
    obtain r2 c2 where q2: "run timeout xs c1 = (r2, c2)"
      by fastforce
    have c': "c' = c2" "\<And>n fs. r = Inr (n, fs) \<Longrightarrow> \<exists>n' fs'. r2 = Inr (n', fs') \<and> n + length fs = Suc (n' + length fs')"
      using Cons(2) by (auto simp: run_Cons q Inr q2 split: sum.splits prod.splits if_splits)
    obtain k where "k \<le> length xs" "ws_sent (cl_ws c2) = ws_sent (cl_ws c1) @ numbered_from (cl_next_id c1) (map payload (take k xs))"
      "\<forall>n fs. r2 = Inr (n, fs) \<longrightarrow> k = length xs \<and> n + length fs = length xs"
      using Cons.IH [OF q2] by blast
    moreover have "ws_sent (cl_ws c1) = ws_sent (cl_ws c) @ [PyDict ((''id'', PyInt (cl_next_id c)) # payload x)]"
      using s(2) Inr by simp
    ultimately show ?thesis
      using c' s(1) by (intro exI [of _ "Suc k"]) fastforce
  qed
qed

lemma run_acknowledged:
  assumes "run timeout xs c = (Inr (n, []), c')" and "j < length xs"
  shows "acknowledged (cl_next_id c + int j) (ws_in (cl_ws c))"
  using assms
proof (induction xs arbitrary: c n j)
  case (Cons x xs)
  obtain r1 c1 where q: "registry_command (payload x) timeout c = (r1, c1)"
    by fastforce
  note s = registry_command_spec [OF q]
  obtain n' where r1: "r1 = Inr True" and rest: "run timeout xs c1 = (Inr (n', []), c')"
    using Cons(2) by (auto simp: run_Cons q split: sum.splits prod.splits if_splits)
  obtain pre where pre: "ws_in (cl_ws c) = pre @ ws_in (cl_ws c1)"
    using s(3) by blast
  show ?case
  proof (cases j)
    case 0
    then show ?thesis
      using s(4) r1 by simp
  next
    case (Suc i)
    then have "acknowledged (cl_next_id c1 + int i) (ws_in (cl_ws c1))"
      using Cons.IH [OF rest] Cons(3) by simp
    then show ?thesis
      using acknowledged_append [of _ _ pre] s(1) Suc by (simp add: pre add.commute add.left_commute)
  qed
qed simp

lemma run_end:
  assumes "run timeout xs c = (r, c')" and "cl_next_id c = 2"
  shows "\<exists>k \<le> length xs. ws_sent (cl_ws c') = ws_sent (cl_ws c) @ numbered_from 2 (map payload (take k xs))
      \<and> commands_end (loop_exit r) (ws_in (cl_ws c)) k (length xs)"
proof -
  from run_sent [OF assms(1)] obtain k where k: "k \<le> length xs"
      "ws_sent (cl_ws c') = ws_sent (cl_ws c) @ numbered_from 2 (map payload (take k xs))"
      "\<forall>n failures. r = Inr (n, failures) \<longrightarrow> k = length xs \<and> n + length failures = length xs"
    unfolding assms(2) by blast
  have "commands_end (loop_exit r) (ws_in (cl_ws c)) k (length xs)"
  proof (cases r)
    case (Inl e)
    then show ?thesis
      by (cases e) (simp_all add: commands_end_def loop_exit_def)
  next
    case (Inr p)
    obtain n failures where p: "p = (n, failures)"
      by (cases p)
    have "all_acknowledged (ws_in (cl_ws c)) (length xs)" if "failures = []"
      using run_acknowledged [of timeout xs c n c'] assms Inr p that
      by (auto simp: all_acknowledged_def list_all_iff)
    then show ?thesis
      using k(3) Inr p by (auto simp: commands_end_def loop_exit_def)
  qed
  then show ?thesis
    using k(1,2) by blast
qed

end

section \<open>Before the commands\<close>

lemma recv_json_in: "recv_json timeout ws = (r, ws') \<Longrightarrow> \<exists>pre. ws_in ws = pre @ ws_in ws'"
  by (auto elim!: recv_json_cases)

lemma auth_keeps:
  assumes "auth ha_token timeout ws = (r, ws')"
  shows "(\<exists>pre. ws_in ws = pre @ ws_in ws')
    \<and> ws_sent ws' \<in> {ws_sent ws, ws_sent ws @ [PyDict [(''type'', PyStr ''auth''), (''access_token'', PyStr ha_token)]]}"
proof -
  obtain r1 ws1 where 1: "recv_json timeout ws = (r1, ws1)"
    by fastforce
  obtain r2 ws2 where 2: "send_json [(''type'', PyStr ''auth''), (''access_token'', PyStr ha_token)] ws1 = (r2, ws2)"
    by fastforce
  obtain r3 ws3 where 3: "recv_json timeout ws2 = (r3, ws3)"
    by fastforce
  have "ws' \<in> {ws1, ws2, ws3}"
    using assms by (auto simp: auth_def 1 2 3 split: sum.splits if_splits)
  moreover have "ws_in ws2 = ws_in ws1" "ws_sent ws2 \<in> {ws_sent ws1, ws_sent ws1 @ [PyDict [(''type'', PyStr ''auth''), (''access_token'', PyStr ha_token)]]}"
    using 2 by (auto elim: send_json_cases)
  ultimately show ?thesis
    using recv_json_sent [OF 1] recv_json_sent [OF 3] recv_json_in [OF 1] recv_json_in [OF 3] by auto
qed

text \<open>The frames that a run can read.\<close>

definition frames :: "ws_exc + ws_conn \<Rightarrow> (rat \<times> ws_frame) list" where
  "frames opened = (case opened of Inl _ \<Rightarrow> [] | Inr conn \<Rightarrow> ws_in conn)"

definition handshake_only :: "pyval list \<Rightarrow> bool" where
  "handshake_only sent \<longleftrightarrow> (\<exists>ha_token. sent \<in> {[], [PyDict [(''type'', PyStr ''auth''), (''access_token'', PyStr ha_token)]]})"

lemma client_enter_spec:
  assumes "client_enter ha_token timeout opened = (r, sent)"
  shows "handshake_only sent"
    and "r = Inr c \<Longrightarrow> cl_next_id c = 1 \<and> ws_sent (cl_ws c) = sent \<and> (\<exists>pre. frames opened = pre @ ws_in (cl_ws c))"
proof -
  have a: "handshake_only sent \<and> (\<forall>c. r = Inr c \<longrightarrow> cl_next_id c = 1 \<and> ws_sent (cl_ws c) = sent \<and> (\<exists>pre. frames opened = pre @ ws_in (cl_ws c)))"
  proof (cases opened)
    case (Inl e)
    then show ?thesis
      using assms by (auto simp: client_enter_def handshake_only_def)
  next
    case (Inr conn)
    obtain r' conn' where a: "auth ha_token timeout (conn\<lparr>ws_sent := []\<rparr>) = (r', conn')"
      by fastforce
    have "sent = ws_sent conn'" "\<And>c. r = Inr c \<Longrightarrow> cl_next_id c = 1 \<and> cl_ws c = conn'"
      using assms Inr a by (auto simp: client_enter_def split: sum.splits)
    moreover have "handshake_only (ws_sent conn')" "\<exists>pre. ws_in conn = pre @ ws_in conn'"
      using auth_keeps [OF a] by (auto simp: handshake_only_def)
    ultimately show ?thesis
      using Inr by (auto simp: frames_def)
  qed
  then show "handshake_only sent"
    and "r = Inr c \<Longrightarrow> cl_next_id c = 1 \<and> ws_sent (cl_ws c) = sent \<and> (\<exists>pre. frames opened = pre @ ws_in (cl_ws c))"
    by blast+
qed

text \<open>The registry that a run works on is a reply among the frames.\<close>

definition registry_read :: "(pyval \<Rightarrow> string) \<Rightarrow> (rat \<times> ws_frame) list \<Rightarrow> registry_entry list \<Rightarrow> bool" where
  "registry_read repr fs registry \<longleftrightarrow>
     (\<exists>t reply. (t, WsText (PyDict reply)) \<in> set fs \<and> is_result 1 reply \<and> parse_registry repr reply = Inr registry)"

definition list_payload :: pyval where
  "list_payload = PyDict [(''id'', PyInt 1), (''type'', PyStr ''config/entity_registry/list'')]"

lemma list_entity_registry_spec:
  assumes "list_entity_registry repr timeout c = (r, c')" and "cl_next_id c = 1"
  shows "ws_sent (cl_ws c') \<in> {ws_sent (cl_ws c), ws_sent (cl_ws c) @ [list_payload]}"
    and "\<exists>pre. ws_in (cl_ws c) = pre @ ws_in (cl_ws c')"
    and "r = Inr registry \<Longrightarrow> cl_next_id c' = 2 \<and> registry_read repr (ws_in (cl_ws c)) registry"
proof -
  obtain r0 where q: "client_request [(''type'', PyStr ''config/entity_registry/list'')] timeout c = (r0, c')"
    and r: "r = bindE r0 (parse_registry repr)"
    using assms(1) by (auto simp: list_entity_registry_def split: prod.splits)
  note s = client_request_spec [OF q]
  show "ws_sent (cl_ws c') \<in> {ws_sent (cl_ws c), ws_sent (cl_ws c) @ [list_payload]}"
    using s(2) assms(2) by (auto simp: list_payload_def)
  show "\<exists>pre. ws_in (cl_ws c) = pre @ ws_in (cl_ws c')"
    by (rule s(3))
  show "r = Inr registry \<Longrightarrow> cl_next_id c' = 2 \<and> registry_read repr (ws_in (cl_ws c)) registry"
    using s(1,4) assms(2) unfolding r bindE_Inr_iff registry_read_def by fastforce
qed

section \<open>A conversation\<close>

text \<open>A registry with the given items, and the acknowledgement of one command.\<close>

definition demo_item :: "string \<Rightarrow> string \<Rightarrow> pyval" where
  "demo_item entity_id uid = PyDict [(''entity_id'', PyStr entity_id), (''unique_id'', PyStr uid), (''platform'', PyStr ''mqtt'')]"

definition demo_frames :: "pyval list \<Rightarrow> (rat \<times> ws_frame) list" where
  "demo_frames items =
     [(0, WsText (PyDict [(''type'', PyStr ''auth_required'')])),
      (1, WsText (PyDict [(''type'', PyStr ''auth_ok'')])),
      (2, WsText (PyDict [(''id'', PyInt 1), (''type'', PyStr ''result''), (''success'', PyBool True), (''result'', PyList items)])),
      (3, WsText (PyDict [(''id'', PyInt 2), (''type'', PyStr ''result''), (''success'', PyBool True)]))]"

lemma demo_url: "ha_base_to_ws_url ok ''http://ha'' = Some ''ws://ha/api/websocket''"
  by (simp add: ha_base_to_ws_url_def urlparse_def clean_url_def split_scheme_def scheme_char_def is_digit_def to_lower_def
      starts_with_def until_def without_params_def rstrip_slash_def Let_def)

lemma demo_enter: "client_enter ''token'' 10 (Inr \<lparr>ws_now = 0, ws_in = demo_frames items, ws_sent = []\<rparr>) =
   (Inr \<lparr>cl_ws = \<lparr>ws_now = 1, ws_in = drop 2 (demo_frames items),
      ws_sent = [PyDict [(''type'', PyStr ''auth''), (''access_token'', PyStr ''token'')]]\<rparr>, cl_next_id = 1\<rparr>,
    [PyDict [(''type'', PyStr ''auth''), (''access_token'', PyStr ''token'')]])"
  by (simp add: client_enter_def auth_def recv_json_def send_json_def demo_frames_def has_type_def dget_or_def Let_def)

lemma demo_list: "list_entity_registry repr 10 \<lparr>cl_ws = \<lparr>ws_now = 1, ws_in = drop 2 (demo_frames items), ws_sent = sent\<rparr>, cl_next_id = 1\<rparr> =
   (Inr (List.map_filter (entry_of repr) items),
    \<lparr>cl_ws = \<lparr>ws_now = 2, ws_in = drop 3 (demo_frames items), ws_sent = sent @ [list_payload]\<rparr>, cl_next_id = 2\<rparr>)"
  by (simp add: list_entity_registry_def client_request_def ws_request_def send_json_def demo_frames_def request_loop.simps recv_json_def
      Let_def is_result_def has_type_def dget_or_def parse_registry_def list_payload_def)

lemma demo_command: "registry_command payload 10 \<lparr>cl_ws = \<lparr>ws_now = 2, ws_in = drop 3 (demo_frames items), ws_sent = sent\<rparr>, cl_next_id = 2\<rparr> =
   (Inr True, \<lparr>cl_ws = \<lparr>ws_now = 3, ws_in = [], ws_sent = sent @ [PyDict ((''id'', PyInt 2) # payload)]\<rparr>, cl_next_id = 3\<rparr>)"
  by (simp add: registry_command_def client_request_def ws_request_def send_json_def demo_frames_def request_loop.simps recv_json_def
      Let_def is_result_def has_type_def dget_or_def)

lemma demo_entry: "s \<noteq> [] \<Longrightarrow> entry_of repr (demo_item s u) =
    Some \<lparr>re_entity_id = s, re_unique_id = u, re_platform = ''mqtt'', re_raw = [(''entity_id'', PyStr s), (''unique_id'', PyStr u), (''platform'', PyStr ''mqtt'')]\<rparr>"
  by (simp add: entry_of_def demo_item_def dget_or_def text_or_empty_def)

end
