(* ===== verification/Purge_Runs.thy ===== *)
theory Purge_Runs
  imports Purge_Tool Ws_Runs Cleanup_Runs
begin

text \<open>
  Runs of the purge: what is removed, exactly, and how a run ends; that with the repository's own
  specification nothing the bridge announces is removed; and that without the file there is no such
  protection.
\<close>

text \<open>The entities whose removal was sent.\<close>

definition removal_of :: "pyval \<Rightarrow> string option" where
  "removal_of p =
     (case p of
        PyDict d \<Rightarrow>
          if has_type d ''config/entity_registry/remove''
          then (case dget d ''entity_id'' of Some (PyStr s) \<Rightarrow> Some s | _ \<Rightarrow> None) else None
      | _ \<Rightarrow> None)"

definition removals :: "pyval list \<Rightarrow> string list" where
  "removals sent = List.map_filter removal_of sent"

lemma removals_append [simp]: "removals (xs @ ys) = removals xs @ removals ys"
  by (simp add: removals_def map_filter_def)

lemma removals_Nil [simp]: "removals [] = []"
  by (simp add: removals_def)

definition remove_payload :: "string \<Rightarrow> (string, pyval) dict" where
  "remove_payload entity_id = [(''type'', PyStr ''config/entity_registry/remove''), (''entity_id'', PyStr entity_id)]"

lemma removal_of_payload: "removal_of (PyDict ((''id'', i) # remove_payload e)) = Some e"
  by (simp add: removal_of_def remove_payload_def has_type_def dget_or_def)

lemma removals_numbered: "removals (numbered_from i (map (\<lambda>c. remove_payload (re_entity_id c)) cs)) = map re_entity_id cs"
  by (induction cs arbitrary: i) (simp_all add: removals_def removal_of_payload List.map_filter_simps)

interpretation removing: command_loop "\<lambda>c. remove_payload (re_entity_id c)" re_entity_id purge_apply
proof
  show "purge_apply timeout [] c = (Inr (0, []), c)" for timeout c
    by simp
  show "purge_apply timeout (x # xs) c =
      (case registry_command (remove_payload (re_entity_id x)) timeout c of
         (Inl e, c') \<Rightarrow> (Inl e, c')
       | (Inr ok, c') \<Rightarrow>
           (case purge_apply timeout xs c' of
              (Inl e, c'') \<Rightarrow> (Inl e, c'')
            | (Inr (n, failures), c'') \<Rightarrow> (Inr (if ok then (Suc n, failures) else (n, re_entity_id x # failures)), c'')))"
    for timeout x xs c
    by (simp add: remove_entity_def remove_payload_def)
qed

lemma removals_before: "handshake_only sent \<Longrightarrow> removals sent = []" "removals [list_payload] = []"
  by (auto simp: handshake_only_def removals_def removal_of_def has_type_def dget_or_def list_payload_def List.map_filter_simps)

definition safety_net :: "(pyval \<Rightarrow> string) \<Rightarrow> purge_args \<Rightarrow> tool_exc + string set option" where
  "safety_net repr args = (case pa_canonical_spec args of None \<Rightarrow> Inr None | Some file \<Rightarrow> load_safety_net repr file)"

definition zombies ::
  "purge_args \<Rightarrow> int \<Rightarrow> state_record list \<Rightarrow> registry_entry list \<Rightarrow> string set option \<Rightarrow> registry_entry list" where
  "zombies args now states registry net =
     select_candidates registry states (pa_domain args) (pa_min_age_s args) (pa_include_stale_values args) net now"

lemma removals_sent:
  assumes "purge_apply timeout cs c = (r, c')" and "cl_next_id c = 2"
  shows "\<exists>k \<le> length cs. removals (ws_sent (cl_ws c')) = removals (ws_sent (cl_ws c)) @ map re_entity_id (take k cs)
      \<and> commands_end (loop_exit r) (ws_in (cl_ws c)) k (length cs)"
  using removing.run_end [OF assms] by (auto simp: removals_numbered)

lemma purge_session_spec:
  assumes "purge_session repr args inp states c = (r, c')" and "cl_next_id c = 1"
  shows "if removals (ws_sent (cl_ws c')) = removals (ws_sent (cl_ws c)) then r \<noteq> Inr 6
    else pa_apply args \<and> (pa_yes args \<or> prompt_confirm (pi_answer inp))
      \<and> (\<exists>registry net k. registry_read repr (ws_in (cl_ws c)) registry \<and> safety_net repr args = Inr net
        \<and> removals (ws_sent (cl_ws c')) = removals (ws_sent (cl_ws c)) @ map re_entity_id (take k (zombies args (pi_now inp) states registry net))
        \<and> commands_end r (ws_in (cl_ws c)) k (length (zombies args (pi_now inp) states registry net)))"
proof -
  obtain r1 c1 where l: "list_entity_registry repr (pa_ws_timeout_s args) c = (r1, c1)"
    by fastforce
  note s = list_entity_registry_spec [OF l assms(2)]
  have sent: "removals (ws_sent (cl_ws c1)) = removals (ws_sent (cl_ws c))"
    using s(1) by (auto simp: removals_before)
  have le: "list_exit e \<noteq> Inr 6" for e
    by (cases e) simp_all
  show ?thesis
  proof (cases "\<exists>registry net. r1 = Inr registry \<and> safety_net repr args = Inr net \<and> pa_apply args
      \<and> zombies args (pi_now inp) states registry net \<noteq> [] \<and> (pa_yes args \<or> prompt_confirm (pi_answer inp))")
    case False
    then have "c' = c1 \<and> r \<noteq> Inr 6"
      using assms(1) le by (auto simp: purge_session_def l Let_def safety_net_def zombies_def split: sum.splits if_splits)
    then show ?thesis
      using sent by simp
  next
    case True
    then obtain registry net where g: "r1 = Inr registry" "safety_net repr args = Inr net" "pa_apply args"
      "zombies args (pi_now inp) states registry net \<noteq> []" "pa_yes args \<or> prompt_confirm (pi_answer inp)"
      by blast
    let ?Z = "zombies args (pi_now inp) states registry net"
    obtain r2 c2 where a: "purge_apply (pa_ws_timeout_s args) ?Z c1 = (r2, c2)"
      by fastforce
    have r: "c' = c2" "r = loop_exit r2"
      using assms(1) g a by (auto simp: purge_session_def l Let_def safety_net_def zombies_def loop_exit_def split: sum.splits prod.splits)
    have rd: "cl_next_id c1 = 2" "registry_read repr (ws_in (cl_ws c)) registry"
      using s(3) [OF g(1)] by simp_all
    obtain k where k: "k \<le> length ?Z" "removals (ws_sent (cl_ws c2)) = removals (ws_sent (cl_ws c1)) @ map re_entity_id (take k ?Z)"
      "commands_end r (ws_in (cl_ws c1)) k (length ?Z)"
      using removals_sent [OF a rd(1)] r by blast
    obtain pre where pre: "ws_in (cl_ws c) = pre @ ws_in (cl_ws c1)"
      using s(2) by blast
    have e: "commands_end r (ws_in (cl_ws c)) k (length ?Z)"
      using k(3) all_acknowledged_append [of "ws_in (cl_ws c1)" _ pre] pre by (auto simp: commands_end_def split: sum.splits if_splits)
    show ?thesis
    proof (cases "removals (ws_sent (cl_ws c')) = removals (ws_sent (cl_ws c))")
      case True
      then have "k = 0"
        using k r sent g(4) by simp
      then have "r \<noteq> Inr 6"
        using e g(4) by (auto simp: commands_end_def)
      then show ?thesis
        using True by simp
    next
      case False
      then show ?thesis
        using g rd(2) k(2) r(1) sent e by auto
    qed
  qed
qed

lemma purge_run_spec:
  "case purge_main repr fromiso host_ok args inp of (r, sent) \<Rightarrow>
     (if removals sent = [] then r \<noteq> Inr 6
      else pa_apply args \<and> (pa_yes args \<or> prompt_confirm (pi_answer inp))
        \<and> (\<exists>states registry net k. fetch_states fromiso (pi_rest inp) = Inr states
          \<and> registry_read repr (frames (pi_opened inp)) registry \<and> safety_net repr args = Inr net
          \<and> removals sent = map re_entity_id (take k (zombies args (pi_now inp) states registry net))
          \<and> commands_end r (frames (pi_opened inp)) k (length (zombies args (pi_now inp) states registry net))))"
proof -
  obtain r sent where m: "purge_main repr fromiso host_ok args inp = (r, sent)"
    by fastforce
  have we: "ws_exit e \<noteq> Inr 6" for e
    by (cases e) simp_all
  obtain r1 sent1 where en: "client_enter (pa_ha_token args) (pa_ws_timeout_s args) (pi_opened inp) = (r1, sent1)"
    by fastforce
  note n = client_enter_spec [OF en]
  show ?thesis
  proof (cases "\<exists>states c url. pa_domain args \<noteq> [] \<and> fetch_states fromiso (pi_rest inp) = Inr states
      \<and> ha_base_to_ws_url host_ok (pa_ha_base args) = Some url \<and> r1 = Inr c")
    case False
    then have "removals sent = [] \<and> r \<noteq> Inr 6"
      using m we removals_before(1) [OF n(1)]
      by (auto simp: purge_main_def purge_run_def en split: if_splits sum.splits option.splits fetch_exc.splits)
    then show ?thesis
      by (simp add: m)
  next
    case True
    then obtain states c url where g: "pa_domain args \<noteq> []" "fetch_states fromiso (pi_rest inp) = Inr states"
      "ha_base_to_ws_url host_ok (pa_ha_base args) = Some url" "r1 = Inr c"
      by blast
    obtain c' where s: "purge_session repr args inp states c = (r, c')" "sent = ws_sent (cl_ws c')"
      using m g by (auto simp: purge_main_def purge_run_def en split: prod.splits)
    have c: "cl_next_id c = 1" "removals (ws_sent (cl_ws c)) = []"
      using n(2) [OF g(4)] removals_before(1) [OF n(1)] by simp_all
    obtain pre where pre: "frames (pi_opened inp) = pre @ ws_in (cl_ws c)"
      using n(2) [OF g(4)] by blast
    have w: "commands_end r (ws_in (cl_ws c)) k z \<Longrightarrow> commands_end r (frames (pi_opened inp)) k z"
      "registry_read repr (ws_in (cl_ws c)) registry \<Longrightarrow> registry_read repr (frames (pi_opened inp)) registry" for k z registry
      using all_acknowledged_append [of "ws_in (cl_ws c)" _ pre] pre
      by (auto simp: commands_end_def registry_read_def split: sum.splits if_splits)
    show ?thesis
    proof (cases "removals sent = []")
      case True
      then show ?thesis
        using purge_session_spec [OF s(1) c(1)] m s(2) c(2) by simp
    next
      case False
      then show ?thesis
        using purge_session_spec [OF s(1) c(1)] m s(2) c(2) g(2) w by fastforce
    qed
  qed
qed


section \<open>The safety net\<close>

lemma load_repository_net: "load_safety_net repr (JsonDoc canonical_document) =
    Inr (Some (all_sensor_unique_ids (canonical_spec_of 2) \<union> cs_binary_sensors (canonical_spec_of 2)))"
proof -
  define A where "A = map key_to_unique_id (map fst AGGREGATE_SENSORS @ map fst ENERGY_SENSORS)"
  define P where "P = map fst PER_INVERTER_SENSORS"
  define M where "M = map key_to_unique_id (map fst META_SENSORS)"
  have d: "canonical_document = PyDict [(''version'', PyInt 3), (''aggregates'', PyList (map PyStr A)),
    (''per_inverter_suffixes'', PyList (map PyStr P)), (''meta'', PyList (map PyStr M)),
    (''binary_sensors'', PyList (map PyStr [''inverter_bridge_online'']))]"
    unfolding canonical_lists A_def P_def M_def by simp
  have i: "set [1..<Suc 2] = {1, 2}"
    by auto
  have "load_safety_net repr (JsonDoc canonical_document) = Inr (Some (set A \<union> set M \<union> {''inverter_bridge_online''}
      \<union> (\<Union>n \<in> {1, 2}. ikey n ` set P)))"
    unfolding d load_safety_net_def json_file.case pyval.case
    by (simp add: dget_or_def spec_set_texts image_image del: list.map)
  moreover have "set A = key_to_unique_id ` (fst ` set (AGGREGATE_SENSORS @ ENERGY_SENSORS))" "set M = key_to_unique_id ` (fst ` set META_SENSORS)"
    "set P = fst ` set PER_INVERTER_SENSORS"
    by (simp_all add: A_def M_def P_def image_Un image_image)
  ultimately show ?thesis
    unfolding all_sensor_unique_ids_def canonical_spec_of_def canonical_spec.simps i by auto
qed

text \<open>What the states say of an entity: nothing, or the last record of it that the answer has.\<close>

definition state_of :: "state_record list \<Rightarrow> string \<Rightarrow> state_record option" where
  "state_of states entity_id = map_of (rev (map (\<lambda>s. (sr_entity_id s, s)) states)) entity_id"

lemma state_by_id_lookup: "dget (state_by_id states) e = state_of states e"
  by (simp add: state_by_id_def state_of_def dget_dupdate split: option.split)

definition looks_dead :: "purge_args \<Rightarrow> int \<Rightarrow> state_record option \<Rightarrow> bool" where
  "looks_dead args now st \<longleftrightarrow>
     (case st of
        None \<Rightarrow> True
      | Some s \<Rightarrow>
          (case sr_last_updated s of
             None \<Rightarrow> sr_state s \<in> STALE_STATES
           | Some t \<Rightarrow> ple (pa_min_age_s args) (age_s now t) \<and> (sr_state s \<in> STALE_STATES \<or> pa_include_stale_values args)))"

lemma zombies_mem:
  "e \<in> set (zombies args now states registry net) \<longleftrightarrow>
     e \<in> set registry \<and> list_ex (\<lambda>p. starts_with p (re_entity_id e)) (pa_domain args)
     \<and> (re_unique_id e = [] \<or> re_unique_id e \<notin> (case net of None \<Rightarrow> {} | Some uids \<Rightarrow> uids))
     \<and> looks_dead args now (state_of states (re_entity_id e))"
  by (auto simp: zombies_def select_candidates_def is_candidate_def state_by_id_lookup looks_dead_def split: option.splits)

text \<open>A removal that is right: a registered entity of one of the prefixes that looks dead and is none of
  those the bridge announces for two inverters.\<close>

definition rightly_removed ::
  "(pyval \<Rightarrow> string) \<Rightarrow> iso_reader \<Rightarrow> purge_args \<Rightarrow> purge_in \<Rightarrow> string \<Rightarrow> bool" where
  "rightly_removed repr fromiso args inp entity_id \<longleftrightarrow>
     (\<exists>states registry e. fetch_states fromiso (pi_rest inp) = Inr states
      \<and> registry_read repr (frames (pi_opened inp)) registry \<and> e \<in> set registry \<and> re_entity_id e = entity_id
      \<and> list_ex (\<lambda>p. starts_with p entity_id) (pa_domain args)
      \<and> looks_dead args (pi_now inp) (state_of states entity_id)
      \<and> re_unique_id e \<notin> key_to_unique_id ` set (announced_keys 2) \<union> {''inverter_bridge_online''})"


section \<open>A run\<close>

text \<open>Two entities that have been unavailable for two hours: a leftover, and one of the bridge's own.\<close>

definition demo_state :: "string \<Rightarrow> string \<Rightarrow> pyval" where
  "demo_state entity_id state = PyDict [(''entity_id'', PyStr entity_id), (''state'', PyStr state), (''last_updated'', PyStr ''t'')]"

definition demo_purge_args :: "json_file option \<Rightarrow> bool \<Rightarrow> purge_args" where
  "demo_purge_args file stale =
     \<lparr>pa_ha_base = ''http://ha'', pa_ha_token = ''token'', pa_min_age_s = DEFAULT_MIN_AGE_S, pa_domain = DEFAULT_DOMAINS,
      pa_ws_timeout_s = 10, pa_yes = True, pa_include_stale_values = stale, pa_canonical_spec = file, pa_apply = True\<rparr>"

definition demo_purge_in :: "pyval list \<Rightarrow> pyval list \<Rightarrow> purge_in" where
  "demo_purge_in states items =
     \<lparr>pi_rest = RestJson (PyList states), pi_opened = Inr \<lparr>ws_now = 0, ws_in = demo_frames items, ws_sent = []\<rparr>,
      pi_now = 7200000000, pi_answer = None\<rparr>"

lemma demo_age: "ple DEFAULT_MIN_AGE_S (age_s 7200000000 0)"
  using fl_int [of 7200] by (simp add: age_s_def DEFAULT_MIN_AGE_S_def mkf_def dbl_limit_def Let_def)

text \<open>The run when one of the items is selected.\<close>

lemma demo_purge_run:
  assumes "fetch_states fromiso (RestJson (PyList states)) = Inr srs" and "safety_net repr (demo_purge_args file stale) = Inr net"
    and "zombies (demo_purge_args file stale) 7200000000 srs (List.map_filter (entry_of repr) items) net = [e]"
  shows "\<exists>sent. purge_main repr fromiso ok (demo_purge_args file stale) (demo_purge_in states items) = (Inr 0, sent) \<and> removals sent = [re_entity_id e]"
proof -
  let ?auth = "PyDict [(''type'', PyStr ''auth''), (''access_token'', PyStr ''token'')]"
  have "purge_main repr fromiso ok (demo_purge_args file stale) (demo_purge_in states items) =
      (Inr 0, [?auth, list_payload, PyDict ((''id'', PyInt 2) # remove_payload (re_entity_id e))])"
    using assms demo_enter [of items] demo_list [of repr items "[?auth]"]
    by (simp add: purge_main_def purge_run_def demo_purge_in_def demo_purge_args_def demo_url DEFAULT_DOMAINS_def purge_session_def
        safety_net_def zombies_def remove_entity_def demo_command remove_payload_def Let_def)
  then show ?thesis
    by (simp add: removals_def List.map_filter_simps removal_of_def has_type_def dget_or_def list_payload_def remove_payload_def)
qed


lemma demo_states: "list_all (\<lambda>(s, _). s \<noteq> []) sts \<Longrightarrow>
    fetch_states (\<lambda>_. Some (0, Some 0)) (RestJson (PyList (map (\<lambda>(s, v). demo_state s v) sts))) =
      Inr (map (\<lambda>(s, v). \<lparr>sr_entity_id = s, sr_state = v, sr_last_updated = Some 0\<rparr>) sts)"
proof -
  assume "list_all (\<lambda>(s, _). s \<noteq> []) sts"
  then have "states_of (\<lambda>_. Some (0, Some 0)) (map (\<lambda>(s, v). demo_state s v) sts) =
      Inr (map (\<lambda>(s, v). \<lparr>sr_entity_id = s, sr_state = v, sr_last_updated = Some 0\<rparr>) sts)"
    by (induction sts) (auto simp: demo_state_def dget_or_def parse_iso8601_def)
  then show ?thesis
    by (simp add: fetch_states_def)
qed

abbreviation old_id :: string where
  "old_id \<equiv> ''sensor.solar_assistant_old''"

abbreviation load_id :: string where
  "load_id \<equiv> ''sensor.solar_assistant_load''"

lemma old_not_canonical: "''gadi_old'' \<notin> all_sensor_unique_ids (canonical_spec_of 2) \<union> cs_binary_sensors (canonical_spec_of 2)"
  using canonical_heads [of "''gadi_old''" 2] by auto

lemma load_canonical: "''total_load_power'' \<in> all_sensor_unique_ids (canonical_spec_of 2)"
proof -
  have "key_to_unique_id ''load_power'' = ''total_load_power''"
    by (simp add: key_to_unique_id_def starts_with_def)
  moreover have "''load_power'' \<in> fst ` set AGGREGATE_SENSORS"
    by (simp add: AGGREGATE_SENSORS_def)
  then have "''load_power'' \<in> set (announced_keys 2)"
    unfolding announced_keys_eq set_append set_map Un_iff by blast
  ultimately show ?thesis
    using announced_canonical [of "''load_power''" 2 2] by simp
qed

lemma demo_purge: "\<exists>sent. purge_main repr (\<lambda>_. Some (0, Some 0)) ok (demo_purge_args (Some (JsonDoc canonical_document)) False)
      (demo_purge_in (map (\<lambda>(s, v). demo_state s v) [(old_id, ''unavailable''), (load_id, ''unavailable'')])
        [demo_item old_id ''gadi_old'', demo_item load_id ''total_load_power'']) = (Inr 0, sent) \<and> removals sent = [old_id]"
proof -
  define e where "e = \<lparr>re_entity_id = old_id, re_unique_id = ''gadi_old'', re_platform = ''mqtt'',
    re_raw = [(''entity_id'', PyStr old_id), (''unique_id'', PyStr ''gadi_old''), (''platform'', PyStr ''mqtt'')]\<rparr>"
  let ?args = "demo_purge_args (Some (JsonDoc canonical_document)) False"
  let ?net = "Some (all_sensor_unique_ids (canonical_spec_of 2) \<union> cs_binary_sensors (canonical_spec_of 2))"
  have net: "safety_net repr ?args = Inr ?net"
    by (simp add: safety_net_def demo_purge_args_def load_repository_net)
  have z: "zombies ?args 7200000000 (map (\<lambda>(s, v). \<lparr>sr_entity_id = s, sr_state = v, sr_last_updated = Some 0\<rparr>)
        [(old_id, ''unavailable''), (load_id, ''unavailable'')])
      (List.map_filter (entry_of repr) [demo_item old_id ''gadi_old'', demo_item load_id ''total_load_power'']) ?net = [e]"
    using old_not_canonical load_canonical demo_age
    by (simp add: zombies_def select_candidates_def is_candidate_def demo_entry List.map_filter_simps demo_purge_args_def DEFAULT_DOMAINS_def
        starts_with_def state_by_id_def dupdate_def STALE_STATES_def e_def)
  show ?thesis
    using demo_purge_run [OF demo_states net z] by (simp add: e_def)
qed

definition demo_leftovers :: purge_in where
  "demo_leftovers = demo_purge_in (map (\<lambda>(s, v). demo_state s v) [(old_id, ''unavailable''), (load_id, ''unavailable'')])
     [demo_item old_id ''gadi_old'', demo_item load_id ''total_load_power'']"


text \<open>The safety net is not one: with a specification file that cannot be found the run goes on without it,
  and with stale values included it removes a live entity of the bridge whose value has not changed.\<close>

theorem purge_without_net:
  "\<exists>sent. purge_main repr (\<lambda>_. Some (0, Some 0)) ok (demo_purge_args (Some NoFile) True)
      (demo_purge_in (map (\<lambda>(s, v). demo_state s v) [(load_id, ''500'')]) [demo_item load_id ''total_load_power'']) = (Inr 0, sent)
    \<and> removals sent = [load_id]"
proof -
  define e where "e = \<lparr>re_entity_id = load_id, re_unique_id = ''total_load_power'', re_platform = ''mqtt'',
    re_raw = [(''entity_id'', PyStr load_id), (''unique_id'', PyStr ''total_load_power''), (''platform'', PyStr ''mqtt'')]\<rparr>"
  let ?args = "demo_purge_args (Some NoFile) True"
  have net: "safety_net repr ?args = Inr None"
    by (simp add: safety_net_def demo_purge_args_def load_safety_net_def)
  have z: "zombies ?args 7200000000 (map (\<lambda>(s, v). \<lparr>sr_entity_id = s, sr_state = v, sr_last_updated = Some 0\<rparr>) [(load_id, ''500'')])
      (List.map_filter (entry_of repr) [demo_item load_id ''total_load_power'']) None = [e]"
    using demo_age
    by (simp add: zombies_def select_candidates_def is_candidate_def demo_entry List.map_filter_simps demo_purge_args_def DEFAULT_DOMAINS_def
        starts_with_def state_by_id_def dupdate_def STALE_STATES_def e_def)
  show ?thesis
    using demo_purge_run [OF demo_states net z] by (simp add: e_def)
qed

end
