(* ===== verification/Rename_Tool.thy ===== *)
theory Rename_Tool
  imports Ws_Client "HOL-Library.List_Lexorder" "HOL-Library.Char_ord"
begin

text \<open>
  \<open>tools/rename_ha_entities.py\<close>: the renames asked for (pairs, a mapping file, or the audit of the
  stray suffixes), their validation against the registry, and the run that applies them. The command
  line is its decoded arguments; the details of the printed plan are left out. A run is its exit code
  with everything sent on the WebSocket.
\<close>

section \<open>Asking for renames\<close>

record rename =
  rn_old :: string
  rn_new :: string

datatype rename_error = RnValueError | RnOsError

fun parse_pairs :: "string list \<Rightarrow> rename_error + rename list" where
  "parse_pairs [] = Inr []"
| "parse_pairs (raw # pairs) =
     (if CHR ''='' \<notin> set raw then Inl RnValueError
      else
        let old = strip (takeWhile (\<lambda>c. c \<noteq> CHR ''='') raw);
            new = strip (drop 1 (dropWhile (\<lambda>c. c \<noteq> CHR ''='') raw))
        in if old = [] \<or> new = [] then Inl RnValueError
           else bindE (parse_pairs pairs) (\<lambda>out. Inr (\<lparr>rn_old = old, rn_new = new\<rparr> # out)))"

fun mapping_items :: "(string, pyval) dict \<Rightarrow> rename_error + rename list" where
  "mapping_items [] = Inr []"
| "mapping_items ((old, PyStr new) # kvs) =
     (if old = [] \<or> new = [] then Inl RnValueError
      else bindE (mapping_items kvs) (\<lambda>out. Inr (\<lparr>rn_old = old, rn_new = new\<rparr> # out)))"
| "mapping_items ((_, _) # _) = Inl RnValueError"

definition load_mapping_file :: "json_file \<Rightarrow> rename_error + rename list" where
  "load_mapping_file file =
     (case file of
        NoFile \<Rightarrow> Inl RnOsError
      | OsErrorOnRead \<Rightarrow> Inl RnOsError
      | NotUtf8 \<Rightarrow> Inl RnValueError
      | BadJson \<Rightarrow> Inl RnValueError
      | JsonDoc (PyDict data) \<Rightarrow> mapping_items data
      | JsonDoc _ \<Rightarrow> Inl RnValueError)"

section \<open>The audit\<close>

definition AUDIT_F7_PREFIXES :: "string list" where
  "AUDIT_F7_PREFIXES = [''sensor.gadi_inverters_inverter_1_'', ''sensor.gadi_inverters_inverter_2_'']"

definition AUDIT_F7_STEM :: string where
  "AUDIT_F7_STEM = ''sensor.gadi_inverters_inverter_''"

text \<open>The match of the pattern: the digit and the base. The dot matches no newline; the end is the end of
  the text or a last newline.\<close>

definition audit_f7_match :: "string \<Rightarrow> (string \<times> string) option" where
  "audit_f7_match s =
     (let r = drop (length AUDIT_F7_STEM) s;
          rest = drop 2 r;
          body = (if ends_with [CHR 0x0A] rest then butlast rest else rest);
          base = take (length body - 2) body
      in if starts_with AUDIT_F7_STEM s \<and> take 1 r \<in> {''1'', ''2''} \<and> take 1 (drop 1 r) = ''_''
            \<and> ends_with ''_3'' body \<and> base \<noteq> [] \<and> CHR 0x0A \<notin> set base
         then Some (take 1 r, base) else None)"

definition by_entity_id :: "registry_entry list \<Rightarrow> (string, registry_entry) dict" where
  "by_entity_id registry = dupdate [] (map (\<lambda>e. (re_entity_id e, e)) registry)"

definition audit_rename :: "(string, registry_entry) dict \<Rightarrow> registry_entry \<Rightarrow> rename option" where
  "audit_rename by_id ent =
     (if \<not> list_ex (\<lambda>p. starts_with p (re_entity_id ent)) AUDIT_F7_PREFIXES then None
      else
        (case audit_f7_match (re_entity_id ent) of
           None \<Rightarrow> None
         | Some (inverter, base) \<Rightarrow>
             if re_unique_id ent \<noteq> ''inverter_'' @ inverter @ ''_'' @ base then None
             else
               let new_eid = AUDIT_F7_STEM @ inverter @ ''_'' @ base in
               (case dget by_id new_eid of
                  Some other \<Rightarrow>
                    if re_entity_id other \<noteq> re_entity_id ent then None
                    else Some \<lparr>rn_old = re_entity_id ent, rn_new = new_eid\<rparr>
                | None \<Rightarrow> Some \<lparr>rn_old = re_entity_id ent, rn_new = new_eid\<rparr>)))"

definition build_audit_f7_renames :: "registry_entry list \<Rightarrow> rename list" where
  "build_audit_f7_renames registry =
     sort_key rn_old (List.map_filter (audit_rename (by_entity_id registry)) registry)"

section \<open>Validation\<close>

datatype plan_status = PlanOk | NotFound | WouldCollide | DomainMismatch | Noop

record plan_item =
  pl_old :: string
  pl_new :: string
  pl_status :: plan_status

definition domain_of :: "string \<Rightarrow> string" where
  "domain_of entity_id = takeWhile (\<lambda>c. c \<noteq> CHR ''.'') entity_id"

definition validate_rename :: "(string, registry_entry) dict \<Rightarrow> rename \<Rightarrow> plan_status" where
  "validate_rename by_id rn =
     (if rn_old rn = rn_new rn then Noop
      else
        let dom_old = domain_of (rn_old rn); dom_new = domain_of (rn_new rn) in
        if dom_old = [] \<or> dom_new = [] \<or> dom_old \<noteq> dom_new then DomainMismatch
        else
          (case dget by_id (rn_old rn) of
             None \<Rightarrow> NotFound
           | Some _ \<Rightarrow>
               (case dget by_id (rn_new rn) of
                  None \<Rightarrow> PlanOk
                | Some other \<Rightarrow> if re_entity_id other \<noteq> rn_old rn then WouldCollide else PlanOk)))"

definition validate_renames :: "rename list \<Rightarrow> registry_entry list \<Rightarrow> plan_item list" where
  "validate_renames renames registry =
     map (\<lambda>rn. \<lparr>pl_old = rn_old rn, pl_new = rn_new rn, pl_status = validate_rename (by_entity_id registry) rn\<rparr>) renames"

section \<open>The run\<close>

fun rename_apply :: "rat \<Rightarrow> plan_item list \<Rightarrow> ws_client \<Rightarrow> (ws_exc + nat \<times> (string \<times> string) list) \<times> ws_client" where
  "rename_apply timeout [] client = (Inr (0, []), client)"
| "rename_apply timeout (p # ps) client =
     (case update_entity_id (pl_old p) (pl_new p) timeout client of
        (Inl e, client) \<Rightarrow> (Inl e, client)
      | (Inr ok, client) \<Rightarrow>
          (case rename_apply timeout ps client of
             (Inl e, client) \<Rightarrow> (Inl e, client)
           | (Inr (n_ok, failures), client) \<Rightarrow>
               (Inr (if ok then (Suc n_ok, failures) else (n_ok, (pl_old p, pl_new p) # failures)), client)))"

record rename_args =
  ra_ha_base :: string
  ra_ha_token :: string
  ra_mapping :: "json_file option"
  ra_pairs :: "string list"
  ra_audit_f7 :: bool
  ra_ws_timeout_s :: rat
  ra_yes :: bool
  ra_fail_on_blocked :: bool
  ra_apply :: bool

definition build_renames_from_args :: "rename_args \<Rightarrow> registry_entry list \<Rightarrow> rename_error + rename list" where
  "build_renames_from_args args registry =
     (if ra_audit_f7 args then Inr (build_audit_f7_renames registry)
      else
        (case ra_mapping args of
           Some file \<Rightarrow> load_mapping_file file
         | None \<Rightarrow> if ra_pairs args \<noteq> [] then parse_pairs (ra_pairs args) else Inr []))"

text \<open>What happens inside the context of the client; \<open>answer\<close> is what the prompt reads.\<close>

definition rename_session ::
  "(pyval \<Rightarrow> string) \<Rightarrow> rename_args \<Rightarrow> string option \<Rightarrow> ws_client \<Rightarrow> (tool_exc + nat) \<times> ws_client"
where
  "rename_session repr args answer client =
     (case list_entity_registry repr (ra_ws_timeout_s args) client of
        (Inl e, client) \<Rightarrow> (list_exit e, client)
      | (Inr registry, client) \<Rightarrow>
          (case build_renames_from_args args registry of
             Inl _ \<Rightarrow> (Inr 1, client)
           | Inr renames \<Rightarrow>
               if renames = [] then (Inr 0, client)
               else
                 let plan = validate_renames renames registry;
                     plan_ok = filter (\<lambda>p. pl_status p = PlanOk) plan;
                     plan_bad = filter (\<lambda>p. pl_status p \<noteq> PlanOk) plan;
                     blocked = (if plan_bad \<noteq> [] \<and> ra_fail_on_blocked args then 5 else 0)
                 in if \<not> ra_apply args then (Inr blocked, client)
                    else if plan_ok = [] then (Inr blocked, client)
                    else if \<not> ra_yes args \<and> \<not> prompt_confirm answer then (Inr 0, client)
                    else
                      (case rename_apply (ra_ws_timeout_s args) plan_ok client of
                         (Inl e, client) \<Rightarrow> (ws_exit e, client)
                       | (Inr (n_ok, failures), client) \<Rightarrow> (Inr (if failures \<noteq> [] then 6 else 0), client))))"

definition rename_run ::
  "(pyval \<Rightarrow> string) \<Rightarrow> (string \<Rightarrow> bool) \<Rightarrow> rename_args \<Rightarrow> ws_exc + ws_conn \<Rightarrow> string option \<Rightarrow> (tool_exc + nat) \<times> pyval list"
where
  "rename_run repr host_ok args opened answer =
     (case ha_base_to_ws_url host_ok (ra_ha_base args) of
        None \<Rightarrow> (Inl ToolValueError, [])
      | Some _ \<Rightarrow>
          (case client_enter (ra_ha_token args) (ra_ws_timeout_s args) opened of
             (Inl e, sent) \<Rightarrow> (ws_exit e, sent)
           | (Inr client, _) \<Rightarrow>
               (case rename_session repr args answer client of (r, client) \<Rightarrow> (r, ws_sent (cl_ws client)))))"

definition rename_main ::
  "(pyval \<Rightarrow> string) \<Rightarrow> (string \<Rightarrow> bool) \<Rightarrow> rename_args \<Rightarrow> ws_exc + ws_conn \<Rightarrow> string option \<Rightarrow> (tool_exc + nat) \<times> pyval list"
where
  "rename_main repr host_ok args opened answer =
     (let sources = length (filter id [ra_mapping args \<noteq> None, ra_pairs args \<noteq> [], ra_audit_f7 args]) in
      if sources = 0 then (Inr 1, [])
      else if 1 < sources then (Inr 1, [])
      else rename_run repr host_ok args opened answer)"

end
