(* ===== verification/Rename_Runs.thy ===== *)
theory Rename_Runs
  imports Rename_Tool Ws_Runs
begin

text \<open>
  Runs of the rename tool: which renames are sent and how a run ends; the audit, which proposes exactly
  the stray entities and keeps the ids of the registry distinct; and two things the validation and the
  exit code miss.
\<close>

text \<open>The renames that were sent.\<close>

definition update_payload :: "string \<Rightarrow> string \<Rightarrow> (string, pyval) dict" where
  "update_payload old new =
     [(''type'', PyStr ''config/entity_registry/update''), (''entity_id'', PyStr old), (''new_entity_id'', PyStr new)]"

definition update_of :: "pyval \<Rightarrow> (string \<times> string) option" where
  "update_of p =
     (case p of
        PyDict d \<Rightarrow>
          if has_type d ''config/entity_registry/update''
          then (case (dget d ''entity_id'', dget d ''new_entity_id'') of (Some (PyStr s), Some (PyStr t)) \<Rightarrow> Some (s, t) | _ \<Rightarrow> None)
          else None
      | _ \<Rightarrow> None)"

definition updates :: "pyval list \<Rightarrow> (string \<times> string) list" where
  "updates sent = List.map_filter update_of sent"

lemma updates_append [simp]: "updates (xs @ ys) = updates xs @ updates ys"
  by (simp add: updates_def map_filter_def)

lemma update_of_payload: "update_of (PyDict ((''id'', i) # update_payload old new)) = Some (old, new)"
  by (simp add: update_of_def update_payload_def has_type_def dget_or_def)

lemma updates_numbered: "updates (numbered_from i (map (\<lambda>p. update_payload (pl_old p) (pl_new p)) ps)) = map (\<lambda>p. (pl_old p, pl_new p)) ps"
  by (induction ps arbitrary: i) (simp_all add: updates_def update_of_payload List.map_filter_simps)

lemma updates_before: "handshake_only sent \<Longrightarrow> updates sent = []" "updates [list_payload] = []" "updates [] = []"
  by (auto simp: handshake_only_def updates_def update_of_def has_type_def dget_or_def list_payload_def List.map_filter_simps)

interpretation renaming: command_loop "\<lambda>p. update_payload (pl_old p) (pl_new p)" "\<lambda>p. (pl_old p, pl_new p)" rename_apply
proof
  show "rename_apply timeout [] c = (Inr (0, []), c)" for timeout c
    by simp
  show "rename_apply timeout (x # xs) c =
      (case registry_command (update_payload (pl_old x) (pl_new x)) timeout c of
         (Inl e, c') \<Rightarrow> (Inl e, c')
       | (Inr ok, c') \<Rightarrow>
           (case rename_apply timeout xs c' of
              (Inl e, c'') \<Rightarrow> (Inl e, c'')
            | (Inr (n, failures), c'') \<Rightarrow> (Inr (if ok then (Suc n, failures) else (n, (pl_old x, pl_new x) # failures)), c'')))"
    for timeout x xs c
    by (simp add: update_entity_id_def update_payload_def)
qed

section \<open>The plan\<close>

definition has_entity :: "registry_entry list \<Rightarrow> string \<Rightarrow> bool" where
  "has_entity registry s \<longleftrightarrow> s \<in> re_entity_id ` set registry"

lemma by_entity_id_lookup: "dget (by_entity_id registry) s = None \<longleftrightarrow> \<not> has_entity registry s"
  and by_entity_id_sound: "dget (by_entity_id registry) s = Some e \<Longrightarrow> e \<in> set registry \<and> re_entity_id e = s"
proof -
  have l: "dget (by_entity_id registry) s = map_of (rev (map (\<lambda>e. (re_entity_id e, e)) registry)) s"
    by (simp add: by_entity_id_def dget_dupdate split: option.split)
  show "dget (by_entity_id registry) s = None \<longleftrightarrow> \<not> has_entity registry s"
    by (auto simp: l map_of_eq_None_iff has_entity_def image_image)
  show "dget (by_entity_id registry) s = Some e \<Longrightarrow> e \<in> set registry \<and> re_entity_id e = s"
    by (auto simp: l dest!: map_of_SomeD)
qed

text \<open>A rename that is allowed: within one domain, from a registered entity to a free name.\<close>

definition allowed :: "registry_entry list \<Rightarrow> string \<times> string \<Rightarrow> bool" where
  "allowed registry = (\<lambda>(old, new). has_entity registry old \<and> \<not> has_entity registry new
     \<and> domain_of old = domain_of new \<and> domain_of old \<noteq> [])"

lemma validate_rename_ok: "validate_rename (by_entity_id registry) rn = PlanOk \<longleftrightarrow> allowed registry (rn_old rn, rn_new rn)"
proof -
  have "re_entity_id other = rn_new rn" if "dget (by_entity_id registry) (rn_new rn) = Some other" for other
    using by_entity_id_sound [OF that] by simp
  then show ?thesis
    using by_entity_id_lookup [of registry "rn_old rn"] by_entity_id_lookup [of registry "rn_new rn"]
    by (auto simp: validate_rename_def Let_def allowed_def split: option.splits)
qed

definition pairs :: "rename list \<Rightarrow> (string \<times> string) list" where
  "pairs rns = map (\<lambda>rn. (rn_old rn, rn_new rn)) rns"

lemma plan_ok: "map (\<lambda>p. (pl_old p, pl_new p)) (filter (\<lambda>p. pl_status p = PlanOk) (validate_renames rns registry)) =
    filter (allowed registry) (pairs rns)"
  by (induction rns) (simp_all add: validate_renames_def pairs_def validate_rename_ok)

section \<open>Runs\<close>

lemma updates_sent:
  assumes "rename_apply timeout ps c = (r, c')" and "cl_next_id c = 2"
  shows "\<exists>k \<le> length ps. updates (ws_sent (cl_ws c')) = updates (ws_sent (cl_ws c)) @ take k (map (\<lambda>p. (pl_old p, pl_new p)) ps)
      \<and> commands_end (loop_exit r) (ws_in (cl_ws c)) k (length ps)"
  using renaming.run_end [OF assms] by (auto simp: updates_numbered take_map)

lemma rename_session_spec:
  assumes "rename_session repr args answer c = (r, c')" and "cl_next_id c = 1"
  shows "if updates (ws_sent (cl_ws c')) = updates (ws_sent (cl_ws c)) then r \<noteq> Inr 6
    else ra_apply args \<and> (ra_yes args \<or> prompt_confirm answer)
      \<and> (\<exists>registry renames k. registry_read repr (ws_in (cl_ws c)) registry \<and> build_renames_from_args args registry = Inr renames
        \<and> updates (ws_sent (cl_ws c')) = updates (ws_sent (cl_ws c)) @ take k (filter (allowed registry) (pairs renames))
        \<and> commands_end r (ws_in (cl_ws c)) k (length (filter (allowed registry) (pairs renames))))"
proof -
  obtain r1 c1 where l: "list_entity_registry repr (ra_ws_timeout_s args) c = (r1, c1)"
    by fastforce
  note s = list_entity_registry_spec [OF l assms(2)]
  have sent: "updates (ws_sent (cl_ws c1)) = updates (ws_sent (cl_ws c))"
    using s(1) by (auto simp: updates_before)
  have le: "list_exit e \<noteq> Inr 6" for e
    by (cases e) simp_all
  show ?thesis
  proof (cases "\<exists>registry renames. r1 = Inr registry \<and> build_renames_from_args args registry = Inr renames \<and> ra_apply args
      \<and> filter (\<lambda>p. pl_status p = PlanOk) (validate_renames renames registry) \<noteq> [] \<and> (ra_yes args \<or> prompt_confirm answer)")
    case False
    then have "c' = c1 \<and> r \<noteq> Inr 6"
      using assms(1) le by (auto simp: rename_session_def l Let_def split: sum.splits if_splits)
    then show ?thesis
      using sent by simp
  next
    case True
    then obtain registry renames where g: "r1 = Inr registry" "build_renames_from_args args registry = Inr renames" "ra_apply args"
      "filter (\<lambda>p. pl_status p = PlanOk) (validate_renames renames registry) \<noteq> []" "ra_yes args \<or> prompt_confirm answer"
      by blast
    let ?P = "filter (\<lambda>p. pl_status p = PlanOk) (validate_renames renames registry)"
    let ?A = "filter (allowed registry) (pairs renames)"
    have ne: "renames \<noteq> []"
      using g(4) by (auto simp: validate_renames_def)
    have len: "length ?P = length ?A"
      using arg_cong [OF plan_ok [of renames registry], of length] by simp
    obtain r2 c2 where a: "rename_apply (ra_ws_timeout_s args) ?P c1 = (r2, c2)"
      by fastforce
    have r: "c' = c2" "r = loop_exit r2"
      using assms(1) g ne a by (auto simp: rename_session_def l Let_def loop_exit_def split: sum.splits prod.splits)
    have rd: "cl_next_id c1 = 2" "registry_read repr (ws_in (cl_ws c)) registry"
      using s(3) [OF g(1)] by simp_all
    obtain k where k: "k \<le> length ?A" "updates (ws_sent (cl_ws c2)) = updates (ws_sent (cl_ws c1)) @ take k ?A"
      "commands_end r (ws_in (cl_ws c1)) k (length ?A)"
      using updates_sent [OF a rd(1)] r unfolding plan_ok len by blast
    obtain pre where pre: "ws_in (cl_ws c) = pre @ ws_in (cl_ws c1)"
      using s(2) by blast
    have e: "commands_end r (ws_in (cl_ws c)) k (length ?A)"
      using commands_end_append [OF k(3), of pre] pre by simp
    show ?thesis
    proof (cases "updates (ws_sent (cl_ws c')) = updates (ws_sent (cl_ws c))")
      case True
      then have "k = 0"
        using k r sent g(4) len by auto
      then have "r \<noteq> Inr 6"
        using e g(4) len by (auto simp: commands_end_def)
      then show ?thesis
        using True by simp
    next
      case False
      then show ?thesis
        using g rd(2) k(2) r(1) sent e by auto
    qed
  qed
qed

lemma rename_run_spec:
  "case rename_main repr host_ok args opened answer of (r, sent) \<Rightarrow>
     (if updates sent = [] then r \<noteq> Inr 6
      else ra_apply args \<and> (ra_yes args \<or> prompt_confirm answer)
        \<and> (\<exists>registry renames k. registry_read repr (frames opened) registry \<and> build_renames_from_args args registry = Inr renames
          \<and> updates sent = take k (filter (allowed registry) (pairs renames))
          \<and> commands_end r (frames opened) k (length (filter (allowed registry) (pairs renames)))))"
proof -
  obtain r sent where m: "rename_main repr host_ok args opened answer = (r, sent)"
    by fastforce
  have we: "ws_exit e \<noteq> Inr 6" for e
    by (cases e) simp_all
  obtain r1 sent1 where en: "client_enter (ra_ha_token args) (ra_ws_timeout_s args) opened = (r1, sent1)"
    by fastforce
  note n = client_enter_spec [OF en]
  show ?thesis
  proof (cases "\<exists>c. rename_main repr host_ok args opened answer = rename_run repr host_ok args opened answer
      \<and> ha_base_to_ws_url host_ok (ra_ha_base args) \<noteq> None \<and> r1 = Inr c")
    case False
    then have "updates sent = [] \<and> r \<noteq> Inr 6"
      using m we updates_before(1) [OF n(1)] updates_before(3)
      by (auto simp: rename_main_def rename_run_def en Let_def split: if_splits sum.splits option.splits)
    then show ?thesis
      by (simp add: m)
  next
    case True
    then obtain c where g: "rename_run repr host_ok args opened answer = (r, sent)"
      "ha_base_to_ws_url host_ok (ra_ha_base args) \<noteq> None" "r1 = Inr c"
      using m by auto
    obtain c' where s: "rename_session repr args answer c = (r, c')" "sent = ws_sent (cl_ws c')"
      using g by (auto simp: rename_run_def en split: prod.splits)
    have c: "cl_next_id c = 1" "updates (ws_sent (cl_ws c)) = []"
      using n(2) [OF g(3)] updates_before(1) [OF n(1)] by simp_all
    obtain pre where pre: "frames opened = pre @ ws_in (cl_ws c)"
      using n(2) [OF g(3)] by blast
    have w: "commands_end r (ws_in (cl_ws c)) k z \<Longrightarrow> commands_end r (frames opened) k z"
      "registry_read repr (ws_in (cl_ws c)) registry \<Longrightarrow> registry_read repr (frames opened) registry" for k z registry
      using commands_end_append [of r "ws_in (cl_ws c)" k z pre] pre by (auto simp: registry_read_def)
    show ?thesis
      using rename_session_spec [OF s(1) c(1)] m s(2) c(2) w by (cases "updates sent = []") fastforce+
  qed
qed


section \<open>The audit\<close>

definition plain_ids :: "registry_entry list \<Rightarrow> bool" where
  "plain_ids registry \<longleftrightarrow> list_all (\<lambda>e. CHR 0x0A \<notin> set (re_entity_id e)) registry"

text \<open>The entry of inverter \<open>i\<close> and sensor \<open>base\<close>, with the stray suffix.\<close>

definition stray :: "registry_entry \<Rightarrow> string \<Rightarrow> string \<Rightarrow> bool" where
  "stray e i base \<longleftrightarrow> i \<in> {''1'', ''2''} \<and> base \<noteq> [] \<and> re_entity_id e = AUDIT_F7_STEM @ i @ ''_'' @ base @ ''_3''
     \<and> re_unique_id e = ''inverter_'' @ i @ ''_'' @ base"

lemma audit_f7_match_iff:
  assumes "CHR 0x0A \<notin> set s"
  shows "audit_f7_match s = Some (i, b) \<longleftrightarrow> i \<in> {''1'', ''2''} \<and> b \<noteq> [] \<and> s = AUDIT_F7_STEM @ i @ ''_'' @ b @ ''_3''"
proof
  assume m: "audit_f7_match s = Some (i, b)"
  define r where "r = drop (length AUDIT_F7_STEM) s"
  define rest where "rest = drop 2 r"
  have "set rest \<subseteq> set s"
    unfolding rest_def r_def by (meson order_trans set_drop_subset)
  then have n: "\<not> ends_with [CHR 0x0A] rest"
    using assms by (auto simp: ends_with_def dest!: set_mp [OF set_drop_subset] arg_cong [of _ _ set])
  from m have c: "starts_with AUDIT_F7_STEM s" "i = take 1 r" "i \<in> {''1'', ''2''}" "take 1 (drop 1 r) = ''_''"
    "ends_with ''_3'' rest" "b = take (length rest - 2) rest" "b \<noteq> []"
    using n by (auto simp: audit_f7_match_def Let_def r_def [symmetric] rest_def [symmetric] split: if_splits)
  have "s = AUDIT_F7_STEM @ r"
    using c(1) append_take_drop_id [of "length AUDIT_F7_STEM" s] by (simp add: starts_with_def r_def)
  moreover have "r = take 1 r @ take 1 (drop 1 r) @ drop 2 r"
    by (cases r; cases "tl r") simp_all
  moreover have "rest = b @ ''_3''"
  proof -
    have "drop (length rest - 2) rest = ''_3''"
      using c(5) by (simp add: ends_with_def numeral_2_eq_2)
    then show ?thesis
      using append_take_drop_id [of "length rest - 2" rest] unfolding c(6) by simp
  qed
  ultimately show "i \<in> {''1'', ''2''} \<and> b \<noteq> [] \<and> s = AUDIT_F7_STEM @ i @ ''_'' @ b @ ''_3''"
    using c(2-4,7) by (simp add: rest_def)
next
  assume a: "i \<in> {''1'', ''2''} \<and> b \<noteq> [] \<and> s = AUDIT_F7_STEM @ i @ ''_'' @ b @ ''_3''"
  then have i: "length i = 1"
    by auto
  have n: "\<not> ends_with [CHR 0x0A] (b @ ''_3'')" "CHR 0x0A \<notin> set b"
    using assms a by (simp_all add: ends_with_def)
  have d: "drop 2 (i @ ''_'' @ b @ ''_3'') = b @ ''_3''" "take 1 (i @ ''_'' @ b @ ''_3'') = i" "take 1 (drop 1 (i @ ''_'' @ b @ ''_3'')) = ''_''"
    using i by simp_all
  have s: "starts_with AUDIT_F7_STEM s" "drop (length AUDIT_F7_STEM) s = i @ ''_'' @ b @ ''_3''"
    using a by (simp_all add: starts_with_def)
  show "audit_f7_match s = Some (i, b)"
    unfolding audit_f7_match_def s(2) Let_def d if_not_P [OF n(1)] using a s(1) n(2) by (simp add: ends_with_def)
qed

lemma audit_rename_iff:
  assumes "CHR 0x0A \<notin> set (re_entity_id e)"
  shows "audit_rename (by_entity_id registry) e = Some rn \<longleftrightarrow>
    (\<exists>i base. stray e i base \<and> \<not> has_entity registry (AUDIT_F7_STEM @ i @ ''_'' @ base)
      \<and> rn = \<lparr>rn_old = re_entity_id e, rn_new = AUDIT_F7_STEM @ i @ ''_'' @ base\<rparr>)"
proof (cases "audit_f7_match (re_entity_id e)")
  case None
  then have "\<not> stray e i base" for i base
    using audit_f7_match_iff [OF assms, of i base] by (auto simp: stray_def)
  then show ?thesis
    using None by (auto simp: audit_rename_def)
next
  case (Some p)
  obtain i base where p: "p = (i, base)"
    by (cases p)
  have m: "i \<in> {''1'', ''2''}" "base \<noteq> []" "re_entity_id e = AUDIT_F7_STEM @ i @ ''_'' @ base @ ''_3''"
    using audit_f7_match_iff [OF assms, of i base] Some p by blast+
  have u: "stray e i' base' \<longleftrightarrow> i' = i \<and> base' = base \<and> re_unique_id e = ''inverter_'' @ i @ ''_'' @ base" for i' base'
    using m by (auto simp: stray_def)
  have pre: "list_ex (\<lambda>p. starts_with p (re_entity_id e)) AUDIT_F7_PREFIXES"
    using m(1) unfolding m(3) by (auto simp: AUDIT_F7_PREFIXES_def AUDIT_F7_STEM_def starts_with_def)
  let ?new = "AUDIT_F7_STEM @ i @ ''_'' @ base"
  have "re_entity_id other = ?new \<and> ?new \<noteq> re_entity_id e" if "dget (by_entity_id registry) ?new = Some other" for other
    using by_entity_id_sound [OF that] m(3) by simp
  then show ?thesis
    using by_entity_id_lookup [of registry ?new]
    unfolding audit_rename_def u by (auto simp: Some p pre Let_def split: option.split)
qed

lemma audit_mem:
  assumes "plain_ids registry"
  shows "(old, new) \<in> set (pairs (build_audit_f7_renames registry)) \<longleftrightarrow>
    (\<exists>e \<in> set registry. \<exists>i base. stray e i base \<and> old = re_entity_id e \<and> new = AUDIT_F7_STEM @ i @ ''_'' @ base \<and> \<not> has_entity registry new)"
proof -
  have "(\<exists>rn. audit_rename (by_entity_id registry) e = Some rn \<and> rn_old rn = old \<and> rn_new rn = new) \<longleftrightarrow>
      (\<exists>i base. stray e i base \<and> old = re_entity_id e \<and> new = AUDIT_F7_STEM @ i @ ''_'' @ base \<and> \<not> has_entity registry new)"
    if "e \<in> set registry" for e
  proof -
    have "CHR 0x0A \<notin> set (re_entity_id e)"
      using assms that by (simp add: plain_ids_def list_all_iff)
    from audit_rename_iff [OF this, of registry] show ?thesis
      by (metis rename.select_convs rename.surjective unit.exhaust)
  qed
  then show ?thesis
    by (auto simp: pairs_def build_audit_f7_renames_def map_filter_def image_iff; metis option.sel)
qed

lemma stray_unique: "stray e i base \<Longrightarrow> stray e' i' base' \<Longrightarrow>
    AUDIT_F7_STEM @ i @ ''_'' @ base = AUDIT_F7_STEM @ i' @ ''_'' @ base' \<Longrightarrow> i = i' \<and> base = base'"
  by (auto simp: stray_def)

lemma audit_allowed:
  assumes "plain_ids registry" and "p \<in> set (pairs (build_audit_f7_renames registry))"
  shows "allowed registry p"
proof -
  obtain old new where p: "p = (old, new)"
    by (cases p)
  obtain e i base where e: "e \<in> set registry" "stray e i base" "old = re_entity_id e" "new = AUDIT_F7_STEM @ i @ ''_'' @ base"
    "\<not> has_entity registry new"
    using assms audit_mem unfolding p by blast
  have d: "domain_of (AUDIT_F7_STEM @ x) = ''sensor''" for x
    by (simp add: domain_of_def AUDIT_F7_STEM_def)
  have "domain_of old = ''sensor''" "domain_of new = ''sensor''"
    using e(2,3,4) d by (simp_all add: stray_def)
  then show ?thesis
    using e by (auto simp: p allowed_def has_entity_def)
qed

text \<open>The registry after the renames.\<close>

definition rename_entity :: "(string \<times> string) list \<Rightarrow> string \<Rightarrow> string" where
  "rename_entity ps s = (case map_of ps s of None \<Rightarrow> s | Some new \<Rightarrow> new)"

lemma audit_distinct:
  assumes "plain_ids registry" and "distinct (map re_entity_id registry)"
  shows "distinct (map fst (pairs (build_audit_f7_renames registry)))"
    and "distinct (map snd (pairs (build_audit_f7_renames registry)))"
proof -
  let ?ps = "pairs (build_audit_f7_renames registry)"
  let ?mf = "List.map_filter (audit_rename (by_entity_id registry)) registry"
  have sub: "\<exists>xs. map rn_old (List.map_filter (audit_rename d) es) = map re_entity_id (filter (\<lambda>e. audit_rename d e \<noteq> None) es)" for d es
  proof (induction es)
    case (Cons e es)
    have "audit_rename d e = Some rn \<Longrightarrow> rn_old rn = re_entity_id e" for rn
      by (auto simp: audit_rename_def Let_def split: if_splits option.splits)
    then show ?case
      using Cons by (auto simp: List.map_filter_simps split: option.split)
  qed (simp add: List.map_filter_simps)
  have "distinct (map rn_old ?mf)"
    using sub [of "by_entity_id registry" registry] distinct_map_filter [OF assms(2)] by auto
  then have "distinct (map rn_old (build_audit_f7_renames registry))"
    by (metis build_audit_f7_renames_def distinct_map distinct_sort set_sort)
  then show f: "distinct (map fst ?ps)"
    by (simp add: pairs_def comp_def)
  have "s = s'" if m: "(s, t) \<in> set ?ps" and m': "(s', t) \<in> set ?ps" for s s' t
  proof -
    obtain e i b where e: "stray e i b" "s = re_entity_id e" "t = AUDIT_F7_STEM @ i @ ''_'' @ b"
      using m unfolding audit_mem [OF assms(1)] by (elim bexE exE conjE)
    obtain e' i' b' where e': "stray e' i' b'" "s' = re_entity_id e'" "t = AUDIT_F7_STEM @ i' @ ''_'' @ b'"
      using m' unfolding audit_mem [OF assms(1)] by (elim bexE exE conjE)
    have "i = i'" "b = b'"
      using stray_unique [OF e(1) e'(1)] e(3) e'(3) by auto
    then show ?thesis
      using e(1,2) e'(1,2) by (simp add: stray_def)
  qed
  then have "inj_on snd (set ?ps)"
    by (intro inj_onI) (metis prod.collapse)
  then show "distinct (map snd ?ps)"
    using f by (simp add: distinct_map)
qed

lemma audit_keeps_distinct:
  assumes "plain_ids registry" and "distinct (map re_entity_id registry)"
  shows "distinct (map (rename_entity (pairs (build_audit_f7_renames registry))) (map re_entity_id registry))"
proof -
  let ?ps = "pairs (build_audit_f7_renames registry)"
  note d = audit_distinct [OF assms]
  have mem: "map_of ?ps s = Some t \<longleftrightarrow> (s, t) \<in> set ?ps" for s t
    using d(1) by (meson map_of_SomeD map_of_is_SomeI)
  have free: "t \<notin> re_entity_id ` set registry" if "(s, t) \<in> set ?ps" for s t
    using that audit_mem [OF assms(1), of s t] by (auto simp: has_entity_def)
  have "inj_on (rename_entity ?ps) (set (map re_entity_id registry))"
  proof (rule inj_onI)
    fix s s'
    assume s: "s \<in> set (map re_entity_id registry)" "s' \<in> set (map re_entity_id registry)" "rename_entity ?ps s = rename_entity ?ps s'"
    show "s = s'"
    proof (cases "map_of ?ps s")
      case None
      then show ?thesis
        using s free mem by (cases "map_of ?ps s'") (auto simp: rename_entity_def)
    next
      case (Some t)
      then have t: "(s, t) \<in> set ?ps"
        by (simp add: mem)
      then have "map_of ?ps s' = Some t"
        using s free [OF t] Some by (cases "map_of ?ps s'") (auto simp: rename_entity_def)
      then have "(s', t) \<in> set ?ps"
        by (simp add: mem)
      then show ?thesis
        using t d(2) by (metis distinct_map inj_on_def prod.inject snd_conv)
    qed
  qed
  then show ?thesis
    using assms(2) by (simp add: distinct_map del: map_map set_map)
qed

text \<open>C15. The audit proposes exactly the stray entities whose clean name is free: those called like sensor
  \<open>base\<close> of inverter 1 or 2 with the suffix, whose unique id is that sensor's. In a registry with distinct
  ids and no newline in them (Home Assistant's own rules for ids) every proposal passes the validation,
  they come sorted, and carrying out all of them leaves the ids of the registry distinct.\<close>

theorem audit_renames_sound:
  assumes "plain_ids registry" and "distinct (map re_entity_id registry)"
  shows "set (pairs (build_audit_f7_renames registry)) =
      {(re_entity_id e, AUDIT_F7_STEM @ i @ ''_'' @ base) | e i base. e \<in> set registry \<and> stray e i base
         \<and> \<not> has_entity registry (AUDIT_F7_STEM @ i @ ''_'' @ base)}
    \<and> filter (allowed registry) (pairs (build_audit_f7_renames registry)) = pairs (build_audit_f7_renames registry)
    \<and> sorted (map fst (pairs (build_audit_f7_renames registry)))
    \<and> distinct (map (rename_entity (pairs (build_audit_f7_renames registry))) (map re_entity_id registry))"
proof (intro conjI)
  show "set (pairs (build_audit_f7_renames registry)) =
      {(re_entity_id e, AUDIT_F7_STEM @ i @ ''_'' @ base) | e i base. e \<in> set registry \<and> stray e i base
         \<and> \<not> has_entity registry (AUDIT_F7_STEM @ i @ ''_'' @ base)}"
    by (rule set_eqI) (simp only: split_paired_all audit_mem [OF assms(1)] mem_Collect_eq prod.inject, blast)
  show "filter (allowed registry) (pairs (build_audit_f7_renames registry)) = pairs (build_audit_f7_renames registry)"
    using audit_allowed [OF assms(1)] by simp
  show "sorted (map fst (pairs (build_audit_f7_renames registry)))"
    by (simp add: pairs_def build_audit_f7_renames_def comp_def)
  show "distinct (map (rename_entity (pairs (build_audit_f7_renames registry))) (map re_entity_id registry))"
    by (rule audit_keeps_distinct [OF assms])
qed

definition demo_registry :: "registry_entry list" where
  "demo_registry =
     [\<lparr>re_entity_id = ''sensor.gadi_inverters_inverter_2_pv_power_3'', re_unique_id = ''inverter_2_pv_power'', re_platform = ''mqtt'', re_raw = []\<rparr>,
      \<lparr>re_entity_id = ''sensor.gadi_inverters_inverter_1_pv_power'', re_unique_id = ''inverter_1_pv_power'', re_platform = ''mqtt'', re_raw = []\<rparr>]"

theorem audit_renames_sound_witness:
  "(''sensor.gadi_inverters_inverter_2_pv_power_3'', ''sensor.gadi_inverters_inverter_2_pv_power'') \<in> set (pairs (build_audit_f7_renames demo_registry))"
proof -
  define e where "e = hd demo_registry"
  have p: "plain_ids demo_registry" and d: "distinct (map re_entity_id demo_registry)"
    by (simp_all add: plain_ids_def demo_registry_def)
  have e: "e \<in> set demo_registry" "stray e ''2'' ''pv_power''" "\<not> has_entity demo_registry (AUDIT_F7_STEM @ ''2'' @ ''_'' @ ''pv_power'')"
    "re_entity_id e = ''sensor.gadi_inverters_inverter_2_pv_power_3''"
    by (simp_all add: e_def demo_registry_def stray_def AUDIT_F7_STEM_def has_entity_def)
  have "(re_entity_id e, AUDIT_F7_STEM @ ''2'' @ ''_'' @ ''pv_power'') \<in> set (pairs (build_audit_f7_renames demo_registry))"
    unfolding conjunct1 [OF audit_renames_sound [OF p d]] mem_Collect_eq using e(1-3) by (intro exI conjI) (rule refl)+
  then show ?thesis
    unfolding e(4) by (simp add: AUDIT_F7_STEM_def)
qed

section \<open>What the plan and the exit code miss\<close>

text \<open>Two renames to one name both pass: the validation looks at the registry before any of them.\<close>

theorem same_target_passes:
  "map pl_status (validate_renames
     (map (\<lambda>e. \<lparr>rn_old = re_entity_id e, rn_new = ''sensor.clean''\<rparr>) demo_registry) demo_registry) = [PlanOk, PlanOk]"
  by (simp add: validate_renames_def demo_registry_def validate_rename_def domain_of_def by_entity_id_def dupdate_def Let_def)

text \<open>A blocked rename is not reported by the exit code when another one was applied, although the option
  asks for it.\<close>

definition demo_rename_args :: rename_args where
  "demo_rename_args = \<lparr>ra_ha_base = ''http://ha'', ra_ha_token = ''token'', ra_mapping = None, ra_pairs = [''s.a=s.b'', ''s.x=s.y''],
     ra_audit_f7 = False, ra_ws_timeout_s = 10, ra_yes = True, ra_fail_on_blocked = True, ra_apply = True\<rparr>"

theorem blocked_not_reported:
  "\<exists>sent. rename_main repr ok demo_rename_args (Inr \<lparr>ws_now = 0, ws_in = demo_frames [demo_item ''s.a'' ''u''], ws_sent = []\<rparr>) None = (Inr 0, sent)
    \<and> updates sent = [(''s.a'', ''s.b'')]
    \<and> map pl_status (validate_renames [\<lparr>rn_old = ''s.a'', rn_new = ''s.b''\<rparr>, \<lparr>rn_old = ''s.x'', rn_new = ''s.y''\<rparr>]
         (List.map_filter (entry_of repr) [demo_item ''s.a'' ''u''])) = [PlanOk, NotFound]"
proof -
  let ?reg = "List.map_filter (entry_of repr) [demo_item ''s.a'' ''u'']"
  let ?rns = "[\<lparr>rn_old = ''s.a'', rn_new = ''s.b''\<rparr>, \<lparr>rn_old = ''s.x'', rn_new = ''s.y''\<rparr>]"
  have b: "build_renames_from_args demo_rename_args ?reg = Inr ?rns"
    by (simp add: build_renames_from_args_def demo_rename_args_def strip_id is_space_def)
  have v: "validate_renames ?rns ?reg = [\<lparr>pl_old = ''s.a'', pl_new = ''s.b'', pl_status = PlanOk\<rparr>, \<lparr>pl_old = ''s.x'', pl_new = ''s.y'', pl_status = NotFound\<rparr>]"
    by (simp add: validate_renames_def validate_rename_def domain_of_def by_entity_id_def dupdate_def Let_def demo_entry List.map_filter_simps)
  define reg where "reg = ?reg"
  let ?auth = "PyDict [(''type'', PyStr ''auth''), (''access_token'', PyStr ''token'')]"
  let ?frames = "demo_frames [demo_item ''s.a'' ''u'']"
  let ?client = "\<lparr>cl_ws = \<lparr>ws_now = 1, ws_in = drop 2 ?frames, ws_sent = [?auth]\<rparr>, cl_next_id = 1\<rparr>"
  have args: "ra_ws_timeout_s demo_rename_args = 10" "ra_apply demo_rename_args" "ra_yes demo_rename_args"
    "ra_ha_token demo_rename_args = ''token''" "ra_ha_base demo_rename_args = ''http://ha''" "ra_mapping demo_rename_args = None"
    "ra_pairs demo_rename_args \<noteq> []" "\<not> ra_audit_f7 demo_rename_args"
    by (simp_all add: demo_rename_args_def)
  have l: "list_entity_registry repr 10 ?client = (Inr reg, \<lparr>cl_ws = \<lparr>ws_now = 2, ws_in = drop 3 ?frames, ws_sent = [?auth, list_payload]\<rparr>, cl_next_id = 2\<rparr>)"
    using demo_list [of repr "[demo_item ''s.a'' ''u'']" "[?auth]"] unfolding reg_def by simp
  have s: "rename_session repr demo_rename_args None ?client =
      (Inr 0, \<lparr>cl_ws = \<lparr>ws_now = 3, ws_in = [], ws_sent = [?auth, list_payload, PyDict ((''id'', PyInt 2) # update_payload ''s.a'' ''s.b'')]\<rparr>, cl_next_id = 3\<rparr>)"
    unfolding rename_session_def args(1) l
    by (simp add: b [folded reg_def] v [folded reg_def] args update_entity_id_def update_payload_def demo_command Let_def)
  have "rename_main repr ok demo_rename_args (Inr \<lparr>ws_now = 0, ws_in = ?frames, ws_sent = []\<rparr>) None =
      (Inr 0, [?auth, list_payload, PyDict ((''id'', PyInt 2) # update_payload ''s.a'' ''s.b'')])"
    using s by (simp add: rename_main_def rename_run_def demo_url args demo_enter)
  then show ?thesis
    using v by (simp add: updates_def List.map_filter_simps update_of_def has_type_def dget_or_def list_payload_def update_payload_def)
qed

end
