(* ===== verification/Field_Tools.thy ===== *)
theory Field_Tools
  imports Octopus Modbus Mqtt_Publisher
begin

text \<open>
  The scripts that are run by hand beside the bridge: \<open>tools/capture_fixtures.py\<close> and
  \<open>tools/srne_daily_diff.py\<close>, which read register blocks from a port with a checksum and a reader of their
  own, \<open>tools/_bms_ble_probe.py\<close>, which decodes the packs with its own tables, and
  \<open>tools/_cleanup_old_bms_discovery.py\<close>, which clears topics of an earlier naming. A port is the list of what
  its reads find, with the clock after each.
\<close>

section \<open>Capturing fixtures\<close>

definition fixture_bit :: "crc_reg \<Rightarrow> crc_reg" where
  "fixture_bit crc = (if crc AND 1 \<noteq> 0 then drop_bit 1 crc XOR 0xA001 else drop_bit 1 crc)"

definition fixture_crc16 :: "bytes \<Rightarrow> bytes" where
  "fixture_crc16 data = pack_le (foldl (\<lambda>crc b. (fixture_bit ^^ 8) (crc XOR ucast b)) 0xFFFF data)"

text \<open>\<open>None\<close> is the \<open>ValueError\<close> of \<open>bytes\<close>.\<close>

definition fixture_request :: "int \<Rightarrow> int \<Rightarrow> int \<Rightarrow> bytes option" where
  "fixture_request slave addr count =
     (if 0 \<le> slave \<and> slave \<le> 255 then
        let req_no_crc = [word_of_int slave, 0x03, hi8 addr, lo8 addr, hi8 count, lo8 count]
        in Some (req_no_crc @ fixture_crc16 req_no_crc)
      else None)"

text \<open>One read asks for what is missing up to \<open>limit\<close>; an empty one, or the deadline, ends the loop.\<close>

fun read_up_to :: "nat \<Rightarrow> rat \<Rightarrow> rat \<Rightarrow> bytes \<Rightarrow> (bytes \<times> rat) list \<Rightarrow> bytes" where
  "read_up_to limit deadline now resp [] = resp"
| "read_up_to limit deadline now resp ((avail, after) # reads) =
     (if length resp < limit \<and> now < deadline then
        let chunk = take (limit - length resp) avail in
        if chunk = [] then resp else read_up_to limit deadline after (resp @ chunk) reads
      else resp)"

definition fixture_query :: "nat \<Rightarrow> rat \<Rightarrow> rat \<Rightarrow> (bytes \<times> rat) list \<Rightarrow> bytes" where
  "fixture_query count start timeout reads = read_up_to (5 + 2 * count + 32) (start + timeout) start [] reads"

fun passive_listen :: "rat \<Rightarrow> rat \<Rightarrow> (bytes \<times> rat) list \<Rightarrow> bytes" where
  "passive_listen deadline now [] = []"
| "passive_listen deadline now ((avail, after) # reads) =
     (if now < deadline then take 4096 avail @ passive_listen deadline after reads else [])"

definition FIXTURE_BLOCKS :: "(int \<times> nat \<times> string) list" where
  "FIXTURE_BLOCKS =
     [(0x0100, 15, ''battery''), (0x010F, 3, ''bms''), (0x0204, 6, ''faults''), (0x0210, 19, ''state''),
      (0x0223, 23, ''pv_temps_l2''), (0x0035, 20, ''fw_ascii''), (0xE116, 11, ''config''), (0xE000, 8, ''thresholds''),
      (0xF000, 8, ''runtime_counters''), (0xF02C, 18, ''daily_stats'')]"

text \<open>The first answer that is not empty, of at most \<open>retries\<close> queries.\<close>

fun first_reply :: "nat \<Rightarrow> bytes list \<Rightarrow> bytes" where
  "first_reply (Suc retries) (resp # resps) = (if resp \<noteq> [] then resp else first_reply retries resps)"
| "first_reply _ _ = []"

datatype capture = Failed | Skipped | Captured bytes | CaptureIndexError

definition capture_block :: "nat \<Rightarrow> bytes list \<Rightarrow> capture" where
  "capture_block retries resps =
     (let resp = first_reply retries resps in
      if resp = [] then Failed
      else
        let buf_start = take 5 resp in
        if 2 \<le> length buf_start \<and> uint (buf_start ! 1) AND 0x80 \<noteq> 0 then
          if length buf_start < 3 then CaptureIndexError
          else if uint (buf_start ! 2) = 0x02 then Skipped
          else Captured resp
        else Captured resp)"

section \<open>The daily difference\<close>

definition DIFF_BLOCKS :: "(int \<times> nat \<times> string) list" where
  "DIFF_BLOCKS =
     [(0x0100, 15, ''battery''), (0x0210, 19, ''state''), (0x0223, 23, ''pv_temps_l2''), (0xE000, 8, ''thresholds''),
      (0xE008, 10, ''thresholds_ext''), (0xE020, 10, ''thresholds_3''), (0xE100, 10, ''config_pre''), (0xE116, 11, ''config''),
      (0xE121, 15, ''config_post''), (0xE200, 16, ''config_io''), (0xF000, 8, ''counters''), (0xF008, 16, ''counters_ext''),
      (0xF018, 16, ''counters_ext2''), (0xF02C, 18, ''daily_stats''), (0xF03E, 16, ''daily_stats_ext'')]"

text \<open>The request, with the checksum of the bridge, and the answer of at most \<open>5 + 2 * count\<close> bytes.\<close>

definition diff_request :: "int \<Rightarrow> int \<Rightarrow> int \<Rightarrow> bytes option" where
  "diff_request slave addr count =
     (if 0 \<le> slave \<and> slave \<le> 255 then
        let req = [word_of_int slave, word_of_int FC_READ_HOLDING, hi8 addr, lo8 addr, hi8 count, lo8 count]
        in Some (req @ crc16 req)
      else None)"

definition diff_query :: "nat \<Rightarrow> rat \<Rightarrow> (bytes \<times> rat) list \<Rightarrow> bytes" where
  "diff_query count start reads = read_up_to (5 + 2 * count) (start + 2) start [] reads"

definition snapshot_block :: "nat \<Rightarrow> bytes \<Rightarrow> int list option" where
  "snapshot_block count r =
     (if 5 + 2 * count \<le> length r \<and> uint (r ! 1) AND 0x80 = 0 then Some (regs_of (pyslice 3 (3 + 2 * count) r)) else None)"

definition register_changes :: "int list \<Rightarrow> int list \<Rightarrow> (nat \<times> int \<times> int \<times> int) list" where
  "register_changes ra rb =
     List.map_filter (\<lambda>i. if ra ! i \<noteq> rb ! i then Some (i, ra ! i, rb ! i, rb ! i - ra ! i) else None)
       [0..<min (length ra) (length rb)]"

section \<open>The Bluetooth probe\<close>

definition PIA_FRAMES :: "(nat, bytes) dict" where
  "PIA_FRAMES =
     [(1, [0x01, 0x04, 0x10, 0x00, 0x00, 0x12, 0x74, 0xC7]),
      (2, [0x02, 0x04, 0x10, 0x00, 0x00, 0x12, 0x74, 0xF4]),
      (3, [0x03, 0x04, 0x10, 0x00, 0x00, 0x12, 0x75, 0x25]),
      (4, [0x04, 0x04, 0x10, 0x00, 0x00, 0x12, 0x74, 0x92])]"

fun probe_bits :: "nat \<Rightarrow> crc_reg \<Rightarrow> crc_reg" where
  "probe_bits 0 crc = crc"
| "probe_bits (Suc n) crc =
     (if crc AND 0x0001 \<noteq> 0 then probe_bits n (drop_bit 1 crc XOR 0xA001) else probe_bits n (drop_bit 1 crc))"

fun probe_loop :: "crc_reg \<Rightarrow> bytes \<Rightarrow> crc_reg" where
  "probe_loop crc [] = crc"
| "probe_loop crc (b # bs) = probe_loop (probe_bits 8 (crc XOR ucast b)) bs"

definition probe_crc16 :: "bytes \<Rightarrow> crc_reg" where
  "probe_crc16 data = probe_loop 0xFFFF data"

definition probe_verify_crc :: "bytes \<Rightarrow> bool" where
  "probe_verify_crc frame =
     (if length frame < 4 then False else probe_crc16 (but2 frame) = unpack_le (last2 frame))"

record probe_data =
  pr_voltage_V :: rat
  pr_current_A :: rat
  pr_remaining_Ah :: rat
  pr_nominal_Ah :: rat
  pr_raw_reg4 :: int
  pr_raw_reg5 :: int
  pr_soc_pct :: rat
  pr_raw_regs_7_to_17 :: "int list"

text \<open>\<open>None\<close> is the entry \<open>error\<close>.\<close>

definition decode_pia :: "bytes \<Rightarrow> probe_data option" where
  "decode_pia payload =
     (if length payload < 36 then None
      else
        let regs = regs_of (take 36 payload);
            current_signed = sint (word_of_int (regs ! 1) :: 16 word)
        in Some \<lparr>pr_voltage_V = fl (of_int (regs ! 0) / 100), pr_current_A = fl (of_int current_signed / 100),
             pr_remaining_Ah = fl (of_int (regs ! 2) / 100), pr_nominal_Ah = fl (of_int (regs ! 3) / 100),
             pr_raw_reg4 = regs ! 4, pr_raw_reg5 = regs ! 5, pr_soc_pct = fl (of_int (regs ! 6) / 10),
             pr_raw_regs_7_to_17 = drop 7 regs\<rparr>)"

text \<open>The handler of a notification, with the queue: only answers of the pack are taken. A single byte
  makes it raise \<open>IndexError\<close> if it is the number of the pack; the frame is then lost like the others.\<close>

definition notify_handler :: "nat \<Rightarrow> bytes \<Rightarrow> bytes list \<Rightarrow> bytes list" where
  "notify_handler pack_num data q =
     (if data \<noteq> [] \<and> uint (data ! 0) = int pack_num \<and> 1 < length data \<and> uint (data ! 1) = 0x04 then q @ [data] else q)"

datatype probe_result = NoReply | TooShort | CrcMismatch | PayloadTooShort | Decoded probe_data

definition probe_pack :: "nat \<Rightarrow> bytes list \<Rightarrow> probe_result" where
  "probe_pack pack_num notifications =
     (case fold (notify_handler pack_num) notifications [] of
        [] \<Rightarrow> NoReply
      | response # _ \<Rightarrow>
          if length response < 5 then TooShort
          else if \<not> probe_verify_crc response then CrcMismatch
          else
            let byte_count = nat (uint (response ! 2)); payload = pyslice 3 (3 + byte_count) response
            in (case decode_pia payload of None \<Rightarrow> PayloadTooShort | Some d \<Rightarrow> Decoded d))"

section \<open>Topics of an earlier naming\<close>

definition OLD_OBJECT_IDS :: "string list" where
  "OLD_OBJECT_IDS =
     concat (map (\<lambda>p. let pp = ''pack'' @ show2 p in
         map (\<lambda>suffix. ''gadi_bms_'' @ pp @ ''_'' @ suffix)
           [''voltage'', ''current'', ''soc'', ''soh'', ''cycles'', ''remaining_ah'', ''nominal_ah'']
         @ map (\<lambda>suffix. ''gadi_bms_'' @ pp @ suffix) [''_cell_v_min'', ''_cell_v_max'', ''_cell_v_avg'', ''_cell_v_delta'']
         @ map (\<lambda>i. ''gadi_bms_'' @ pp @ ''_cell_temp_'' @ show_nat i) [1..<5]
         @ [''gadi_bms_'' @ pp @ ''_env_temp'', ''gadi_bms_'' @ pp @ ''_pcb_temp'']) [1, 2, 3, 4])
     @ map (\<lambda>s. ''gadi_bms_bank_'' @ s)
         [''voltage_avg'', ''current_total'', ''soc_avg'', ''soc_spread'', ''power'', ''power_charging'', ''power_discharging'',
          ''remaining_ah'', ''nominal_ah'', ''min_soh'', ''max_cycles'', ''max_cell_temp'']
     @ [''gadi_bms_battery_energy_in'', ''gadi_bms_battery_energy_out'']
     @ map (\<lambda>p. ''gadi_bms_pack'' @ show2 p @ ''_serial'') [1, 2, 3, 4]"

definition clearing :: "string \<Rightarrow> nat \<Rightarrow> message" where
  "clearing path level = \<lparr>topic = path, content = Text '''', msg_qos = int level, retain = True\<rparr>"

definition old_bms_cleanup :: "message list" where
  "old_bms_cleanup =
     concat (map (\<lambda>oid. [clearing (''homeassistant/sensor/'' @ oid @ ''/config'') 1, clearing (''gadi_bms/'' @ oid @ ''/state'') 0]) OLD_OBJECT_IDS)
     @ [clearing ''gadi_bms/availability'' 1]"

end
