(* ===== verification/Field_Runs.thy ===== *)
theory Field_Runs
  imports Field_Tools Bms_Service
begin

text \<open>
  The scripts run by hand against the bridge: their copies of the checksum, of the request and of the decoding
  agree with the bridge where they should, the one place where the probe does not, and what the clearing of
  the old battery topics spares.
\<close>

section \<open>The copies agree with the bridge\<close>

lemma fixture_bit_eq: "fixture_bit = crc_bit"
  by (rule ext) (simp add: fixture_bit_def crc_bit_alt and_one_word)

lemma fixture_crc16_eq: "fixture_crc16 data = crc16 data"
proof -
  have "(\<lambda>crc b. (fixture_bit ^^ 8) (crc XOR ucast b)) = crc_byte"
    by (intro ext) (simp add: crc_byte_def fixture_bit_eq)
  then show ?thesis
    by (simp add: fixture_crc16_def crc16_def crc_run_def)
qed

lemma probe_bits_eq: "probe_bits n crc = crc16_modbus_bits n crc"
  by (induction n arbitrary: crc) simp_all

lemma probe_crc16_eq: "probe_crc16 data = crc16_modbus data"
proof -
  have "probe_loop crc data = crc16_modbus_loop crc data" for crc
    by (induction data arbitrary: crc) (simp_all add: probe_bits_eq)
  then show ?thesis
    by (simp add: probe_crc16_def crc16_modbus_def)
qed

text \<open>C39. The four checksum routines of the repository agree on every byte string: the one of the inverter
  side, the one of the battery side, and the copies in the capture script and in the Bluetooth probe.\<close>

theorem crc_copies_agree:
  "pack_le (crc16_modbus data) = crc16 data \<and> fixture_crc16 data = crc16 data \<and> probe_crc16 data = crc16_modbus data
    \<and> probe_verify_crc data = verify_crc data"
  by (simp add: crc16_modbus_run crc16_def [symmetric] fixture_crc16_eq probe_crc16_eq probe_verify_crc_def verify_crc_def)

text \<open>Both scripts send the request of the bridge, wherever the bridge would send one.\<close>

lemma tool_requests: "build_read_holding_request slave addr count = Inr req \<Longrightarrow>
    fixture_request slave addr count = Some req \<and> diff_request slave addr count = Some req"
  by (auto simp: build_read_holding_request_def fixture_request_def diff_request_def fixture_crc16_eq FC_READ_HOLDING_def
      split: if_splits)

text \<open>A read never gives more than was asked for.\<close>

lemma read_up_to_bounded: "length resp \<le> limit \<Longrightarrow> length (read_up_to limit deadline now resp reads) \<le> limit"
  by (induction limit deadline now resp reads rule: read_up_to.induct) (auto simp: Let_def)

text \<open>What the bridge accepts, the daily difference records with the same registers.\<close>

lemma snapshot_agrees:
  assumes "parse_response buf slave (int count) = Inr f"
  shows "snapshot_block count buf = Some (mf_regs f)"
proof -
  obtain regs rest where b: "buf = encode_response slave regs @ rest" "is_byte slave" "reg_range regs" "count = length regs"
    "f = \<lparr>mf_slave = slave, mf_func = FC_READ_HOLDING, mf_regs = regs\<rparr>"
    using parse_response_InrD [OF assms] by auto
  have "uint (buf ! 1) AND 0x80 = 0" "5 + 2 * count \<le> length buf" "pyslice 3 (3 + 2 * count) buf = bytes_of regs"
    using b(4) by (simp_all add: b(1) encode_response_def sealed_def Let_def FC_READ_HOLDING_def pyslice_def wire_simps)
  then show ?thesis
    using b(3,5) by (simp add: snapshot_block_def wire_simps)
qed

section \<open>Where they differ\<close>

text \<open>The probe reads the state of charge from the register that the bridge publishes as the state of
  health; voltage, current and capacities are the bridge's.\<close>

theorem probe_soc_is_soh:
  assumes "oct_parse_response frame = Inr (Pia d)"
  shows "\<exists>pd. probe_pack (nat (pia_pack d)) [frame] = Decoded pd \<and> pr_voltage_V pd = voltage_V d \<and> pr_current_A pd = current_A d
    \<and> pr_remaining_Ah pd = remaining_Ah d \<and> pr_nominal_Ah pd = nominal_Ah d
    \<and> pr_soc_pct pd = soh_pct d \<and> soc_pct d = fl (of_int (pr_raw_reg5 pd) / 10)"
proof -
  obtain pack r tail where f: "frame = oct_frame pack r tail" "1 \<le> pack" "pack \<le> 4" "reg_range r" "2 \<le> length tail"
      "crc_ok frame" "length r = 18" "d = pia_spec pack r frame"
    using assms unfolding oct_parse_exact_aux by auto
  have h: "uint (frame ! 0) = pack" "uint (frame ! 1) = 4" "nat (uint (frame ! 2)) = 36" "5 \<le> length frame"
    using f by (auto simp: oct_frame_def uint_word_of_int wire_simps)
  have p: "pyslice 3 (3 + 36) frame = bytes_of r"
    using f(7) by (simp add: f(1) oct_frame_def pyslice_def wire_simps)
  have v: "probe_verify_crc frame"
  proof -
    have "verify_crc frame"
      using f(6) h(4) by (simp add: verify_crc_iff)
    then show ?thesis
      by (simp add: probe_verify_crc_def verify_crc_def probe_crc16_eq split: if_splits)
  qed
  have t: "take 36 (bytes_of r) = bytes_of r"
    using f(7) by (simp add: wire_simps)
  have l: "36 \<le> length frame - 3"
    using f(7) by (simp add: f(1) oct_frame_def wire_simps)
  have n: "fold (notify_handler (nat pack)) [frame] [] = [frame]"
    using h f(2) by (cases frame) (auto simp: notify_handler_def)
  show ?thesis
    using f(4,7) h v p t n l by (simp add: f(8) pia_spec_def probe_pack_def decode_pia_def Let_def wire_simps)
qed

section \<open>The old topics\<close>

lemma old_ids: "\<forall>oid \<in> set OLD_OBJECT_IDS. starts_with ''gadi_bms_'' oid"
  by (auto simp: OLD_OBJECT_IDS_def Let_def starts_with_def)

lemma old_topic_cases:
  assumes "m \<in> set old_bms_cleanup"
  obtains r where "topic m = ''homeassistant/sensor/gadi_bms_'' @ r" | r where "topic m = ''gadi_bms/gadi_bms_'' @ r"
    | "topic m = ''gadi_bms/availability''"
proof -
  consider oid where "oid \<in> set OLD_OBJECT_IDS" "topic m = ''homeassistant/sensor/'' @ oid @ ''/config''"
    | oid where "oid \<in> set OLD_OBJECT_IDS" "topic m = ''gadi_bms/'' @ oid @ ''/state''"
    | "topic m = ''gadi_bms/availability''"
    using assms by (auto simp: old_bms_cleanup_def clearing_def)
  then show thesis
  proof cases
    case 1
    then obtain r where "oid = ''gadi_bms_'' @ r"
      using old_ids by (auto simp: starts_with_iff)
    then show thesis
      using 1(2) by (intro that(1) [of "r @ ''/config''"]) simp
  next
    case 2
    then obtain r where "oid = ''gadi_bms_'' @ r"
      using old_ids by (auto simp: starts_with_iff)
    then show thesis
      using 2(2) by (intro that(2) [of "r @ ''/state''"]) simp
  next
    case 3
    then show thesis
      by (rule that(3))
  qed
qed

text \<open>Clearing the old topics spares every discovery, state and serial topic of the current naming; of the
  current topics only the availability is cleared, which the restart asked for at the end restores.\<close>

lemma old_cleanup_topics:
  assumes "b_mqtt_topic_prefix cfg = ''gadi_bms''" and "m \<in> set old_bms_cleanup"
  shows "topic m \<in> m_topic ` set (bms_publish_discovery cfg) \<union> (\<lambda>e. state_topic_for e (b_mqtt_topic_prefix cfg)) ` set all_bms_entities
    \<longleftrightarrow> topic m = bms_availability_topic cfg"
proof -
  have e: "\<exists>r. e_object_id e = ''bluesun_'' @ r" if "e \<in> set all_bms_entities" for e
    using bms_ids that by (auto simp: starts_with_iff)
  have own: "t = bms_availability_topic cfg \<or> (\<exists>r. t = ''homeassistant/sensor/bluesun_'' @ r) \<or> (\<exists>r. t = ''gadi_bms/bluesun_'' @ r)"
    if "t \<in> m_topic ` set (bms_publish_discovery cfg) \<union> (\<lambda>e. state_topic_for e (b_mqtt_topic_prefix cfg)) ` set all_bms_entities" for t
    using that e assms(1)
    by (auto simp: bms_publish_discovery_def discovery_topic_for_def state_topic_for_def; fastforce)
  have av: "bms_availability_topic cfg \<in> m_topic ` set (bms_publish_discovery cfg)" "bms_availability_topic cfg = ''gadi_bms/availability''"
    by (simp_all add: bms_publish_discovery_def bms_availability_topic_def assms(1))
  show ?thesis
  proof
    assume "topic m \<in> m_topic ` set (bms_publish_discovery cfg) \<union> (\<lambda>e. state_topic_for e (b_mqtt_topic_prefix cfg)) ` set all_bms_entities"
    from own [OF this] show "topic m = bms_availability_topic cfg"
    proof (elim disjE exE)
      fix r
      assume "topic m = ''homeassistant/sensor/bluesun_'' @ r"
      then show ?thesis
        by (cases rule: old_topic_cases [OF assms(2)]) simp_all
    next
      fix r
      assume "topic m = ''gadi_bms/bluesun_'' @ r"
      then show ?thesis
        by (cases rule: old_topic_cases [OF assms(2)]) simp_all
    qed
  next
    assume "topic m = bms_availability_topic cfg"
    then show "topic m \<in> m_topic ` set (bms_publish_discovery cfg) \<union> (\<lambda>e. state_topic_for e (b_mqtt_topic_prefix cfg)) ` set all_bms_entities"
      using av(1) by simp
  qed
qed

end
