(* ===== verification/Worker_Threads.thy ===== *)
theory Worker_Threads
  imports Daemon_Runs
begin

text \<open>
  The worker threads of a cycle in \<open>daemon.py\<close>, which \<open>Daemon\<close> runs one after the other: their accesses to the
  counters of the daemon, each under \<open>_fail_count_lock\<close>, as the steps of a scheduler that interleaves them, and
  the proof that every interleaving ends where the sequential poll does.
\<close>

section \<open>What a worker does to the shared state\<close>

text \<open>Every access is under the lock: one step per checksum failure of the stream parser, and one when the
  poll is over.\<close>

datatype worker_event = CrcError | PollDone bool

fun apply_event :: "string \<Rightarrow> worker_event \<Rightarrow> daemon \<Rightarrow> daemon" where
  "apply_event name CrcError d = d\<lparr>crc_fails_total := crc_fails_total d + 1\<rparr>"
| "apply_event name (PollDone any_success) d =
     (if any_success then d\<lparr>fail_count := dset name 0 (fail_count d)\<rparr>
      else d\<lparr>fail_count := dset name (dget_or (fail_count d) name 0 + 1) (fail_count d)\<rparr>)"

definition worker_events :: "polling_cfg \<Rightarrow> job \<Rightarrow> worker_event list" where
  "worker_events cfg j = (case poll_inverter cfg j of (_, any, errs) \<Rightarrow> replicate errs CrcError @ [PollDone any])"

type_synonym pool = "(string \<times> worker_event list) list"

text \<open>The scheduler lets any worker that has not ended take its next step.\<close>

inductive worker_step :: "pool \<times> daemon \<Rightarrow> pool \<times> daemon \<Rightarrow> bool" where
  step: "i < length ws \<Longrightarrow> ws ! i = (name, e # es) \<Longrightarrow> worker_step (ws, d) (ws[i := (name, es)], apply_event name e d)"

inductive_cases worker_stepE: "worker_step (ws, d) s"

definition ended :: "pool \<Rightarrow> bool" where
  "ended ws \<longleftrightarrow> list_all (\<lambda>(_, es). es = []) ws"

definition steps_left :: "pool \<Rightarrow> nat" where
  "steps_left ws = sum_list (map (length \<circ> snd) ws)"

text \<open>The workers of a cycle, one per inverter.\<close>

definition worker_of :: "polling_cfg \<Rightarrow> block_tier \<Rightarrow> (string \<Rightarrow> iv_in) \<Rightarrow> inverter_cfg \<Rightarrow> string \<times> worker_event list" where
  "worker_of cfg tier inp iv =
     (iv_name iv, worker_events cfg \<lparr>j_slave = iv_slave iv, j_tier = tier, j_tries = in_tries (inp (iv_name iv))\<rparr>)"

definition cycle_workers :: "block_tier \<Rightarrow> (string \<Rightarrow> iv_in) \<Rightarrow> daemon \<Rightarrow> pool" where
  "cycle_workers tier inp d = map (worker_of (d_polling d) tier inp) (d_inverters d)"

section \<open>The counters\<close>

text \<open>What the steps change, independent of the order in which names were first counted.\<close>

type_synonym counters = "nat \<times> (string \<Rightarrow> nat) \<times> daemon"

definition counters :: "daemon \<Rightarrow> counters" where
  "counters d = (crc_fails_total d, \<lambda>n. dget_or (fail_count d) n 0, d\<lparr>crc_fails_total := 0, fail_count := [], running := []\<rparr>)"

fun count_event :: "string \<Rightarrow> worker_event \<Rightarrow> counters \<Rightarrow> counters" where
  "count_event name CrcError (c, f, r) = (c + 1, f, r)"
| "count_event name (PollDone any_success) (c, f, r) = (c, f(name := if any_success then 0 else f name + 1), r)"

lemma counters_event: "counters (apply_event name e d) = count_event name e (counters d)"
  by (cases e) (auto simp: counters_def dget_or_def dict_simps fun_eq_iff split: option.splits)

lemma counters_running: "counters (d\<lparr>running := x\<rparr>) = counters d"
  by (simp add: counters_def)

lemma count_events_commute:
  "n \<noteq> m \<Longrightarrow> count_event n e (count_event m e' s) = count_event m e' (count_event n e s)"
  by (cases s; cases e; cases e') (auto simp: fun_upd_twist)

definition run_workers :: "pool \<Rightarrow> counters \<Rightarrow> counters" where
  "run_workers ws = fold (\<lambda>(n, es). fold (count_event n) es) ws"

lemma fold_event_commute:
  assumes "n \<noteq> m"
  shows "fold (count_event m) es (count_event n e s) = count_event n e (fold (count_event m) es s)"
proof (induction es arbitrary: s)
  case (Cons a es)
  have "count_event m a (count_event n e s) = count_event n e (count_event m a s)"
    using assms by (intro count_events_commute) simp
  then show ?case
    by (simp add: Cons.IH)
qed simp

lemma run_workers_simps: "run_workers [] s = s" "run_workers ((n, es) # ws) s = run_workers ws (fold (count_event n) es s)"
  by (simp_all add: run_workers_def)

lemma run_workers_commute: "n \<notin> fst ` set ws \<Longrightarrow> run_workers ws (count_event n e s) = count_event n e (run_workers ws s)"
proof (induction ws arbitrary: s)
  case (Cons w ws)
  obtain m es where "w = (m, es)"
    by fastforce
  then show ?case
    using Cons fold_event_commute [of n m es e s] by (simp add: run_workers_simps)
qed (simp add: run_workers_simps)

lemma run_workers_append: "run_workers (xs @ ys) s = run_workers ys (run_workers xs s)"
  by (simp add: run_workers_def)

lemma run_workers_step:
  assumes "distinct (map fst ws)" "i < length ws" "ws ! i = (n, e # es)"
  shows "run_workers (ws[i := (n, es)]) (count_event n e s) = run_workers ws s"
proof -
  have w: "ws = take i ws @ (n, e # es) # drop (Suc i) ws" "ws[i := (n, es)] = take i ws @ (n, es) # drop (Suc i) ws"
    using id_take_nth_drop [OF assms(2)] assms(3) upd_conv_take_nth_drop [OF assms(2)] by simp_all
  have "distinct (map fst (take i ws @ (n, e # es) # drop (Suc i) ws))"
    using assms(1) w(1) by metis
  then have "n \<notin> fst ` set (take i ws)"
    by auto
  then have "run_workers (take i ws) (count_event n e s) = count_event n e (run_workers (take i ws) s)"
    by (rule run_workers_commute)
  then show ?thesis
    by (subst w(2), subst (2) w(1)) (simp add: run_workers_append, simp add: run_workers_def)
qed

lemma ended_run_workers: "ended ws \<Longrightarrow> run_workers ws s = s"
  by (induction ws arbitrary: s) (auto simp: ended_def run_workers_def)

section \<open>Runs of the scheduler\<close>

lemma worker_step_invariant:
  assumes "worker_step (ws, d) (ws', d')" "distinct (map fst ws)"
  shows "map fst ws' = map fst ws \<and> run_workers ws' (counters d') = run_workers ws (counters d) \<and> Suc (steps_left ws') = steps_left ws"
proof -
  obtain i name e es where 1: "ws' = ws[i := (name, es)]" "d' = apply_event name e d" "i < length ws" "ws ! i = (name, e # es)"
    using assms(1) by (auto elim: worker_stepE)
  have "map fst ws' = map fst ws"
    unfolding 1(1) map_update using 1(3,4) by (metis fst_conv list_update_id nth_map)
  moreover have "Suc (steps_left ws') = steps_left ws"
  proof -
    have "ws = take i ws @ (name, e # es) # drop (Suc i) ws" "ws' = take i ws @ (name, es) # drop (Suc i) ws"
      using id_take_nth_drop [OF 1(3)] 1(1,4) upd_conv_take_nth_drop [OF 1(3)] by simp_all
    then show ?thesis
      by (metis (no_types, lifting) steps_left_def map_append list.map(2) sum_list.append sum_list.Cons comp_apply
          snd_conv list.size(4) add_Suc_right add_Suc One_nat_def add.right_neutral)
  qed
  ultimately show ?thesis
    using run_workers_step [OF assms(2) 1(3,4)] 1(1,2) by (simp add: counters_event)
qed

lemma worker_run_invariant:
  assumes "(worker_step ^^ n) (ws, d) (ws', d')" "distinct (map fst ws)"
  shows "map fst ws' = map fst ws \<and> run_workers ws' (counters d') = run_workers ws (counters d) \<and> n + steps_left ws' = steps_left ws"
  using assms(1)
proof (induction n arbitrary: ws' d')
  case (Suc n)
  then obtain ws1 d1 where s: "(worker_step ^^ n) (ws, d) (ws1, d1)" "worker_step (ws1, d1) (ws', d')"
    by auto
  from Suc.IH [OF s(1)] worker_step_invariant [OF s(2)] assms(2) show ?case
    by auto
qed simp

lemma worker_progress: "\<not> ended ws \<Longrightarrow> \<exists>s. worker_step (ws, d) s"
proof -
  assume "\<not> ended ws"
  then obtain n es where "(n, es) \<in> set ws" "es \<noteq> []"
    by (auto simp: ended_def list_all_iff)
  then obtain i e es' where "i < length ws" "ws ! i = (n, e # es')"
    by (metis in_set_conv_nth neq_Nil_conv)
  then show ?thesis
    using worker_step.step by blast
qed

lemma steps_left_ended: "steps_left ws = 0 \<longleftrightarrow> ended ws"
  by (auto simp: steps_left_def ended_def list_all_iff)

section \<open>Against the sequential model\<close>

lemma count_crc_errors: "(count_event n CrcError ^^ k) (c, f, r) = (c + k, f, r)"
  by (induction k) simp_all

lemma finish_job_counters:
  "counters (snd (finish_job name j d)) = fold (count_event name) (worker_events (d_polling d) j) (counters d)"
proof -
  obtain out any errs where p: "poll_inverter (d_polling d) j = (out, any, errs)"
    by (cases "poll_inverter (d_polling d) j")
  show ?thesis
    by (cases any) (auto simp: finish_job_def worker_events_def p Let_def counters_def count_crc_errors count_failure_def
        dget_or_def dict_simps fun_eq_iff)
qed

definition on_time :: "(string \<Rightarrow> iv_in) \<Rightarrow> daemon \<Rightarrow> inverter_cfg \<Rightarrow> bool" where
  "on_time inp d iv \<longleftrightarrow> in_in_time (inp (iv_name iv)) \<and> dget_or (running d) (iv_name iv) None = None"

lemma poll_one_counters:
  assumes "on_time inp d iv" and "poll_one tier iv (inp (iv_name iv)) d = (out, ms, d1)"
  shows "counters d1 = run_workers [worker_of (d_polling d) tier inp iv] (counters d)
    \<and> d_polling d1 = d_polling d \<and> running d1 = dset (iv_name iv) None (running d)"
proof -
  let ?j = "\<lparr>j_slave = iv_slave iv, j_tier = tier, j_tries = in_tries (inp (iv_name iv))\<rparr>"
  obtain out1 d2 where f: "finish_job (iv_name iv) ?j d = (out1, d2)"
    by fastforce
  have "d1 = d2\<lparr>running := dset (iv_name iv) None (running d2)\<rparr>"
    using assms f by (simp add: poll_one_def submit_job_def on_time_def Let_def)
  moreover have "d_polling d2 = d_polling d" "running d2 = running d"
    using f by (auto simp: finish_job_def Let_def count_failure_def split: prod.splits if_splits)
  ultimately show ?thesis
    using finish_job_counters [of "iv_name iv" ?j d] f by (simp add: counters_running run_workers_simps worker_of_def)
qed

lemma poll_each_counters:
  "list_all (on_time inp d) ivs \<Longrightarrow>
   counters (snd (snd (poll_each tier ivs inp d))) = run_workers (map (worker_of (d_polling d) tier inp) ivs) (counters d)"
proof (induction ivs arbitrary: d)
  case (Cons iv ivs)
  obtain out ms d1 where o: "poll_one tier iv (inp (iv_name iv)) d = (out, ms, d1)"
    by (cases "poll_one tier iv (inp (iv_name iv)) d")
  have s: "counters d1 = run_workers [worker_of (d_polling d) tier inp iv] (counters d)" "d_polling d1 = d_polling d"
    "running d1 = dset (iv_name iv) None (running d)"
    using poll_one_counters [where d = d and inp = inp and iv = iv, OF _ o] Cons.prems by simp_all
  have "list_all (on_time inp d1) ivs"
    using Cons.prems by (auto simp: list_all_iff on_time_def s(3) dget_or_def dict_simps)
  note t = this
  have "counters (snd (snd (poll_each tier (iv # ivs) inp d))) = counters (snd (snd (poll_each tier ivs inp d1)))"
    by (simp add: o split: prod.split)
  also have "\<dots> = run_workers (map (worker_of (d_polling d) tier inp) ivs) (counters d1)"
    using Cons.IH [OF t] by (simp only: s(2))
  also have "\<dots> = run_workers ([worker_of (d_polling d) tier inp iv] @ map (worker_of (d_polling d) tier inp) ivs) (counters d)"
    by (simp only: s(1) run_workers_append)
  finally show ?case
    by simp
qed (simp add: run_workers_simps)


lemma complete_run:
  "steps_left ws = n \<Longrightarrow> distinct (map fst ws) \<Longrightarrow> \<exists>ws' d'. (worker_step ^^ n) (ws, d) (ws', d') \<and> ended ws'"
proof (induction n arbitrary: ws d)
  case 0
  then show ?case
    using steps_left_ended [of ws] by auto
next
  case (Suc n)
  then obtain ws1 d1 where s: "worker_step (ws, d) (ws1, d1)"
    using worker_progress [of ws d] steps_left_ended [of ws] by auto
  then have "steps_left ws1 = n" "distinct (map fst ws1)"
    using worker_step_invariant [OF s] Suc.prems by auto
  from Suc.IH [OF this, of d1] s show ?case
    by (meson relpowp_Suc_I2)
qed


end
