(* ===== verification/Worker_Timeout.thy ===== *)
theory Worker_Timeout
  imports Daemon_Runs Bridge_Config
begin

text \<open>
  The limit \<open>_poll_worker_timeout_s\<close> that \<open>daemon.py\<close> derives from the configuration, and the time that a worker of
  \<open>_poll_inverter\<close> can take: with the default configuration it always suffices, for more attempts it does not.
\<close>

section \<open>How long a worker may take\<close>

definition tier_blocks :: "block_tier \<Rightarrow> block list" where
  "tier_blocks tier = filter (\<lambda>b. bl_tier b = tier) BLOCKS"

definition block_count_max :: nat where
  "block_count_max = max (max (length (tier_blocks HOT)) (length (tier_blocks COLD))) 1"

definition poll_worker_timeout :: "polling_cfg \<Rightarrow> pyfloat" where
  "poll_worker_timeout cfg =
     pmul (Fin 2)
       (padd (pmul (pmul (serial_timeout_s cfg) (Fin (fl (of_int (max 1 (retry_attempts cfg)))))) (Fin (of_nat block_count_max)))
          (Fin 10))"

text \<open>The time a worker spends, if the query number \<open>i\<close> for a block takes \<open>took i\<close> seconds and sleeping
  takes what was asked for: after every pause comes another query.\<close>

fun seconds :: "pyfloat \<Rightarrow> rat" where
  "seconds (Fin x) = x"
| "seconds _ = 0"

definition block_time :: "polling_cfg \<Rightarrow> int \<Rightarrow> block \<Rightarrow> (nat \<Rightarrow> serial_try) \<Rightarrow> (nat \<Rightarrow> rat) \<Rightarrow> rat" where
  "block_time cfg slave b tries took =
     (let pauses = snd (snd (poll_block cfg slave b tries));
          queries = (if retry_attempts cfg \<le> 0 then 0 else Suc (length pauses))
      in sum_list (map took [0..<queries]) + sum_list (map seconds pauses) + seconds (inter_query_delay_s cfg))"

definition worker_time :: "polling_cfg \<Rightarrow> job \<Rightarrow> (int \<Rightarrow> nat \<Rightarrow> rat) \<Rightarrow> rat" where
  "worker_time cfg j took =
     sum_list (map (\<lambda>b. block_time cfg (j_slave j) b (j_tries j (bl_addr b)) (took (bl_addr b))) (tier_blocks (j_tier j)))"

lemma block_pauses:
  "\<exists>m \<le> nat (retry_attempts cfg) - 1.
     snd (snd (poll_block cfg slave b tries)) = map (\<lambda>i. pmul (retry_backoff_s cfg) (Fin (2 ^ i))) [0..<m]"
proof (cases "0 \<le> retry_attempts cfg")
  case True
  then show ?thesis
    using retry_loop_eq [of 0 "nat (retry_attempts cfg)" cfg _ slave b tries]
    by (auto simp: poll_block_def intro!: exI [where x = "min _ _"])
qed (simp add: poll_block_def)

lemma sum_upt_le:
  fixes f :: "nat \<Rightarrow> rat"
  assumes "\<And>i. 0 \<le> f i" "m \<le> n"
  shows "sum_list (map f [0..<m]) \<le> sum_list (map f [0..<n])"
proof -
  have "[0..<n] = [0..<m] @ [m..<n]"
    using assms(2) upt_add_eq_append [of 0 m "n - m"] by simp
  then show ?thesis
    using assms(1) by (auto intro!: sum_list_nonneg)
qed

lemma sum_took_le:
  fixes f :: "nat \<Rightarrow> rat"
  assumes "\<And>i. f i \<le> q" "0 \<le> q" "m \<le> n"
  shows "sum_list (map f [0..<m]) \<le> of_nat n * q"
proof -
  have "sum_list (map f [0..<m]) \<le> of_nat m * q"
    using sum_list_mono [of "[0..<m]" f "\<lambda>_. q"] assms(1) by (simp add: sum_list_triv)
  also have "\<dots> \<le> of_nat n * q"
    using assms(2,3) by (intro mult_right_mono) simp_all
  finally show ?thesis .
qed

text \<open>The worst case of a block: every attempt made, every pause taken.\<close>

definition worst_block :: "polling_cfg \<Rightarrow> rat \<Rightarrow> rat" where
  "worst_block cfg q =
     (let n = nat (retry_attempts cfg) in
      of_nat n * q + sum_list (map (\<lambda>i. seconds (pmul (retry_backoff_s cfg) (Fin (2 ^ i)))) [0..<n - 1])
      + seconds (inter_query_delay_s cfg))"

lemma block_time_le:
  assumes "\<And>i. took i \<le> q" "0 \<le> q" "\<And>i. 0 \<le> seconds (pmul (retry_backoff_s cfg) (Fin (2 ^ i)))"
  shows "block_time cfg slave b tries took \<le> worst_block cfg q"
proof -
  let ?p = "\<lambda>i. seconds (pmul (retry_backoff_s cfg) (Fin (2 ^ i)))"
  let ?n = "nat (retry_attempts cfg)"
  obtain m where m: "m \<le> ?n - 1"
    "snd (snd (poll_block cfg slave b tries)) = map (\<lambda>i. pmul (retry_backoff_s cfg) (Fin (2 ^ i))) [0..<m]"
    using block_pauses by blast
  define queries where "queries = (if retry_attempts cfg \<le> 0 then 0 else Suc m)"
  have q: "queries \<le> ?n"
    using m(1) by (auto simp: queries_def)
  have "block_time cfg slave b tries took
      = sum_list (map took [0..<queries]) + sum_list (map ?p [0..<m]) + seconds (inter_query_delay_s cfg)"
    by (simp add: block_time_def m(2) Let_def comp_def queries_def)
  then show ?thesis
    using sum_took_le [of took, OF assms(1,2) q] sum_upt_le [where f = ?p, OF assms(3) m(1)]
    by (simp only: worst_block_def Let_def)
qed

lemma worker_time_le:
  assumes "\<And>a i. took a i \<le> q" "0 \<le> q" "\<And>i. 0 \<le> seconds (pmul (retry_backoff_s cfg) (Fin (2 ^ i)))"
    "0 \<le> worst_block cfg q"
  shows "worker_time cfg j took \<le> of_nat block_count_max * worst_block cfg q"
proof -
  have "worker_time cfg j took \<le> of_nat (length (tier_blocks (j_tier j))) * worst_block cfg q"
    using sum_list_mono [of "tier_blocks (j_tier j)"
        "\<lambda>b. block_time cfg (j_slave j) b (j_tries j (bl_addr b)) (took (bl_addr b))" "\<lambda>_. worst_block cfg q"]
      block_time_le [OF assms(1-3)]
    by (simp add: worker_time_def sum_list_triv)
  also have "\<dots> \<le> of_nat block_count_max * worst_block cfg q"
    using assms(4) by (intro mult_right_mono) (cases "j_tier j", simp_all add: block_count_max_def)
  finally show ?thesis .
qed

lemma block_count_max_eq: "block_count_max = 4"
  by (simp add: block_count_max_def tier_blocks_def BLOCKS_def)

lemma mkf_small: "is_double x \<Longrightarrow> \<bar>x\<bar> \<le> 1000 \<Longrightarrow> mkf x = Fin x"
  using pfloat_small [of x] by simp

lemma mkf_half: "\<bar>m\<bar> \<le> 2000 \<Longrightarrow> mkf (of_int m / 2) = Fin (of_int m / 2)"
proof (rule mkf_small)
  assume m: "\<bar>m\<bar> \<le> 2000"
  have "of_int m / 2 = of_int m * pow2 (- 1)" "\<bar>m\<bar> \<le> 2 ^ 53"
    using m by (simp_all add: power_int_minus)
  then show "is_double (of_int m / 2)"
    unfolding is_double_def by (intro exI [of _ m] exI [of _ "- 1"]) simp
qed simp_all

text \<open>With a timeout of a second and a half and four blocks.\<close>

lemma worker_timeout_eq:
  assumes "serial_timeout_s cfg = Fin (3 / 2)" "1 \<le> retry_attempts cfg" "retry_attempts cfg \<le> 20"
  shows "poll_worker_timeout cfg = Fin (12 * of_int (retry_attempts cfg) + 20)"
proof -
  let ?r = "retry_attempts cfg"
  have "fl (of_int ?r) = of_int ?r"
    using assms by (intro fl_int) simp
  moreover have "mkf (of_int (3 * ?r) / 2) = Fin (of_int (3 * ?r) / 2)" "mkf (of_int (12 * ?r) / 2) = Fin (of_int (12 * ?r) / 2)"
    "mkf (of_int (12 * ?r + 20) / 2) = Fin (of_int (12 * ?r + 20) / 2)"
    "mkf (of_int (24 * ?r + 40) / 2) = Fin (of_int (24 * ?r + 40) / 2)"
    using assms by (intro mkf_half; simp)+
  ultimately show ?thesis
    using assms by (simp add: poll_worker_timeout_def block_count_max_eq max_def algebra_simps add_divide_distrib)
qed

lemma flit_tenth: "flit 1 1 = 3602879701896397 / 36028797018963968"
  by code_simp

lemma flit_delay: "flit 5 2 = 3602879701896397 / 72057594037927936"
  by code_simp

text \<open>The pauses of the default back-off are exact: scaling a double by a power of two is.\<close>

lemma default_pause:
  assumes "i \<le> 8"
  shows "mkf (flit 1 1 * 2 ^ i) = Fin (flit 1 1 * 2 ^ i)"
proof (rule mkf_small)
  have p: "pow2 (int i - 55) = 2 ^ i / 36028797018963968"
    by (simp add: pow2_diff)
  have "flit 1 1 * 2 ^ i = of_int 3602879701896397 * pow2 (int i - 55)"
    unfolding p flit_tenth by simp
  moreover have "\<bar>3602879701896397 :: int\<bar> \<le> 2 ^ 53" "- 1074 \<le> int i - 55"
    by simp_all
  ultimately show "is_double (flit 1 1 * 2 ^ i)"
    unfolding is_double_def by blast
  have "(2 :: rat) ^ i \<le> 2 ^ 8"
    using assms by (rule power_increasing) simp
  then show "\<bar>flit 1 1 * 2 ^ i\<bar> \<le> 1000"
    unfolding flit_tenth by simp
qed

lemma default_pause_sum:
  "m \<le> 9 \<Longrightarrow> sum_list (map (\<lambda>i. seconds (pmul (Fin (flit 1 1)) (Fin (2 ^ i)))) [0..<m]) = flit 1 1 * (2 ^ m - 1)"
  by (induction m) (simp_all add: default_pause [unfolded One_nat_def] algebra_simps)

lemma worst_default:
  assumes "1 \<le> r" "r \<le> 10"
  shows "worst_block (default_polling\<lparr>retry_attempts := int r\<rparr>) q = of_nat r * q + flit 1 1 * (2 ^ (r - 1) - 1) + flit 5 2"
  using assms by (simp only: worst_block_def default_polling_def polling_cfg.simps Let_def nat_int) (subst default_pause_sum, simp_all)

lemma default_worst: "worst_block default_polling 3 \<le> 10" "0 \<le> worst_block default_polling 3"
proof -
  have "worst_block default_polling 3 = 9 + flit 1 1 * 3 + flit 5 2"
    using worst_default [of 3 3] by (simp add: default_polling_def)
  then show "worst_block default_polling 3 \<le> 10" "0 \<le> worst_block default_polling 3"
    unfolding flit_tenth flit_delay by simp_all
qed

lemma default_pauses: "0 \<le> seconds (pmul (retry_backoff_s default_polling) (Fin (2 ^ i)))"
  by (simp add: default_polling_def flit_def mkf_def fl_nonneg Let_def)

text \<open>With the default configuration no worker is given up while it still works, as long as a query takes
  at most twice its timeout: the window, and one last read of that length.\<close>

theorem default_worker_in_time:
  assumes "\<And>a i. took a i \<le> 2 * seconds (serial_timeout_s default_polling)"
  shows "ple (Fin (worker_time default_polling j took)) (poll_worker_timeout default_polling)"
proof -
  have t: "\<And>a i. took a i \<le> 3"
    using assms by (simp add: default_polling_def)
  have "worker_time default_polling j took \<le> 4 * worst_block default_polling 3"
    using worker_time_le [where cfg = default_polling and q = 3, OF t _ default_pauses] default_worst by (simp add: block_count_max_eq)
  then show ?thesis
    using default_worst worker_timeout_eq [of default_polling] by (simp add: default_polling_def)
qed

text \<open>With nine attempts, everything else at its default, a silent bus keeps the worker beyond the
  timeout although no query takes longer than its window: the pauses double, the timeout grows linearly.\<close>

definition silent_job :: job where
  "silent_job = \<lparr>j_slave = 1, j_tier = HOT, j_tries = (\<lambda>_ _. Chunks [])\<rparr>"

lemma silent_times_out: "list_all (\<lambda>b. timed_out 1 b (Chunks [])) (tier_blocks HOT)"
  by (simp add: tier_blocks_def BLOCKS_def timed_out_def query_def build_read_holding_request_def)

lemma silent_block_time:
  assumes "timed_out slave b (Chunks [])" "0 < retry_attempts cfg"
  shows "block_time cfg slave b (\<lambda>_. Chunks []) (\<lambda>_. q) = worst_block cfg q"
proof -
  let ?n = "nat (retry_attempts cfg)"
  have k: "length (takeWhile (\<lambda>i. timed_out slave b (Chunks [])) [0..<0 + ?n]) = ?n"
    using assms(1) by (simp add: takeWhile_eq_all_conv [THEN iffD2])
  have p: "snd (snd (poll_block cfg slave b (\<lambda>_. Chunks [])))
      = map (\<lambda>i. pmul (retry_backoff_s cfg) (Fin (2 ^ i))) [0..<?n - 1]"
    using retry_loop_eq [of 0 ?n cfg ?n slave b "\<lambda>_. Chunks []"] k assms(2) by (simp add: poll_block_def)
  have "Suc (?n - 1) = ?n"
    using assms(2) by simp
  then show ?thesis
    using assms(2) by (simp add: block_time_def worst_block_def p Let_def comp_def sum_list_triv)
qed

lemma silent_worst: "38 < worst_block (default_polling\<lparr>retry_attempts := 9\<rparr>) (3 / 2)"
proof -
  have "worst_block (default_polling\<lparr>retry_attempts := 9\<rparr>) (3 / 2) = 27 / 2 + flit 1 1 * 255 + flit 5 2"
    using worst_default [of 9 "3 / 2"] by simp
  then show ?thesis
    unfolding flit_tenth flit_delay by simp
qed

theorem worker_timeout_exceeded:
  "\<not> ple (Fin (worker_time (default_polling\<lparr>retry_attempts := 9\<rparr>) silent_job (\<lambda>_ _. 3 / 2)))
     (poll_worker_timeout (default_polling\<lparr>retry_attempts := 9\<rparr>))"
proof -
  let ?cfg = "default_polling\<lparr>retry_attempts := 9\<rparr>"
  have "map (\<lambda>b. block_time ?cfg 1 b (\<lambda>_. Chunks []) (\<lambda>_. 3 / 2)) (tier_blocks HOT)
      = map (\<lambda>_. worst_block ?cfg (3 / 2)) (tier_blocks HOT)"
    using silent_times_out by (intro map_cong refl silent_block_time) (auto simp: list_all_iff)
  then have "worker_time ?cfg silent_job (\<lambda>_ _. 3 / 2) = 4 * worst_block ?cfg (3 / 2)"
    by (simp add: worker_time_def silent_job_def sum_list_triv tier_blocks_def BLOCKS_def)
  then show ?thesis
    using silent_worst worker_timeout_eq [of ?cfg] by (simp add: default_polling_def)
qed

end
