(* ===== verification/Entry_Point.thy ===== *)
theory Entry_Point
  imports Daemon_Messages Bridge_Config
begin

text \<open>
  The program as it is started: \<open>__main__.py\<close>, with the configuration it loads and the daemon it runs, and
  \<open>sdnotify.py\<close>. The command line is its decoded options.
\<close>

section \<open>Notifying systemd\<close>

text \<open>The datagrams sent, with the address of the socket; a send that fails is ignored.\<close>

definition sd_notify :: "string option \<Rightarrow> (string \<Rightarrow> bool) \<Rightarrow> string \<Rightarrow> (string \<times> string) list" where
  "sd_notify notify_socket reachable state =
     (case notify_socket of
        None \<Rightarrow> []
      | Some [] \<Rightarrow> []
      | Some (c # cs) \<Rightarrow>
          let addr = (if c = CHR ''@'' then CHR 0x00 # cs else c # cs)
          in if reachable addr then [(addr, state)] else [])"

section \<open>The log level\<close>

definition LOG_LEVELS :: "(string, nat) dict" where
  "LOG_LEVELS = [(''CRITICAL'', 50), (''FATAL'', 50), (''ERROR'', 40), (''WARNING'', 30), (''WARN'', 30),
     (''INFO'', 20), (''DEBUG'', 10), (''NOTSET'', 0)]"

datatype main_exc = ConfigRaised config_error | LevelNotText | LevelRejected

text \<open>\<open>getattr(logging, level.upper(), logging.INFO)\<close>, as \<open>basicConfig\<close> takes it: the module has two more
  attributes in capitals, which are not levels.\<close>

definition log_level :: "string option \<Rightarrow> pyval \<Rightarrow> main_exc + nat" where
  "log_level arg configured =
     (case (case arg of Some (c # cs) \<Rightarrow> PyStr (c # cs) | _ \<Rightarrow> configured) of
        PyStr s \<Rightarrow>
          let upper = map to_upper s in
          (case dget LOG_LEVELS upper of
             Some n \<Rightarrow> Inr n
           | None \<Rightarrow> if upper = ''BASIC_FORMAT'' \<or> upper = ''_STYLES'' then Inl LevelRejected else Inr 20)
      | _ \<Rightarrow> Inl LevelNotText)"

section \<open>From a document to the end of the program\<close>

text \<open>The daemon is modelled for names, ports and topics that are text; \<open>None\<close> are the other values.\<close>

fun text_of :: "pyval \<Rightarrow> string option" where
  "text_of (PyStr s) = Some s"
| "text_of _ = None"

definition inverter_of :: "loaded_inverter \<Rightarrow> inverter_cfg option" where
  "inverter_of li =
     Option.bind (text_of (li_name li)) (\<lambda>name.
     Option.bind (text_of (li_port li)) (\<lambda>dev.
     Some \<lparr>iv_name = name, iv_port = dev, iv_slave = li_slave li\<rparr>))"

definition mqtt_of :: "loaded_mqtt \<Rightarrow> mqtt_cfg option" where
  "mqtt_of lm =
     Option.bind (text_of (lm_host lm)) (\<lambda>h.
     Option.bind (text_of (lm_username lm)) (\<lambda>u.
     Option.bind (text_of (lm_client_id lm)) (\<lambda>cid.
     Option.bind (text_of (lm_topic_prefix lm)) (\<lambda>pre.
     Option.bind (text_of (lm_discovery_prefix lm)) (\<lambda>dpre.
     Some \<lparr>host = h, username = u, password = lm_password lm, port = lm_port lm, client_id = cid,
       topic_prefix = pre, discovery_prefix = dpre, retain_discovery = lm_retain_discovery lm, qos = lm_qos lm\<rparr>)))))"

definition daemon_config :: "bridge_config \<Rightarrow> (inverter_cfg list \<times> mqtt_cfg) option" where
  "daemon_config cfg =
     Option.bind (those (map inverter_of (bc_inverters cfg))) (\<lambda>ivs.
     Option.bind (mqtt_of (bc_mqtt cfg)) (\<lambda>mqtt. Some (ivs, mqtt)))"

definition DEFAULT_ENERGY_PERSIST_PATH :: string where
  "DEFAULT_ENERGY_PERSIST_PATH = ''/var/lib/inverter-bridge/energy.json''"

text \<open>What the program meets: the document, if the file exists, the option \<open>--log-level\<close>, whether the broker can be
  reached, the disks, and the run, which a signal interrupts in its loop.\<close>

record main_in =
  mi_document :: "pyval option"
  mi_log_level :: "string option"
  mi_connects :: bool
  mi_disk :: energy_fs
  mi_bms_disk :: energy_fs
  mi_now :: rat
  mi_loop_now :: rat
  mi_loop :: "loop_in list"
  mi_save_ok :: "save_op \<Rightarrow> bool"
  mi_bms :: bms_in

datatype main_end = Exit int | Uncaught main_exc | NotText

text \<open>An unreachable broker raises out of \<open>connect\<close>, before the \<open>finally\<close> block.\<close>

definition bridge_main :: "py_version \<Rightarrow> (pyval \<Rightarrow> string) \<Rightarrow> (string \<Rightarrow> text_file) \<Rightarrow> main_in
    \<Rightarrow> main_end \<times> paho_call list \<times> bms_call list" where
  "bridge_main ver repr files inp =
     (case mi_document inp of
        None \<Rightarrow> (Exit 2, [], [])
      | Some doc \<Rightarrow>
          (case load_config repr files doc of
             Inl e \<Rightarrow> (Uncaught (ConfigRaised e), [], [])
           | Inr cfg \<Rightarrow>
               (case log_level (mi_log_level inp) (lg_level (bc_logging cfg)) of
                  Inl e \<Rightarrow> (Uncaught e, [], [])
                | Inr _ \<Rightarrow>
                    (case daemon_config cfg of
                       None \<Rightarrow> (NotText, [], [])
                     | Some (ivs, mqtt) \<Rightarrow>
                         (case daemon_init ivs (bc_polling cfg) mqtt (bc_bms cfg) (Some DEFAULT_ENERGY_PERSIST_PATH)
                            (mi_disk inp) (mi_bms_disk inp) (mi_now inp) of
                            Inl _ \<Rightarrow> (Exit 1, [], [])
                          | Inr d \<Rightarrow>
                              if mi_connects inp then
                                (case daemon_start ver (mi_loop_now inp) (mi_loop inp) (mi_save_ok inp) (mi_bms inp) d of
                                   (calls, bms_calls, _) \<Rightarrow> (Exit 0, calls, bms_calls))
                              else (Exit 1, fst (mqtt_connect (d_publisher d)), []))))))"

section \<open>The whole program\<close>

text \<open>A log level that is a number, as \<open>logging\<close> itself takes it, is loaded and then ends the program with an
  exception.\<close>

lemma numeric_level_crashes:
  assumes "mi_document inp = Some doc" "load_config repr files doc = Inr cfg"
    "lg_level (bc_logging cfg) = PyInt n" "mi_log_level inp = None"
  shows "bridge_main ver repr files inp = (Uncaught LevelNotText, [], [])"
  by (simp add: bridge_main_def assms log_level_def)

lemma main_Exit_0:
  assumes "bridge_main ver repr files inp = (Exit 0, calls, bms_calls)"
  obtains doc cfg ivs mqtt d d1 where "mi_document inp = Some doc" "load_config repr files doc = Inr cfg"
    "daemon_config cfg = Some (ivs, mqtt)"
    "daemon_init ivs (bc_polling cfg) mqtt (bc_bms cfg) (Some DEFAULT_ENERGY_PERSIST_PATH)
       (mi_disk inp) (mi_bms_disk inp) (mi_now inp) = Inr d"
    "daemon_start ver (mi_loop_now inp) (mi_loop inp) (mi_save_ok inp) (mi_bms inp) d = (calls, bms_calls, d1)"
  using assms by (auto simp: bridge_main_def split: option.splits sum.splits prod.splits if_splits)

lemma mqtt_of_retain: "mqtt_of lm = Some mqtt \<Longrightarrow> retain_discovery mqtt = lm_retain_discovery lm"
  by (auto simp: mqtt_of_def split: Option.bind_splits)


definition demo_main :: main_in where
  "demo_main = \<lparr>mi_document = Some (config_document ''pw'' demo_config), mi_log_level = Some ''debug'', mi_connects = True,
     mi_disk = empty_disk, mi_bms_disk = empty_disk, mi_now = 0, mi_loop_now = 0, mi_loop = [demo_loop],
     mi_save_ok = (\<lambda>_. True), mi_bms = demo_bms_in\<rparr>"

lemma demo_main_sel: "mi_document demo_main = Some (config_document ''pw'' demo_config)" "mi_log_level demo_main = Some ''debug''"
  "mi_connects demo_main" "mi_disk demo_main = empty_disk"
  by (simp_all add: demo_main_def)

lemma demo_daemon_config: "\<exists>ivs mqtt. daemon_config demo_config = Some (ivs, mqtt) \<and> length ivs = 2"
  by (simp add: daemon_config_def mqtt_of_def inverter_of_def demo_config_def)

lemma demo_runs: "\<exists>calls bms_calls. bridge_main Py312 (\<lambda>_. ''?'') (\<lambda>_. TextIs ''secret'') demo_main = (Exit 0, calls, bms_calls)"
proof -
  have u: "map to_upper ''debug'' = ''DEBUG''" "dget LOG_LEVELS ''DEBUG'' = Some 10"
    by code_simp+
  have l: "log_level (Some ''debug'') v = Inr 10" for v
    unfolding log_level_def option.case list.case pyval.case u Let_def by (rule refl)
  obtain ivs mqtt where c: "daemon_config demo_config = Some (ivs, mqtt)"
    using demo_daemon_config by blast
  have "\<exists>d. daemon_init ivs (bc_polling demo_config) mqtt (bc_bms demo_config) (Some DEFAULT_ENERGY_PERSIST_PATH)
      (mi_disk demo_main) (mi_bms_disk demo_main) (mi_now demo_main) = Inr d"
    by (simp add: daemon_init_def energy_init_def energy_load_def empty_disk_def demo_main_sel)
  then obtain d where d: "daemon_init ivs (bc_polling demo_config) mqtt (bc_bms demo_config) (Some DEFAULT_ENERGY_PERSIST_PATH)
      (mi_disk demo_main) (mi_bms_disk demo_main) (mi_now demo_main) = Inr d" ..
  show ?thesis
    by (simp add: bridge_main_def demo_main_sel(1-3) demo_loads l c d split: prod.split)
qed


end
