(* ===== verification/Tool_Reports.thy ===== *)
theory Tool_Reports
  imports Purge_Runs Rename_Runs Cleanup_Runs "HOL-Library.Product_Lexorder" "HOL-Library.Multiset"
begin

text \<open>What the three tools print for their user: the reports, plans and results of
  \<open>cleanup_orphan_discoveries.py\<close>, \<open>purge_ha_zombies.py\<close> and \<open>rename_ha_entities.py\<close>, as data. A line is the
  values it shows; its wording and padding, and the reasons in the lists of failures, are left out. The functions that end
  in \<open>prints\<close> follow the runs of the tools branch by branch.\<close>

section \<open>The report of the cleanup\<close>

datatype mark = WillClean | WouldClean | Preserved

record report_section =
  rs_category :: category
  rs_mark :: mark
  rs_items :: "discovery list"

record cleanup_report =
  rp_total :: nat
  rp_counts :: "(category \<times> nat) list"
  rp_static_cleaned :: bool
  rp_sections :: "report_section list"

definition report_section_of :: "bool \<Rightarrow> (category \<Rightarrow> discovery list) \<Rightarrow> category \<Rightarrow> bool \<Rightarrow> report_section list" where
  "report_section_of apply_it buckets cat will_clean =
     (let items = buckets cat in
      if items = [] then []
      else
        [\<lparr>rs_category = cat,
          rs_mark = (if apply_it \<and> will_clean then WillClean else if will_clean then WouldClean else Preserved),
          rs_items = sort_key (\<lambda>d. (ds_component d, ds_unique_id d, ds_topic d)) items\<rparr>])"

definition print_cleanup_report :: "(category \<Rightarrow> discovery list) \<Rightarrow> bool \<Rightarrow> bool \<Rightarrow> cleanup_report" where
  "print_cleanup_report buckets include_sa_static apply_it =
     \<lparr>rp_total = sum_list (map (\<lambda>c. length (buckets c)) [CANONICAL, ORPHAN_V1, ORPHAN_COLLISION, SA_STATIC, UNRELATED]),
      rp_counts = map (\<lambda>c. (c, length (buckets c))) [CANONICAL, ORPHAN_V1, ORPHAN_COLLISION, SA_STATIC, UNRELATED],
      rp_static_cleaned = include_sa_static,
      rp_sections =
        report_section_of apply_it buckets ORPHAN_V1 True
        @ report_section_of apply_it buckets ORPHAN_COLLISION True
        @ report_section_of apply_it buckets SA_STATIC include_sa_static
        @ report_section_of apply_it buckets CANONICAL False
        @ report_section_of apply_it buckets UNRELATED False\<rparr>"

datatype cleanup_print = CleanupReport cleanup_report | CleanupDryRun nat | NothingToClean | Clearing nat | Acknowledged nat nat

text \<open>What a run prints, besides the log; the branches are those of \<open>cleanup_main\<close>.\<close>

definition cleanup_prints :: "(pyval \<Rightarrow> string) \<Rightarrow> cleanup_args \<Rightarrow> cleanup_in \<Rightarrow> spec_error + cleanup_print list" where
  "cleanup_prints repr args inp =
     bindE (load_canonical_spec repr (ci_spec inp) (ca_n_inverters args)) (\<lambda>spec.
       if all_sensor_unique_ids spec = {} \<and> cs_binary_sensors spec = {} then Inr []
       else
         (case ci_captured inp of
            None \<Rightarrow> Inr []
          | Some msgs \<Rightarrow>
              let buckets = build_report (capture_retained repr msgs) spec;
                  report = CleanupReport (print_cleanup_report buckets (ca_include_sa_static args) (ca_apply args));
                  topics = collect_topics_to_clean buckets (ca_include_sa_static args)
              in if \<not> ca_apply args then Inr [report, CleanupDryRun (length topics)]
                 else if topics = [] then Inr [report, NothingToClean]
                 else if \<not> ci_connects inp then Inr [report, Clearing (length topics)]
                 else Inr [report, Clearing (length topics),
                   Acknowledged (snd (clear_retained (ci_acked inp) topics)) (length topics)]))"

section \<open>The report of the purge\<close>

definition purge_domain_of :: "string \<Rightarrow> string" where
  "purge_domain_of entity_id =
     (let head = takeWhile (\<lambda>c. c \<noteq> CHR ''.'') entity_id in if head = [] then ''<no-domain>'' else head)"

definition sorted_counts :: "string list \<Rightarrow> (string \<times> nat) list" where
  "sorted_counts xs = map (\<lambda>k. (k, count_list xs k)) (sort (remdups xs))"

datatype purge_print =
    PurgeReport nat nat nat "(string \<times> nat) list" "(string \<times> nat) list"
  | NoCandidates
  | CandidateRows "(string \<times> string \<times> string) list"
  | PurgeDryRun nat
  | NothingToRemove
  | PurgeAborted
  | Removed nat nat
  | PurgeFailures "string list"

definition print_purge_report :: "registry_entry list \<Rightarrow> registry_entry list \<Rightarrow> string list \<Rightarrow> purge_print" where
  "print_purge_report registry candidates domain_prefixes =
     PurgeReport (length registry)
       (length (filter (\<lambda>e. list_ex (\<lambda>p. starts_with p (re_entity_id e)) domain_prefixes) registry))
       (length candidates)
       (sorted_counts (map (\<lambda>e. purge_domain_of (re_entity_id e)) candidates))
       (sorted_counts (map re_platform candidates))"

definition print_candidates :: "registry_entry list \<Rightarrow> purge_print" where
  "print_candidates candidates =
     (if candidates = [] then NoCandidates
      else CandidateRows (map (\<lambda>c. (re_entity_id c, re_unique_id c, re_platform c)) (sort_key re_entity_id candidates)))"

definition purge_session_prints ::
  "(pyval \<Rightarrow> string) \<Rightarrow> purge_args \<Rightarrow> purge_in \<Rightarrow> state_record list \<Rightarrow> ws_client \<Rightarrow> purge_print list"
where
  "purge_session_prints repr args inp states client =
     (case list_entity_registry repr (pa_ws_timeout_s args) client of
        (Inl _, _) \<Rightarrow> []
      | (Inr registry, client) \<Rightarrow>
          (case (case pa_canonical_spec args of None \<Rightarrow> Inr None | Some file \<Rightarrow> load_safety_net repr file) of
             Inl _ \<Rightarrow> []
           | Inr canonical_uids \<Rightarrow>
               let candidates = select_candidates registry states (pa_domain args) (pa_min_age_s args)
                     (pa_include_stale_values args) canonical_uids (pi_now inp)
               in print_purge_report registry candidates (pa_domain args)
                  # (if \<not> pa_apply args then [print_candidates candidates, PurgeDryRun (length candidates)]
                     else if candidates = [] then [NothingToRemove]
                     else if \<not> pa_yes args \<and> \<not> prompt_confirm (pi_answer inp)
                     then [print_candidates candidates, PurgeAborted]
                     else
                       (case purge_apply (pa_ws_timeout_s args) candidates client of
                          (Inl _, _) \<Rightarrow> [print_candidates candidates]
                        | (Inr (n_ok, failures), _) \<Rightarrow>
                            [print_candidates candidates, Removed n_ok (length candidates)]
                            @ (if failures \<noteq> [] then [PurgeFailures failures] else [])))))"

definition purge_prints ::
  "(pyval \<Rightarrow> string) \<Rightarrow> iso_reader \<Rightarrow> (string \<Rightarrow> bool) \<Rightarrow> purge_args \<Rightarrow> purge_in \<Rightarrow> purge_print list"
where
  "purge_prints repr fromiso host_ok args inp =
     (if pa_domain args = [] then []
      else
        (case fetch_states fromiso (pi_rest inp) of
           Inl _ \<Rightarrow> []
         | Inr states \<Rightarrow>
             (case ha_base_to_ws_url host_ok (pa_ha_base args) of
                None \<Rightarrow> []
              | Some _ \<Rightarrow>
                  (case client_enter (pa_ha_token args) (pa_ws_timeout_s args) (pi_opened inp) of
                     (Inl _, _) \<Rightarrow> []
                   | (Inr client, _) \<Rightarrow> purge_session_prints repr args inp states client))))"

section \<open>The report of the renames\<close>

fun status_str :: "plan_status \<Rightarrow> string" where
  "status_str PlanOk = ''ok''"
| "status_str NotFound = ''not-found''"
| "status_str WouldCollide = ''would-collide''"
| "status_str DomainMismatch = ''domain-mismatch''"
| "status_str Noop = ''noop''"

text \<open>\<open>PlanItem.detail\<close>; \<open>quoted\<close> is \<open>repr\<close> of a string.\<close>

definition plan_detail :: "(string \<Rightarrow> string) \<Rightarrow> (string, registry_entry) dict \<Rightarrow> plan_item \<Rightarrow> string" where
  "plan_detail quoted by_id p =
     (case pl_status p of
        Noop \<Rightarrow> ''old == new''
      | DomainMismatch \<Rightarrow> quoted (domain_of (pl_old p)) @ '' != '' @ quoted (domain_of (pl_new p))
      | NotFound \<Rightarrow> ''old entity_id not in registry''
      | WouldCollide \<Rightarrow>
          (case dget by_id (pl_new p) of
             Some other \<Rightarrow> ''target owned by another entity (unique_id='' @ quoted (re_unique_id other) @ '')''
           | None \<Rightarrow> '''')
      | PlanOk \<Rightarrow> '''')"

datatype rename_print =
    NoRenamesRequested
  | NoRenamesToPlan
  | PlanSummary nat nat nat
  | PlanRow string string string string
  | RenameDryRun nat nat
  | NothingToRename
  | RenameAborted
  | Renamed nat nat
  | RenameFailures "(string \<times> string) list"

definition print_plan :: "(string \<Rightarrow> string) \<Rightarrow> (string, registry_entry) dict \<Rightarrow> plan_item list \<Rightarrow> rename_print list" where
  "print_plan quoted by_id plan =
     (if plan = [] then [NoRenamesToPlan]
      else
        PlanSummary (length (filter (\<lambda>p. pl_status p = PlanOk) plan)) (length (filter (\<lambda>p. pl_status p \<noteq> PlanOk) plan)) (length plan)
        # map (\<lambda>p. PlanRow (status_str (pl_status p)) (pl_old p) (pl_new p) (plan_detail quoted by_id p)) plan)"

definition rename_session_prints ::
  "(pyval \<Rightarrow> string) \<Rightarrow> (string \<Rightarrow> string) \<Rightarrow> rename_args \<Rightarrow> string option \<Rightarrow> ws_client \<Rightarrow> rename_print list"
where
  "rename_session_prints repr quoted args answer client =
     (case list_entity_registry repr (ra_ws_timeout_s args) client of
        (Inl _, _) \<Rightarrow> []
      | (Inr registry, client) \<Rightarrow>
          (case build_renames_from_args args registry of
             Inl _ \<Rightarrow> []
           | Inr renames \<Rightarrow>
               if renames = [] then [NoRenamesRequested]
               else
                 let plan = validate_renames renames registry;
                     plan_ok = filter (\<lambda>p. pl_status p = PlanOk) plan;
                     plan_bad = filter (\<lambda>p. pl_status p \<noteq> PlanOk) plan
                 in print_plan quoted (by_entity_id registry) plan
                    @ (if \<not> ra_apply args then [RenameDryRun (length plan_ok) (length plan_bad)]
                       else if plan_ok = [] then [NothingToRename]
                       else if \<not> ra_yes args \<and> \<not> prompt_confirm answer then [RenameAborted]
                       else
                         (case rename_apply (ra_ws_timeout_s args) plan_ok client of
                            (Inl _, _) \<Rightarrow> []
                          | (Inr (n_ok, failures), _) \<Rightarrow>
                              Renamed n_ok (length plan_ok) # (if failures \<noteq> [] then [RenameFailures failures] else [])))))"

definition rename_prints ::
  "(pyval \<Rightarrow> string) \<Rightarrow> (string \<Rightarrow> string) \<Rightarrow> (string \<Rightarrow> bool) \<Rightarrow> rename_args \<Rightarrow> ws_exc + ws_conn \<Rightarrow> string option \<Rightarrow> rename_print list"
where
  "rename_prints repr quoted host_ok args opened answer =
     (if length (filter id [ra_mapping args \<noteq> None, ra_pairs args \<noteq> [], ra_audit_f7 args]) \<noteq> 1 then []
      else
        (case ha_base_to_ws_url host_ok (ra_ha_base args) of
           None \<Rightarrow> []
         | Some _ \<Rightarrow>
             (case client_enter (ra_ha_token args) (ra_ws_timeout_s args) opened of
                (Inl _, _) \<Rightarrow> []
              | (Inr client, _) \<Rightarrow> rename_session_prints repr quoted args answer client)))"

end
