(* ===== verification/Report_Runs.thy ===== *)
theory Report_Runs imports Tool_Reports begin

text \<open>The reports against the runs. A report shows every discovery once and marks what would be cleaned; what a
  tool prints without \<open>--apply\<close> is what it does with it.\<close>

section \<open>The cleanup\<close>

text \<open>What a report marks for cleaning.\<close>

definition marked :: "mark \<Rightarrow> cleanup_report \<Rightarrow> discovery set" where
  "marked m r = (\<Union>s \<in> set (rp_sections r). if rs_mark s = m then set (rs_items s) else {})"

lemma marked_sections: "marked m (print_cleanup_report (build_report ds spec) inc ap) =
    {d \<in> set ds. m = (if cleaned inc (categorize d spec) then if ap then WillClean else WouldClean else Preserved)}"
proof -
  have s: "(\<Union>s \<in> set (report_section_of ap (build_report ds spec) cat w). if rs_mark s = m then set (rs_items s) else {})
      = {d \<in> set ds. categorize d spec = cat \<and> m = (if ap \<and> w then WillClean else if w then WouldClean else Preserved)}" for cat w
    by (auto simp: report_section_of_def build_report_def Let_def filter_empty_conv)
  have "categorize d spec \<in> {CANONICAL, ORPHAN_V1, ORPHAN_COLLISION, SA_STATIC, UNRELATED}" for d
    by (cases "categorize d spec") simp_all
  then show ?thesis
    unfolding marked_def print_cleanup_report_def cleanup_report.simps set_append UN_Un s
    by (auto simp: cleaned_def)
qed

lemma report_complete: "mset (concat (map rs_items (rp_sections (print_cleanup_report (build_report ds spec) inc ap)))) = mset ds
    \<and> rp_total (print_cleanup_report (build_report ds spec) inc ap) = length ds"
proof -
  have s: "mset (concat (map rs_items (report_section_of ap (build_report ds spec) cat w))) = filter_mset (\<lambda>d. categorize d spec = cat) (mset ds)" for cat w
  proof -
    have "mset (concat (map rs_items (report_section_of ap (build_report ds spec) cat w))) = mset (build_report ds spec cat)"
      by (simp add: report_section_of_def Let_def mset_sort)
    then show ?thesis
      by (simp add: build_report_def)
  qed
  have "filter_mset (\<lambda>d. categorize d spec = ORPHAN_V1) M + filter_mset (\<lambda>d. categorize d spec = ORPHAN_COLLISION) M
      + filter_mset (\<lambda>d. categorize d spec = SA_STATIC) M + filter_mset (\<lambda>d. categorize d spec = CANONICAL) M
      + filter_mset (\<lambda>d. categorize d spec = UNRELATED) M = M" for M
  proof (induction M)
    case (add d M)
    then show ?case
      by (cases "categorize d spec") simp_all
  qed simp
  moreover have "sum_list (map (\<lambda>c. length (build_report ds spec c)) [CANONICAL, ORPHAN_V1, ORPHAN_COLLISION, SA_STATIC, UNRELATED]) = length ds"
  proof (induction ds)
    case (Cons d ds)
    then show ?case
      by (cases "categorize d spec") (simp_all add: build_report_def)
  qed (simp add: build_report_def)
  ultimately show ?thesis
    unfolding print_cleanup_report_def cleanup_report.simps map_append concat_append mset_append s by (simp add: add.assoc)
qed

text \<open>The dry run of the cleanup tells what the real run does: its report marks the discoveries whose topics are
  cleared, and the number it gives is the number of messages.\<close>

lemma cleanup_dry_run:
  assumes "cleanup_main repr args inp = Inr (code, ms)" and "ca_apply args" and "code = 0 \<or> code = 5"
  shows "\<exists>r. cleanup_prints repr (args\<lparr>ca_apply := False\<rparr>) inp = Inr [CleanupReport r, CleanupDryRun (length ms)]
    \<and> topic ` set ms = ds_topic ` marked WouldClean r"
proof -
  obtain spec where s: "load_canonical_spec repr (ci_spec inp) (ca_n_inverters args) = Inr spec"
    "\<not> (all_sensor_unique_ids spec = {} \<and> cs_binary_sensors spec = {})"
    using assms(1,3) by (auto simp: cleanup_main_def bindE_Inr_iff split: if_splits)
  obtain msgs where m: "ci_captured inp = Some msgs"
    using assms(1,3) s by (auto simp: cleanup_main_def split: option.splits)
  let ?ds = "capture_retained repr msgs"
  let ?r = "print_cleanup_report (build_report ?ds spec) (ca_include_sa_static args) False"
  define topics where "topics = collect_topics_to_clean (build_report ?ds spec) (ca_include_sa_static args)"
  have t: "set topics = ds_topic ` marked WouldClean ?r"
    by (auto simp: topics_def collected marked_sections)
  have ms: "map topic ms = topics"
    using assms s m by (auto simp: cleanup_main_def clear_retained_def Let_def topics_def [symmetric] comp_def split: if_splits)
  have "cleanup_prints repr (args\<lparr>ca_apply := False\<rparr>) inp = Inr [CleanupReport ?r, CleanupDryRun (length topics)]"
    using s m by (simp add: cleanup_prints_def topics_def Let_def)
  then show ?thesis
    using t ms length_map [of topic ms] set_map [of topic ms] by auto
qed

section \<open>The purge\<close>

lemma sorted_counts_mem: "(k, n) \<in> set (sorted_counts xs) \<longleftrightarrow> k \<in> set xs \<and> n = count_list xs k"
  by (auto simp: sorted_counts_def)

lemma candidate_rows: "print_candidates cs = CandidateRows rows \<Longrightarrow> mset (map fst rows) = mset (map re_entity_id cs)"
proof -
  assume "print_candidates cs = CandidateRows rows"
  then have "map fst rows = map re_entity_id (sort_key re_entity_id cs)"
    by (auto simp: print_candidates_def comp_def split: if_splits)
  then show ?thesis
    by (simp only: mset_map mset_sort)
qed

text \<open>Everything a session sends before it applies anything.\<close>

lemma purge_session_dry_run:
  assumes "purge_session repr args inp states c = (Inr code, c')" and "cl_next_id c = 1"
    and "pa_apply args" "pa_yes args" and "code = 0 \<or> code = 6"
  shows "\<exists>r cs. purge_session_prints repr (args\<lparr>pa_apply := False\<rparr>) inp states c = [r, print_candidates cs, PurgeDryRun (length cs)]
    \<and> removals (ws_sent (cl_ws c')) = removals (ws_sent (cl_ws c)) @ map re_entity_id cs"
proof -
  obtain r1 c1 where l: "list_entity_registry repr (pa_ws_timeout_s args) c = (r1, c1)"
    by fastforce
  note s = list_entity_registry_spec [OF l assms(2)]
  have le: "list_exit e \<notin> {Inr 0, Inr 6}" for e
    by (cases e) simp_all
  obtain registry where g: "r1 = Inr registry"
    using assms(1,5) le by (cases r1) (auto simp: purge_session_def l)
  obtain net where n: "safety_net repr args = Inr net"
    using assms(1) g by (cases "safety_net repr args") (auto simp: purge_session_def l safety_net_def)
  let ?Z = "zombies args (pi_now inp) states registry net"
  have p: "purge_session_prints repr (args\<lparr>pa_apply := False\<rparr>) inp states c =
      [print_purge_report registry ?Z (pa_domain args), print_candidates ?Z, PurgeDryRun (length ?Z)]"
    using n by (simp add: purge_session_prints_def l g safety_net_def zombies_def Let_def)
  have sent: "removals (ws_sent (cl_ws c1)) = removals (ws_sent (cl_ws c))"
    using s(1) by (auto simp: removals_before)
  have "removals (ws_sent (cl_ws c')) = removals (ws_sent (cl_ws c)) @ map re_entity_id ?Z"
  proof (cases "?Z = []")
    case True
    then show ?thesis
      using assms(1,3) g n sent by (simp add: purge_session_def l safety_net_def zombies_def Let_def)
  next
    case False
    obtain r2 c2 where a: "purge_apply (pa_ws_timeout_s args) ?Z c1 = (r2, c2)"
      by fastforce
    have r: "c' = c2" "Inr code = loop_exit r2"
      using assms(1,3,4) g n a False
      by (auto simp: purge_session_def l Let_def safety_net_def zombies_def loop_exit_def split: sum.splits prod.splits)
    obtain k where k: "removals (ws_sent (cl_ws c2)) = removals (ws_sent (cl_ws c1)) @ map re_entity_id (take k ?Z)"
      "commands_end (loop_exit r2) (ws_in (cl_ws c1)) k (length ?Z)"
      using removals_sent [OF a] s(3) [OF g] by blast
    have "k = length ?Z"
      using k(2) assms(5) unfolding r(2) [symmetric] by (auto simp: commands_end_def)
    then show ?thesis
      using k(1) r(1) sent by simp
  qed
  then show ?thesis
    using p by blast
qed

lemma purge_dry_run:
  assumes "purge_main repr fromiso host_ok args inp = (Inr code, sent)"
    and "pa_apply args" "pa_yes args" and "code = 0 \<or> code = 6"
  shows "\<exists>r cs. purge_prints repr fromiso host_ok (args\<lparr>pa_apply := False\<rparr>) inp = [r, print_candidates cs, PurgeDryRun (length cs)]
    \<and> removals sent = map re_entity_id cs"
proof -
  have we: "ws_exit e \<notin> {Inr 0, Inr 6}" for e
    by (cases e) simp_all
  obtain states where st: "pa_domain args \<noteq> []" "fetch_states fromiso (pi_rest inp) = Inr states"
    using assms(1,4) by (auto simp: purge_main_def purge_run_def split: if_splits sum.splits fetch_exc.splits)
  obtain url where u: "ha_base_to_ws_url host_ok (pa_ha_base args) = Some url"
    using assms(1) st by (auto simp: purge_main_def purge_run_def split: option.splits)
  obtain r1 sent1 where en: "client_enter (pa_ha_token args) (pa_ws_timeout_s args) (pi_opened inp) = (r1, sent1)"
    by fastforce
  obtain c where c: "r1 = Inr c"
    using assms(1,4) st u en we by (cases r1) (auto simp: purge_main_def purge_run_def)
  note n = client_enter_spec [OF en]
  obtain c' where s: "purge_session repr args inp states c = (Inr code, c')" "sent = ws_sent (cl_ws c')"
    using assms(1) st u en c by (auto simp: purge_main_def purge_run_def split: prod.splits)
  have "purge_prints repr fromiso host_ok (args\<lparr>pa_apply := False\<rparr>) inp = purge_session_prints repr (args\<lparr>pa_apply := False\<rparr>) inp states c"
    using st u en c by (simp add: purge_prints_def)
  moreover have "cl_next_id c = 1" "removals (ws_sent (cl_ws c)) = []"
    using n(2) [OF c] removals_before(1) [OF n(1)] by simp_all
  ultimately show ?thesis
    using purge_session_dry_run [OF s(1) _ assms(2-4)] s(2) by simp
qed

section \<open>The renames\<close>

text \<open>The renames a plan as printed says will be made.\<close>

definition planned :: "rename_print list \<Rightarrow> (string \<times> string) list" where
  "planned = List.map_filter (\<lambda>l. case l of PlanRow st old new _ \<Rightarrow> if st = ''ok'' then Some (old, new) else None | _ \<Rightarrow> None)"

lemma status_ok: "status_str s = ''ok'' \<longleftrightarrow> s = PlanOk"
  by (cases s) simp_all

lemma planned_append: "planned (xs @ ys) = planned xs @ planned ys"
  by (simp add: planned_def map_filter_def)

lemma planned_plan: "planned (print_plan quoted by_id plan) = map (\<lambda>p. (pl_old p, pl_new p)) (filter (\<lambda>p. pl_status p = PlanOk) plan)"
proof -
  have "planned (map (\<lambda>p. PlanRow (status_str (pl_status p)) (pl_old p) (pl_new p) (plan_detail quoted by_id p)) plan)
      = map (\<lambda>p. (pl_old p, pl_new p)) (filter (\<lambda>p. pl_status p = PlanOk) plan)"
    by (induction plan) (simp_all add: planned_def List.map_filter_simps status_ok)
  then show ?thesis
    by (cases "plan = []") (simp_all add: planned_def print_plan_def List.map_filter_simps)
qed

lemma rename_session_dry_run:
  assumes "rename_session repr args answer c = (Inr code, c')" and "cl_next_id c = 1"
    and "ra_apply args" "ra_yes args" and "code = 0 \<or> code = 6"
  shows "updates (ws_sent (cl_ws c')) = updates (ws_sent (cl_ws c))
    @ planned (rename_session_prints repr quoted (args\<lparr>ra_apply := False\<rparr>) answer c)"
proof -
  obtain r1 c1 where l: "list_entity_registry repr (ra_ws_timeout_s args) c = (r1, c1)"
    by fastforce
  note s = list_entity_registry_spec [OF l assms(2)]
  have le: "list_exit e \<notin> {Inr 0, Inr 6}" for e
    by (cases e) simp_all
  obtain registry where g: "r1 = Inr registry"
    using assms(1,5) le by (cases r1) (auto simp: rename_session_def l)
  obtain renames where b: "build_renames_from_args args registry = Inr renames"
    using assms(1,5) g by (cases "build_renames_from_args args registry") (auto simp: rename_session_def l)
  have b': "build_renames_from_args (args\<lparr>ra_apply := False\<rparr>) registry = Inr renames"
    using b by (cases "ra_mapping args"; auto simp: build_renames_from_args_def split: if_splits)
  define plan where "plan = validate_renames renames registry"
  let ?P = "filter (\<lambda>p. pl_status p = PlanOk) plan"
  have tl: "planned [RenameDryRun m k] = []" "planned [NoRenamesRequested] = []" for m k
    by (simp_all add: planned_def List.map_filter_simps)
  have p: "planned (rename_session_prints repr quoted (args\<lparr>ra_apply := False\<rparr>) answer c) = map (\<lambda>p. (pl_old p, pl_new p)) ?P"
    by (cases "renames = []")
      (simp_all add: rename_session_prints_def l g b' plan_def Let_def planned_append planned_plan tl validate_renames_def)
  have sent: "updates (ws_sent (cl_ws c1)) = updates (ws_sent (cl_ws c))"
    using s(1) by (auto simp: updates_before)
  have "updates (ws_sent (cl_ws c')) = updates (ws_sent (cl_ws c)) @ map (\<lambda>p. (pl_old p, pl_new p)) ?P"
  proof (cases "?P = []")
    case True
    then have "c' = c1"
      using assms(1,3) g b by (auto simp: rename_session_def l plan_def Let_def split: if_splits)
    then show ?thesis
      using sent True by simp
  next
    case False
    obtain r2 c2 where a: "rename_apply (ra_ws_timeout_s args) ?P c1 = (r2, c2)"
      by fastforce
    have ne: "renames \<noteq> []"
      using False by (auto simp: plan_def validate_renames_def)
    have r: "c' = c2" "Inr code = loop_exit r2"
      using assms(1,3,4) g b a False ne
      by (auto simp: rename_session_def l Let_def plan_def loop_exit_def split: sum.splits prod.splits)
    obtain k where k: "updates (ws_sent (cl_ws c2)) = updates (ws_sent (cl_ws c1)) @ take k (map (\<lambda>p. (pl_old p, pl_new p)) ?P)"
      "commands_end (loop_exit r2) (ws_in (cl_ws c1)) k (length ?P)"
      using updates_sent [OF a] s(3) [OF g] by blast
    have "k = length ?P"
      using k(2) assms(5) unfolding r(2) [symmetric] by (auto simp: commands_end_def)
    then show ?thesis
      using k(1) r(1) sent by simp
  qed
  then show ?thesis
    by (simp only: p)
qed

lemma rename_dry_run:
  assumes "rename_main repr host_ok args opened answer = (Inr code, sent)"
    and "ra_apply args" "ra_yes args" and "code = 0 \<or> code = 6"
  shows "updates sent = planned (rename_prints repr quoted host_ok (args\<lparr>ra_apply := False\<rparr>) opened answer)"
proof -
  have we: "ws_exit e \<notin> {Inr 0, Inr 6}" for e
    by (cases e) simp_all
  let ?n = "length (filter id [ra_mapping args \<noteq> None, ra_pairs args \<noteq> [], ra_audit_f7 args])"
  have one: "?n = 1" "rename_run repr host_ok args opened answer = (Inr code, sent)"
    using assms(1,4) by (auto simp: rename_main_def Let_def split: if_splits)
  obtain url where u: "ha_base_to_ws_url host_ok (ra_ha_base args) = Some url"
    using one(2) by (auto simp: rename_run_def split: option.splits)
  obtain r1 sent1 where en: "client_enter (ra_ha_token args) (ra_ws_timeout_s args) opened = (r1, sent1)"
    by fastforce
  obtain c where c: "r1 = Inr c"
    using one(2) assms(4) u en we by (cases r1) (auto simp: rename_run_def)
  note n = client_enter_spec [OF en]
  obtain c' where s: "rename_session repr args answer c = (Inr code, c')" "sent = ws_sent (cl_ws c')"
    using one(2) u en c by (auto simp: rename_run_def split: prod.splits)
  have "rename_prints repr quoted host_ok (args\<lparr>ra_apply := False\<rparr>) opened answer
      = rename_session_prints repr quoted (args\<lparr>ra_apply := False\<rparr>) answer c"
    using one(1) u en c by (simp add: rename_prints_def)
  moreover have "cl_next_id c = 1" "updates (ws_sent (cl_ws c)) = []"
    using n(2) [OF c] updates_before(1) [OF n(1)] by simp_all
  ultimately show ?thesis
    using rename_session_dry_run [OF s(1) _ assms(2-4), of quoted] s(2) by simp
qed

section \<open>All three\<close>

text \<open>C37. The dry runs keep their word. Whatever the broker or Home Assistant holds and answers: where a run of a tool
  with \<open>--apply\<close> goes through, the run without it prints beforehand what that run does. The report of the
  cleanup marks exactly the discoveries whose topics are cleared and gives their number; the purge lists
  exactly the entities that are removed; the plan of the renames shows as \<open>ok\<close>, in their order,
  exactly the renames that are sent.\<close>

theorem dry_runs_predict:
  "(case cleanup_main repr (cargs\<lparr>ca_apply := True\<rparr>) cin of
      Inl _ \<Rightarrow> True
    | Inr (code, ms) \<Rightarrow>
        if code = 0 \<or> code = 5
        then \<exists>r. cleanup_prints repr (cargs\<lparr>ca_apply := False\<rparr>) cin = Inr [CleanupReport r, CleanupDryRun (length ms)]
          \<and> topic ` set ms = ds_topic ` marked WouldClean r
        else ms = [])
   \<and> (case purge_main repr fromiso host_ok (pargs\<lparr>pa_yes := True, pa_apply := True\<rparr>) pin of
        (r, sent) \<Rightarrow>
          if r = Inr 0 \<or> r = Inr 6
          then \<exists>report cs. purge_prints repr fromiso host_ok (pargs\<lparr>pa_yes := True, pa_apply := False\<rparr>) pin
              = [report, print_candidates cs, PurgeDryRun (length cs)] \<and> removals sent = map re_entity_id cs
          else True)
   \<and> (case rename_main repr host_ok (rargs\<lparr>ra_yes := True, ra_apply := True\<rparr>) opened answer of
        (r, sent) \<Rightarrow>
          if r = Inr 0 \<or> r = Inr 6
          then updates sent = planned (rename_prints repr quoted host_ok (rargs\<lparr>ra_yes := True, ra_apply := False\<rparr>) opened answer)
          else True)"
proof (intro conjI)
  show "case cleanup_main repr (cargs\<lparr>ca_apply := True\<rparr>) cin of
      Inl _ \<Rightarrow> True
    | Inr (code, ms) \<Rightarrow>
        if code = 0 \<or> code = 5
        then \<exists>r. cleanup_prints repr (cargs\<lparr>ca_apply := False\<rparr>) cin = Inr [CleanupReport r, CleanupDryRun (length ms)]
          \<and> topic ` set ms = ds_topic ` marked WouldClean r
        else ms = []"
    using cleanup_dry_run [of repr "cargs\<lparr>ca_apply := True\<rparr>" cin] cleanup_run [where repr = repr and args = "cargs\<lparr>ca_apply := True\<rparr>" and inp = cin]
    by (auto split: sum.splits if_splits)
  show "case purge_main repr fromiso host_ok (pargs\<lparr>pa_yes := True, pa_apply := True\<rparr>) pin of
        (r, sent) \<Rightarrow>
          if r = Inr 0 \<or> r = Inr 6
          then \<exists>report cs. purge_prints repr fromiso host_ok (pargs\<lparr>pa_yes := True, pa_apply := False\<rparr>) pin
              = [report, print_candidates cs, PurgeDryRun (length cs)] \<and> removals sent = map re_entity_id cs
          else True"
    using purge_dry_run [of repr fromiso host_ok "pargs\<lparr>pa_yes := True, pa_apply := True\<rparr>" pin] by (auto split: prod.splits)
  show "case rename_main repr host_ok (rargs\<lparr>ra_yes := True, ra_apply := True\<rparr>) opened answer of
        (r, sent) \<Rightarrow>
          if r = Inr 0 \<or> r = Inr 6
          then updates sent = planned (rename_prints repr quoted host_ok (rargs\<lparr>ra_yes := True, ra_apply := False\<rparr>) opened answer)
          else True"
    using rename_dry_run [of repr host_ok "rargs\<lparr>ra_yes := True, ra_apply := True\<rparr>" opened answer] by (auto split: prod.splits)
qed

end
