(* ===== verification/Smoke_Test.thy ===== *)
theory Smoke_Test imports Entry_Point "HOL-Library.List_Lexorder" "HOL-Library.Char_ord" begin

text \<open>\<open>tools/smoke_test.py\<close>: a few hot cycles of the daemon with a publisher that connects to nothing and stores the last
  value of every key, which the test lists in the end. The stub stores exactly what the bridge, with its client,
  would publish last.\<close>

section \<open>The stub publisher\<close>

text \<open>\<open>published\<close>: the last value of every key. What the bridge formats with \<open>str\<close> or encodes as JSON is kept as
  the payload it would have.\<close>

type_synonym stub = "(string, payload) dict"

definition stub_publish_value :: "stub \<Rightarrow> string \<Rightarrow> payload \<Rightarrow> stub" where
  "stub_publish_value stored k v = dset k v stored"

definition stub_publish_values :: "stub \<Rightarrow> (string, pyval) dict \<Rightarrow> stub" where
  "stub_publish_values stored kv = dupdate stored (map (\<lambda>(k, v). (k, StrOf v)) kv)"

text \<open>The hot cycle of the daemon with the stub for a publisher; connecting, discovery and availability are no
  operations of the stub. An exception leaves the test.\<close>

fun stub_statuses :: "daemon \<Rightarrow> (nat \<times> inverter_cfg) list \<Rightarrow> stub \<Rightarrow> stub" where
  "stub_statuses d [] st = st"
| "stub_statuses d ((n, iv) # ivs) st =
     stub_statuses d ivs
       (stub_publish_value st (ikey n ''status'') (StrOf (PyStr (status_text (dget_or (fail_count d) (iv_name iv) 0)))))"

definition stub_meta :: "hot_in \<Rightarrow> (string \<times> rat) list \<Rightarrow> daemon \<Rightarrow> stub \<Rightarrow> stub" where
  "stub_meta inp durs d st =
     (let st1 = stub_publish_value st ''_meta/poll_duration_ms'' (StrOf (PyFloat (Fin (duration_ms (h_start inp) (h_end inp)))));
          st2 = stub_publish_value st1 ''_meta/poll_duration_per_inverter_ms''
            (Json (PyDict (map (\<lambda>(k, x). (k, PyFloat (Fin x))) (dupdate [] durs))));
          st3 = stub_publish_value st2 ''_meta/crc_fails_total'' (StrOf (PyInt (int (crc_fails_total d))))
      in stub_publish_value st3 ''_meta/uptime_s'' (StrOf (PyFloat (Fin (py_round 1 (fl (h_uptime inp - meta_start d)))))))"

definition smoke_cycle :: "py_version \<Rightarrow> hot_in \<Rightarrow> stub \<times> daemon \<Rightarrow> (stub \<times> daemon) option" where
  "smoke_cycle ver inp = (\<lambda>(stored, d).
     case poll_all_parallel HOT (h_ivs inp) d of
       (_, durs, _, d1) \<Rightarrow>
         (case run_one_hot_cycle ver inp d of
            (None, _, _) \<Rightarrow> None
          | (Some values, _, d2) \<Rightarrow>
              Some (stub_meta inp durs d2 (stub_publish_values (stub_statuses d1 (enum1 (d_inverters d1)) stored) values), d2)))"

fun smoke_run :: "py_version \<Rightarrow> hot_in list \<Rightarrow> stub \<times> daemon \<Rightarrow> (stub \<times> daemon) option" where
  "smoke_run ver [] st = Some st"
| "smoke_run ver (inp # ins) st =
     (case smoke_cycle ver inp st of None \<Rightarrow> None | Some st1 \<Rightarrow> smoke_run ver ins st1)"

section \<open>The test\<close>

datatype smoke_end = SmokeRaises | SmokeNotText | SmokeExit nat "(string \<times> payload) list"

text \<open>\<open>ins\<close>: what the \<open>--cycles\<close> cycles meet. The listing is sorted by key; the energies are restored from the
  file of the bridge, and not saved.\<close>

definition smoke_main ::
  "py_version \<Rightarrow> (pyval \<Rightarrow> string) \<Rightarrow> (string \<Rightarrow> text_file) \<Rightarrow> pyval \<Rightarrow> energy_fs \<Rightarrow> energy_fs \<Rightarrow> rat \<Rightarrow> hot_in list \<Rightarrow> smoke_end"
where
  "smoke_main ver repr files doc fs bms_fs now ins =
     (case load_config repr files doc of
        Inl _ \<Rightarrow> SmokeRaises
      | Inr cfg \<Rightarrow>
          (case daemon_config cfg of
             None \<Rightarrow> SmokeNotText
           | Some (ivs, mqtt) \<Rightarrow>
               (case daemon_init ivs (bc_polling cfg) mqtt (bc_bms cfg) (Some DEFAULT_ENERGY_PERSIST_PATH) fs bms_fs now of
                  Inl _ \<Rightarrow> SmokeRaises
                | Inr d \<Rightarrow>
                    (case smoke_run ver ins ([], d) of
                       None \<Rightarrow> SmokeRaises
                     | Some (stored, _) \<Rightarrow> SmokeExit (length stored) (sort_key fst stored)))))"

section \<open>The stub sees what the broker sees\<close>

definition msg_of :: "mqtt_cfg \<Rightarrow> string \<times> payload \<Rightarrow> message" where
  "msg_of cfg = (\<lambda>(k, p). \<lparr>topic = state_topic cfg k, content = p, msg_qos = qos cfg, retain = False\<rparr>)"

text \<open>The messages that are not retained: all but the availability.\<close>

definition transient :: "paho_call list \<Rightarrow> message list" where
  "transient cs = filter (\<lambda>m. \<not> retain m) (published cs)"

lemma transient_append: "transient (xs @ ys) = transient xs @ transient ys"
  by (simp add: transient_def published_append)

definition status_pairs :: "daemon \<Rightarrow> (nat \<times> inverter_cfg) list \<Rightarrow> (string \<times> payload) list" where
  "status_pairs d ivs = map (\<lambda>(n, iv). (ikey n ''status'', StrOf (PyStr (status_text (dget_or (fail_count d) (iv_name iv) 0))))) ivs"

definition meta_pairs :: "hot_in \<Rightarrow> (string \<times> rat) list \<Rightarrow> daemon \<Rightarrow> (string \<times> payload) list" where
  "meta_pairs inp durs d =
     [(''_meta/poll_duration_ms'', StrOf (PyFloat (Fin (duration_ms (h_start inp) (h_end inp))))),
      (''_meta/poll_duration_per_inverter_ms'', Json (PyDict (map (\<lambda>(k, x). (k, PyFloat (Fin x))) (dupdate [] durs)))),
      (''_meta/crc_fails_total'', StrOf (PyInt (int (crc_fails_total d)))),
      (''_meta/uptime_s'', StrOf (PyFloat (Fin (py_round 1 (fl (h_uptime inp - meta_start d))))))]"

lemma stub_statuses_eq: "stub_statuses d ivs st = dupdate st (status_pairs d ivs)"
  by (induction d ivs st rule: stub_statuses.induct) (simp_all add: status_pairs_def stub_publish_value_def dupdate_def)

lemma stub_meta_eq: "stub_meta inp durs d st = dupdate st (meta_pairs inp durs d)"
  by (simp add: stub_meta_def meta_pairs_def stub_publish_value_def dupdate_def Let_def)

lemma transient_value: "transient (publish_value cfg k v) = [msg_of cfg (k, StrOf v)]"
  "transient (publish_json cfg k v) = [msg_of cfg (k, Json v)]" "transient (set_online cfg) = []" "transient [] = []"
  by (simp_all add: transient_def publish_value_def publish_json_def set_online_def availability_msg_def msg_of_def)

lemma transient_values: "transient (publish_values cfg kv) = map (msg_of cfg) (map (\<lambda>(k, v). (k, StrOf v)) kv)"
  by (induction kv) (auto simp: publish_values_def transient_value transient_append)

lemma transient_status: "transient (publish_status d) = map (msg_of (pub_cfg (d_publisher d))) (status_pairs d (enum1 (d_inverters d)))"
proof -
  have "transient (concat (map (\<lambda>(n, iv). publish_value cfg (ikey n ''status'') (PyStr (f iv))) ivs))
      = map (msg_of cfg) (map (\<lambda>(n, iv). (ikey n ''status'', StrOf (PyStr (f iv)))) ivs)" for cfg f and ivs :: "(nat \<times> inverter_cfg) list"
    by (induction ivs) (auto simp: transient_value transient_append)
  then show ?thesis
    by (simp add: publish_status_def status_pairs_def)
qed

lemma transient_meta: "transient (meta_calls inp durs d) = map (msg_of (pub_cfg (d_publisher d))) (meta_pairs inp durs d)"
  by (simp add: meta_calls_def Let_def transient_value transient_append meta_pairs_def)

text \<open>A cycle: the stub is updated with the very pairs whose messages go to the broker.\<close>

lemma smoke_cycle_pairs:
  assumes "energy_ok (integrator d)"
  obtains d' kvs calls vals where
    "smoke_cycle ver inp (st, d) = Some (dupdate st kvs, d')" "run_one_hot_cycle ver inp d = (Some vals, calls, d')"
    "transient calls = map (msg_of (pub_cfg (d_publisher d))) kvs"
    "\<forall>k \<in> fst ` set kvs. k \<in> set (announced_keys (length (d_inverters d)))" "energy_ok (integrator d')" "kept d d'"
proof -
  obtain agg vals calls d' d1 durs c1 per where h: "run_one_hot_cycle ver inp d = (Some vals, calls, d')"
    "poll_all_parallel HOT (h_ivs inp) d = (per, durs, c1, d1)" "aggregate_inverters ver per = Some agg"
    "vals = dupdate (sensors_py agg) (map (\<lambda>(k, v). (k, PyFloat v)) (kwh_spec (counter_of (wh (integrator d')))))"
    "calls = c1 @ publish_values (pub_cfg (d_publisher d)) vals
       @ (if \<exists>blocks \<in> set per. blocks \<noteq> [] then set_online (pub_cfg (d_publisher d)) else []) @ meta_calls inp durs d'"
    by (rule hot_cycle [OF assms])
  note sh = poll_all_shape [OF h(2)]
  have fr: "d_publisher d1 = d_publisher d" "d_inverters d1 = d_inverters d" "length per = length (d_inverters d)" "c1 = publish_status d1"
    using sh by (auto simp: same_frame_def)
  have st: "kept d d'"
    using hot_step(2) [OF assms, of ver inp] h(1) by simp
  have eo: "energy_ok (integrator d')"
    using hot_step(1) [OF assms, of ver inp] h(1) energy_counter.inv_run [OF assms] by auto
  define kvs where "kvs = status_pairs d1 (enum1 (d_inverters d1)) @ map (\<lambda>(k, v). (k, StrOf v)) vals @ meta_pairs inp durs d'"
  have "smoke_cycle ver inp (st, d) = Some (dupdate st kvs, d')"
    by (simp add: smoke_cycle_def h(1,2) stub_publish_values_def stub_statuses_eq stub_meta_eq kvs_def dupdate_append)
  moreover have "transient calls = map (msg_of (pub_cfg (d_publisher d))) kvs"
    using st by (simp add: h(5) transient_append transient_values transient_meta transient_value fr transient_status kvs_def kept_def)
  moreover have "\<forall>k \<in> fst ` set kvs. k \<in> set (announced_keys (length (d_inverters d)))"
  proof -
    have "\<forall>k \<in> set (dkeys vals). k \<in> set (announced_keys (length (d_inverters d)))"
      unfolding h(4) by (rule hot_values_announced [OF h(3) fr(3)])
    moreover have "ikey i ''status'' \<in> set (announced_keys (length (d_inverters d)))" if "(i, iv) \<in> set (enum1 (d_inverters d))" for i iv
      using that by (intro announced_own [of i]) (auto simp: enum1_mem inverter_sensors)
    moreover have "fst ` set (meta_pairs inp durs d') \<subseteq> set (announced_keys (length (d_inverters d)))"
      using announced_meta [of "length (d_inverters d)"] by (simp add: meta_pairs_def META_SENSORS_def)
    ultimately show ?thesis
      by (auto simp: kvs_def status_pairs_def fr(2) dkeys_def)
  qed
  ultimately show thesis
    using that h(1) eo st by blast
qed

text \<open>The hot cycles of the bridge, with its client.\<close>

fun hot_calls :: "py_version \<Rightarrow> hot_in list \<Rightarrow> daemon \<Rightarrow> paho_call list" where
  "hot_calls ver [] d = []"
| "hot_calls ver (inp # ins) d = (case run_one_hot_cycle ver inp d of (_, c, d1) \<Rightarrow> c @ hot_calls ver ins d1)"

definition last_on :: "message list \<Rightarrow> string \<Rightarrow> payload option" where
  "last_on ms = map_of (rev (map (\<lambda>m. (topic m, content m)) ms))"

lemma smoke_run_pairs:
  assumes "energy_ok (integrator d)"
  shows "\<exists>kvs d'. smoke_run ver ins (st, d) = Some (dupdate st kvs, d')
    \<and> transient (hot_calls ver ins d) = map (msg_of (pub_cfg (d_publisher d))) kvs
    \<and> (\<forall>k \<in> fst ` set kvs. k \<in> set (announced_keys (length (d_inverters d))))"
  using assms
proof (induction ins arbitrary: st d)
  case Nil
  then show ?case
    by (intro exI [of _ "[]"]) (simp add: transient_value)
next
  case (Cons inp ins)
  obtain d1 kvs calls vals where c: "smoke_cycle ver inp (st, d) = Some (dupdate st kvs, d1)"
    "run_one_hot_cycle ver inp d = (Some vals, calls, d1)" "transient calls = map (msg_of (pub_cfg (d_publisher d))) kvs"
    "\<forall>k \<in> fst ` set kvs. k \<in> set (announced_keys (length (d_inverters d)))" "energy_ok (integrator d1)" "kept d d1"
    by (rule smoke_cycle_pairs [OF Cons.prems])
  obtain kvs' d' where r: "smoke_run ver ins (dupdate st kvs, d1) = Some (dupdate (dupdate st kvs) kvs', d')"
    "transient (hot_calls ver ins d1) = map (msg_of (pub_cfg (d_publisher d))) kvs'"
    "\<forall>k \<in> fst ` set kvs'. k \<in> set (announced_keys (length (d_inverters d)))"
    using Cons.IH [OF c(5), of "dupdate st kvs"] c(6) by (auto simp: kept_def)
  have "smoke_run ver (inp # ins) (st, d) = Some (dupdate st (kvs @ kvs'), d')"
    by (simp add: c(1) r(1) dupdate_append)
  moreover have "transient (hot_calls ver (inp # ins) d) = map (msg_of (pub_cfg (d_publisher d))) (kvs @ kvs')"
    by (simp add: c(2,3) r(2) transient_append)
  moreover have "\<forall>k \<in> fst ` set (kvs @ kvs'). k \<in> set (announced_keys (length (d_inverters d)))"
    using c(4) r(3) by auto
  ultimately show ?case
    by blast
qed

lemma state_topic_inj:
  assumes "k \<in> set (announced_keys n)" "k' \<in> set (announced_keys n)" "state_topic cfg k = state_topic cfg k'"
  shows "k = k'"
  using assms announced_path_inj by (simp add: state_topic_def)

lemma last_on_pairs:
  assumes "\<forall>k \<in> fst ` set kvs. k \<in> set (announced_keys n)" "k \<in> set (announced_keys n)"
  shows "last_on (map (msg_of cfg) kvs) (state_topic cfg k) = dget (dupdate [] kvs) k"
proof -
  have "map_of (map (\<lambda>m. (topic m, content m)) (map (msg_of cfg) xs)) (state_topic cfg k) = map_of xs k"
    if "\<forall>k \<in> fst ` set xs. k \<in> set (announced_keys n)" for xs
    using that
  proof (induction xs)
    case (Cons x xs)
    have "state_topic cfg (fst x) = state_topic cfg k \<longleftrightarrow> fst x = k"
      using state_topic_inj [of "fst x" n k cfg] Cons.prems assms(2) by auto
    then show ?case
      using Cons by (cases x) (auto simp: msg_of_def)
  qed simp
  from this [of "rev kvs"] assms(1) show ?thesis
    by (simp add: last_on_def rev_map dget_dupdate split: option.split)
qed

text \<open>The smoke test never fails once the daemon is there, and what it lists is what the bridge publishes: for any
  number of cycles and whatever they meet, the value stored for a key is the last message of the bridge on the topic of that
  key, and no other keys are stored.\<close>

theorem smoke_faithful:
  assumes "daemon_init ivs polling mqtt bms path fs bms_fs now = Inr d"
  shows "\<exists>st d'. smoke_run ver ins ([], d) = Some (st, d') \<and> set (dkeys st) \<subseteq> set (announced_keys (length ivs))
    \<and> (\<forall>k \<in> set (announced_keys (length ivs)). dget st k = last_on (transient (hot_calls ver ins d)) (state_topic mqtt k))"
proof -
  note i = daemon_init_ok [OF assms]
  have m: "pub_cfg (d_publisher d) = mqtt" "length (d_inverters d) = length ivs"
    using i by (simp_all add: publisher_init_def)
  obtain kvs d' where r: "smoke_run ver ins ([], d) = Some (dupdate [] kvs, d')"
    "transient (hot_calls ver ins d) = map (msg_of mqtt) kvs" "\<forall>k \<in> fst ` set kvs. k \<in> set (announced_keys (length ivs))"
    using smoke_run_pairs [of d ver ins "[]"] i m by auto
  have "set (dkeys (dupdate [] kvs)) \<subseteq> set (announced_keys (length ivs))"
    unfolding dkeys_dupdate using r(3) by (auto simp: dkeys_def)
  then show ?thesis
    using r(1) last_on_pairs [OF r(3)] by (auto simp: r(2))
qed

end
