(* ===== verification/Field_Reports.thy ===== *)
theory Field_Reports imports Field_Runs Py_Parse "HOL-Library.List_Lexorder" "HOL-Library.Char_ord" begin

text \<open>What the tools that are run by hand leave behind: the fixture files of \<open>capture_fixtures.py\<close>, with their names,
  the snapshots and the report of \<open>srne_daily_diff.py\<close>, and the report of \<open>_bms_ble_probe.py\<close>. A fixture reads back as the bytes captured; the report of two
  snapshots is the registers that differ.\<close>

section \<open>Hexadecimal text\<close>

definition hex_lower :: "nat \<Rightarrow> char" where
  "hex_lower d = (if d < 10 then char_of (48 + d) else char_of (87 + d))"

text \<open>\<open>f"{v:02x}"\<close> and \<open>f"{v:04x}"\<close> of a byte and of an address, and \<open>bytes.hex\<close>.\<close>

definition hex_fixed :: "nat \<Rightarrow> int \<Rightarrow> string" where
  "hex_fixed w v = map (\<lambda>k. hex_lower (nat (v div 16 ^ k mod 16))) (rev [0..<w])"

definition bytes_hex :: "bytes \<Rightarrow> string" where
  "bytes_hex bs = concat (map (\<lambda>b. hex_fixed 2 (uint b)) bs)"

section \<open>A capture\<close>

record capture_state =
  cp_success :: nat
  cp_skipped :: nat
  cp_failed :: nat
  cp_files :: "(string \<times> string) list"

definition block_file :: "int \<Rightarrow> string \<Rightarrow> int \<times> nat \<times> string \<Rightarrow> string" where
  "block_file slave state_tag = (\<lambda>(addr, count, label).
     ''block_'' @ hex_fixed 4 addr @ ''_count'' @ show2 count @ ''_slave'' @ hex_fixed 2 slave @ ''_'' @ label @ ''_'' @ state_tag @ ''.hex'')"

text \<open>The blocks of a port; \<open>answers\<close>: the answers to the queries for an address. \<open>None\<close>: an exception ends the
  capture, of the request for a slave that is no byte or of the classification.\<close>

fun capture_port ::
  "nat \<Rightarrow> string \<Rightarrow> int \<Rightarrow> (int \<Rightarrow> bytes list) \<Rightarrow> (int \<times> nat \<times> string) list \<Rightarrow> capture_state \<Rightarrow> capture_state option"
where
  "capture_port retries state_tag slave answers [] st = Some st"
| "capture_port retries state_tag slave answers ((addr, count, label) # blocks) st =
     (if 0 < retries \<and> fixture_request slave addr (int count) = None then None
      else
        (case capture_block retries (answers addr) of
           Failed \<Rightarrow> capture_port retries state_tag slave answers blocks (st\<lparr>cp_failed := cp_failed st + 1\<rparr>)
         | Skipped \<Rightarrow> capture_port retries state_tag slave answers blocks (st\<lparr>cp_skipped := cp_skipped st + 1\<rparr>)
         | Captured resp \<Rightarrow>
             capture_port retries state_tag slave answers blocks
               (st\<lparr>cp_files := cp_files st @ [(block_file slave state_tag (addr, count, label), bytes_hex resp @ [CHR 0x0A])],
                   cp_success := cp_success st + 1\<rparr>)
         | CaptureIndexError \<Rightarrow> None))"

fun capture_ports ::
  "nat \<Rightarrow> string \<Rightarrow> (int \<times> (int \<Rightarrow> bytes list)) list \<Rightarrow> capture_state \<Rightarrow> capture_state option"
where
  "capture_ports retries state_tag [] st = Some st"
| "capture_ports retries state_tag ((slave, answers) # ports) st =
     (case capture_port retries state_tag slave answers FIXTURE_BLOCKS st of
        None \<Rightarrow> None
      | Some st1 \<Rightarrow> capture_ports retries state_tag ports st1)"

text \<open>Then the bus of every port, listened to for \<open>secs\<close> whole seconds.\<close>

definition bus_file :: "nat \<Rightarrow> string \<Rightarrow> int \<Rightarrow> string" where
  "bus_file secs state_tag slave =
     ''bus_capture_'' @ show_nat secs @ ''s_slave'' @ hex_fixed 2 slave @ ''_'' @ state_tag @ ''.hex''"

definition capture_main ::
  "nat \<Rightarrow> string \<Rightarrow> nat \<Rightarrow> (int \<times> (int \<Rightarrow> bytes list) \<times> bytes) list \<Rightarrow> capture_state option"
where
  "capture_main retries state_tag secs ports =
     map_option
       (\<lambda>st. st\<lparr>cp_files := cp_files st
           @ map (\<lambda>(slave, _, heard). (bus_file secs state_tag slave, bytes_hex heard @ [CHR 0x0A])) ports\<rparr>)
       (capture_ports retries state_tag (map (\<lambda>(slave, answers, _). (slave, answers)) ports)
          \<lparr>cp_success = 0, cp_skipped = 0, cp_failed = 0, cp_files = []\<rparr>)"

section \<open>Snapshots and their difference\<close>

type_synonym snapshot = "(string, (string, int list) dict) dict"

definition block_key :: "int \<Rightarrow> string \<Rightarrow> string" where
  "block_key addr bname = ''0x'' @ hex_fixed 4 addr @ ''_'' @ bname"

definition snapshot_inverter :: "(int \<Rightarrow> bytes) \<Rightarrow> (string, int list) dict" where
  "snapshot_inverter answers =
     fold (\<lambda>(addr, count, bname) d.
         case snapshot_block count (answers addr) of None \<Rightarrow> d | Some regs \<Rightarrow> dset (block_key addr bname) regs d)
       DIFF_BLOCKS []"

definition snapshot_of :: "(string \<times> (int \<Rightarrow> bytes)) list \<Rightarrow> snapshot" where
  "snapshot_of ports = dupdate [] (map (\<lambda>(name, answers). (name, snapshot_inverter answers)) ports)"

text \<open>\<open>int(s, 16)\<close>.\<close>

definition int_base16 :: "string \<Rightarrow> int option" where
  "int_base16 s =
     (case split_sign (strip s) of (neg, u) \<Rightarrow>
        map_option (signed_int neg)
          (if map to_lower (take 2 u) = ''0x'' then based 16 (drop 2 u)
           else map_option (nat_of_base 16) (us_digits (is_base_digit 16) False u)))"

record diff_row =
  dr_address :: int
  dr_before :: int
  dr_after :: int
  dr_delta :: int
  dr_big :: bool
  dr_accumulator :: bool

text \<open>The rows of one inverter by block, and of all inverters; \<open>None\<close> is the \<open>ValueError\<close> of a key that no
  snapshot has.\<close>

fun diff_blocks :: "(string, int list) dict \<Rightarrow> (string, int list) dict \<Rightarrow> string list \<Rightarrow> (string \<times> diff_row list) list option" where
  "diff_blocks a b [] = Some []"
| "diff_blocks a b (block # blocks) =
     (case int_base16 (takeWhile (\<lambda>c. c \<noteq> CHR ''_'') block) of
        None \<Rightarrow> None
      | Some base \<Rightarrow>
          let changes = register_changes (dget_or a block []) (dget_or b block []);
              rows = map (\<lambda>(off, va, vb, d). \<lparr>dr_address = base + int off, dr_before = va, dr_after = vb, dr_delta = d,
                  dr_big = 100 < \<bar>d\<bar>, dr_accumulator = 0 < d \<and> 0 < va\<rparr>) changes
          in map_option (\<lambda>rest. if changes = [] then rest else (block, rows) # rest) (diff_blocks a b blocks))"

definition common_keys :: "(string, 'a) dict \<Rightarrow> (string, 'a) dict \<Rightarrow> string list" where
  "common_keys a b = sort (remdups (filter (\<lambda>k. k \<in> set (dkeys b)) (dkeys a)))"

fun diff_inverters :: "snapshot \<Rightarrow> snapshot \<Rightarrow> string list \<Rightarrow> (string \<times> (string \<times> diff_row list) list) list option" where
  "diff_inverters a b [] = Some []"
| "diff_inverters a b (iname # inames) =
     (let ra = dget_or a iname []; rb = dget_or b iname [] in
      case diff_blocks ra rb (common_keys ra rb) of
        None \<Rightarrow> None
      | Some blocks \<Rightarrow> map_option (Cons (iname, blocks)) (diff_inverters a b inames))"

definition daily_diff :: "snapshot \<Rightarrow> snapshot \<Rightarrow> (string \<times> (string \<times> diff_row list) list) list option" where
  "daily_diff a b = diff_inverters a b (common_keys a b)"

section \<open>Hexadecimal text\<close>

lemma hex_lower_digit: "d < 16 \<Longrightarrow> hex_val (hex_lower d) = d \<and> is_base_digit 16 (hex_lower d) \<and> \<not> is_space (hex_lower d)"
proof -
  assume "d < 16"
  then have "d = 0 \<or> d = 1 \<or> d = 2 \<or> d = 3 \<or> d = 4 \<or> d = 5 \<or> d = 6 \<or> d = 7 \<or> d = 8 \<or> d = 9 \<or> d = 10
      \<or> d = 11 \<or> d = 12 \<or> d = 13 \<or> d = 14 \<or> d = 15"
    by presburger
  then show ?thesis
    by (elim disjE)
      (simp_all add: hex_lower_def hex_val_def is_base_digit_def is_digit_def to_lower_def is_space_def Let_def)
qed

lemma underscore_no_digit: "\<not> is_base_digit 16 (CHR ''_'')"
  by (simp add: is_base_digit_def hex_val_def is_digit_def to_lower_def Let_def)

lemma hex_lower_facts: "d < 16 \<Longrightarrow> hex_val (hex_lower d) = d \<and> is_base_digit 16 (hex_lower d) \<and> hex_lower d \<noteq> CHR ''_'' \<and> \<not> is_space (hex_lower d)"
  using hex_lower_digit [of d] underscore_no_digit by metis

lemma hex_lower_inj: "d < 16 \<Longrightarrow> d' < 16 \<Longrightarrow> hex_lower d = hex_lower d' \<Longrightarrow> d = d'"
  using hex_lower_facts by metis

lemma hex_fixed_Suc: "hex_fixed (Suc w) v = hex_lower (nat (v div 16 ^ w mod 16)) # hex_fixed w v"
  by (simp add: hex_fixed_def)

lemma hex_fixed_digits: "c \<in> set (hex_fixed w v) \<Longrightarrow> is_base_digit 16 c \<and> c \<noteq> CHR ''_'' \<and> \<not> is_space c"
  using hex_lower_facts [of "nat (v div 16 ^ k mod 16)" for k] by (auto simp: hex_fixed_def nat_less_iff)

lemma length_hex_fixed [simp]: "length (hex_fixed w v) = w"
  by (simp add: hex_fixed_def)

lemma foldl_hex: "foldl (\<lambda>n c. 16 * n + hex_val c) a (hex_fixed w v) = a * 16 ^ w + nat (v mod 16 ^ w)"
proof (induction w arbitrary: a)
  case (Suc w)
  let ?d = "nat (v div 16 ^ w mod 16)"
  have "foldl (\<lambda>n c. 16 * n + hex_val c) a (hex_fixed (Suc w) v) = (16 * a + ?d) * 16 ^ w + nat (v mod 16 ^ w)"
    using Suc.IH hex_lower_facts [of ?d] by (simp add: hex_fixed_Suc nat_less_iff)
  also have "\<dots> = a * 16 ^ Suc w + (?d * 16 ^ w + nat (v mod 16 ^ w))"
    by (simp add: algebra_simps)
  also have "?d * 16 ^ w + nat (v mod 16 ^ w) = nat (v mod 16 ^ Suc w)"
  proof -
    have "v mod 16 ^ Suc w = 16 ^ w * (v div 16 ^ w mod 16) + v mod 16 ^ w"
      using zmod_zmult2_eq [of 16 v "16 ^ w"] by (simp add: mult.commute)
    then show ?thesis
      by (simp add: nat_add_distrib nat_mult_distrib nat_power_eq mult.commute)
  qed
  finally show ?case .
qed (simp add: hex_fixed_def)

lemma nat_of_hex: "nat_of_base 16 (hex_fixed w v) = nat (v mod 16 ^ w)"
  using foldl_hex [of 0 w v] by (simp add: nat_of_base_def)

lemma hex_fixed_inj: "0 \<le> v \<Longrightarrow> v < 16 ^ w \<Longrightarrow> 0 \<le> v' \<Longrightarrow> v' < 16 ^ w \<Longrightarrow> hex_fixed w v = hex_fixed w v' \<longleftrightarrow> v = v'"
proof (intro iffI)
  assume v: "0 \<le> v" "v < 16 ^ w" "0 \<le> v'" "v' < 16 ^ w" and "hex_fixed w v = hex_fixed w v'"
  then have "nat (v mod 16 ^ w) = nat (v' mod 16 ^ w)"
    using nat_of_hex [of w v] nat_of_hex [of w v'] by metis
  then show "v = v'"
    using v by (simp only: mod_pos_pos_trivial)
qed simp

text \<open>The text of a fixture is read back by pairs of digits.\<close>

fun bytes_fromhex :: "string \<Rightarrow> bytes" where
  "bytes_fromhex (c # c' # cs) = word_of_int (int (nat_of_base 16 [c, c'])) # bytes_fromhex cs"
| "bytes_fromhex _ = []"

lemma fixture_text: "bytes_fromhex (bytes_hex bs) = bs"
proof (induction bs)
  case (Cons b bs)
  obtain c c' where h: "hex_fixed 2 (uint b) = [c, c']"
    by (simp add: hex_fixed_def numeral_2_eq_2)
  have "uint b < 16 ^ 2"
    using uint_byte_lt [of b] by simp
  then have "int (nat_of_base 16 [c, c']) = uint b"
    using nat_of_hex [of 2 "uint b"] h by simp
  then show ?case
    using Cons by (simp add: bytes_hex_def h)
qed (simp add: bytes_hex_def)

section \<open>The key of a block\<close>

lemma us_digits_hex: "us_digits (is_base_digit 16) prev (hex_fixed w v) = (if w = 0 \<and> \<not> prev then None else Some (hex_fixed w v))"
proof (induction w arbitrary: prev)
  case (Suc w)
  have "is_base_digit 16 (hex_lower (nat (v div 16 ^ w mod 16)))"
    using hex_lower_facts [of "nat (v div 16 ^ w mod 16)"] by (simp add: nat_less_iff)
  then show ?case
    using Suc by (simp add: hex_fixed_Suc)
qed (simp add: hex_fixed_def)

lemma key_base:
  assumes "0 \<le> addr" "addr < 65536"
  shows "int_base16 (takeWhile (\<lambda>c. c \<noteq> CHR ''_'') (block_key addr bname)) = Some addr"
proof -
  have t: "takeWhile (\<lambda>c. c \<noteq> CHR ''_'') (block_key addr bname) = ''0x'' @ hex_fixed 4 addr"
    using hex_fixed_digits [of _ 4 addr] by (simp add: block_key_def takeWhile_append)
  have n: "hex_fixed 4 addr \<noteq> []"
    using length_hex_fixed [of 4 addr] by (metis list.size(3) zero_neq_numeral)
  obtain c cs where h: "hex_fixed 4 addr = c # cs"
    using n by (cases "hex_fixed 4 addr") simp_all
  have c: "c \<noteq> CHR ''_''" "\<not> is_space (last (c # cs))"
    using hex_fixed_digits [of c 4 addr] hex_fixed_digits [of "last (c # cs)" 4 addr] by (simp_all add: h split: if_splits)
  have st: "strip (''0x'' @ hex_fixed 4 addr) = ''0x'' @ hex_fixed 4 addr"
    using c(2) by (intro strip_id) (simp add: h is_space_def)
  have l: "map to_lower ''0x'' = ''0x''"
    by code_simp
  have "based 16 (hex_fixed 4 addr) = Some (nat addr)"
    using us_digits_hex [of False 4 addr] c(1) nat_of_hex [of 4 addr] assms by (simp add: based_def h)
  then show ?thesis
    unfolding t int_base16_def st using l assms(1) by (simp add: signed_int_def)
qed

section \<open>The report is the difference\<close>

definition key_address :: "string \<Rightarrow> int option" where
  "key_address block = int_base16 (takeWhile (\<lambda>c. c \<noteq> CHR ''_'') block)"

lemma register_changes_mem: "(off, va, vb, d) \<in> set (register_changes ra rb) \<longleftrightarrow>
    off < length ra \<and> off < length rb \<and> va = ra ! off \<and> vb = rb ! off \<and> va \<noteq> vb \<and> d = vb - va"
  by (auto simp: register_changes_def List.map_filter_def)

lemma snapshot_keys: "set (dkeys (snapshot_inverter answers)) \<subseteq> (\<lambda>(addr, count, bname). block_key addr bname) ` set DIFF_BLOCKS"
proof -
  have "set (dkeys (fold (\<lambda>(addr, count, bname) d.
         case snapshot_block count (answers addr) of None \<Rightarrow> d | Some regs \<Rightarrow> dset (block_key addr bname) regs d) bs d0))
      \<subseteq> set (dkeys d0) \<union> (\<lambda>(addr, count, bname). block_key addr bname) ` set bs" for bs d0
  proof (induction bs arbitrary: d0)
    case (Cons b bs)
    obtain addr count bname where b: "b = (addr, count, bname)"
      by (cases b)
    show ?case
      using Cons.IH [of "case snapshot_block count (answers addr) of None \<Rightarrow> d0 | Some regs \<Rightarrow> dset (block_key addr bname) regs d0"]
      by (auto simp: b set_dkeys_dset split: option.splits)
  qed simp
  from this [of DIFF_BLOCKS "[]"] show ?thesis
    by (simp add: snapshot_inverter_def dkeys_def)
qed

lemma diff_addresses: "list_all (\<lambda>(addr, count, bname). 0 \<le> addr \<and> addr < 65536) DIFF_BLOCKS"
  by (simp add: DIFF_BLOCKS_def)

lemma snapshot_key_address: "k \<in> set (dkeys (snapshot_inverter answers)) \<Longrightarrow> key_address k \<noteq> None"
proof -
  assume "k \<in> set (dkeys (snapshot_inverter answers))"
  then have "k \<in> (\<lambda>(addr, count, bname). block_key addr bname) ` set DIFF_BLOCKS"
    using snapshot_keys by (rule rev_subsetD)
  then obtain addr count bname where b: "(addr, count, bname) \<in> set DIFF_BLOCKS" "k = block_key addr bname"
    unfolding image_iff split_paired_all by (elim bexE) (metis prod.case prod_cases3)
  have "0 \<le> addr \<and> addr < 65536"
    using bspec [OF diff_addresses [unfolded list_all_iff] b(1)] by (simp only: prod.case)
  then show ?thesis
    using key_base [of addr bname] by (simp add: b(2) key_address_def)
qed

lemma snapshot_of_entry: "(dget_or (snapshot_of ports) n []) = [] \<or> (\<exists>answers. dget_or (snapshot_of ports) n [] = snapshot_inverter answers)"
  by (auto simp: snapshot_of_def dget_dupdate dget_or_def split: option.splits dest!: map_of_SomeD)

definition rows_of :: "int \<Rightarrow> int list \<Rightarrow> int list \<Rightarrow> diff_row list" where
  "rows_of base ra rb = map (\<lambda>(off, va, vb, d). \<lparr>dr_address = base + int off, dr_before = va, dr_after = vb, dr_delta = d,
                  dr_big = 100 < \<bar>d\<bar>, dr_accumulator = 0 < d \<and> 0 < va\<rparr>) (register_changes ra rb)"

lemma diff_blocks_exact:
  assumes "\<forall>k \<in> set blocks. key_address k \<noteq> None"
  shows "diff_blocks a b blocks = Some (filter (\<lambda>(k, rows). rows \<noteq> [])
    (map (\<lambda>k. (k, rows_of (the (key_address k)) (dget_or a k []) (dget_or b k []))) blocks))"
  using assms by (induction blocks) (auto simp: rows_of_def Let_def key_address_def)

lemma common_keys_mem: "k \<in> set (common_keys a b) \<longleftrightarrow> k \<in> set (dkeys a) \<and> k \<in> set (dkeys b)"
  by (auto simp: common_keys_def)

text \<open>The report of two snapshots never fails, and it shows, for every inverter and every block that both snapshots have,
  exactly the registers whose values differ.\<close>

theorem daily_diff_exact:
  "daily_diff (snapshot_of p) (snapshot_of q) = Some (map (\<lambda>n.
     let a = dget_or (snapshot_of p) n []; b = dget_or (snapshot_of q) n [] in
       (n, filter (\<lambda>(k, rows). rows \<noteq> [])
         (map (\<lambda>k. (k, rows_of (the (key_address k)) (dget_or a k []) (dget_or b k []))) (common_keys a b))))
     (common_keys (snapshot_of p) (snapshot_of q)))"
proof -
  have "\<forall>k \<in> set (common_keys (dget_or (snapshot_of p) n []) b). key_address k \<noteq> None" for n and b :: "(string, int list) dict"
  proof (intro ballI)
    fix k
    assume k: "k \<in> set (common_keys (dget_or (snapshot_of p) n []) b)"
    then have "dget_or (snapshot_of p) n [] \<noteq> []"
      by (auto simp: common_keys_mem dkeys_def)
    then obtain answers where "dget_or (snapshot_of p) n [] = snapshot_inverter answers"
      using snapshot_of_entry [of p n] by blast
    then show "key_address k \<noteq> None"
      using k snapshot_key_address [of k answers] by (simp add: common_keys_mem)
  qed
  then have "diff_inverters (snapshot_of p) (snapshot_of q) ns = Some (map (\<lambda>n.
     let a = dget_or (snapshot_of p) n []; b = dget_or (snapshot_of q) n [] in
       (n, filter (\<lambda>(k, rows). rows \<noteq> [])
         (map (\<lambda>k. (k, rows_of (the (key_address k)) (dget_or a k []) (dget_or b k []))) (common_keys a b)))) ns)" for ns
    by (induction ns) (simp_all add: Let_def diff_blocks_exact)
  then show ?thesis
    by (simp add: daily_diff_def)
qed

lemma rows_of_mem: "r \<in> set (rows_of base ra rb) \<longleftrightarrow>
    (\<exists>i. i < length ra \<and> i < length rb \<and> ra ! i \<noteq> rb ! i \<and> r = \<lparr>dr_address = base + int i, dr_before = ra ! i, dr_after = rb ! i,
       dr_delta = rb ! i - ra ! i, dr_big = 100 < \<bar>rb ! i - ra ! i\<bar>, dr_accumulator = 0 < rb ! i - ra ! i \<and> 0 < ra ! i\<rparr>)"
proof -
  have "r \<in> set (rows_of base ra rb) \<longleftrightarrow> (\<exists>off va vb d. (off, va, vb, d) \<in> set (register_changes ra rb) \<and>
      r = \<lparr>dr_address = base + int off, dr_before = va, dr_after = vb, dr_delta = d, dr_big = 100 < \<bar>d\<bar>,
        dr_accumulator = 0 < d \<and> 0 < va\<rparr>)"
    unfolding rows_of_def set_map image_iff by (simp only: Bex_def split_paired_Ex prod.case)
  then show ?thesis
    by (simp only: register_changes_mem) blast
qed

section \<open>The account of a capture\<close>

lemma capture_port_account:
  assumes "capture_port retries state_tag slave answers blocks st = Some st1"
  shows "cp_success st1 + cp_skipped st1 + cp_failed st1 = cp_success st + cp_skipped st + cp_failed st + length blocks
    \<and> length (cp_files st1) + cp_success st = length (cp_files st) + cp_success st1"
  using assms
proof (induction retries state_tag slave answers blocks st rule: capture_port.induct)
  case (2 retries state_tag slave answers addr count label blocks st)
  then show ?case
    by (cases "capture_block retries (answers addr)") (auto split: if_splits)
qed simp

lemma capture_ports_account:
  assumes "capture_ports retries state_tag ports st = Some st1"
  shows "cp_success st1 + cp_skipped st1 + cp_failed st1 = cp_success st + cp_skipped st + cp_failed st + length FIXTURE_BLOCKS * length ports
    \<and> length (cp_files st1) + cp_success st = length (cp_files st) + cp_success st1"
  using assms
proof (induction retries state_tag ports st rule: capture_ports.induct)
  case (2 retries state_tag slave answers ports st)
  obtain st0 where s: "capture_port retries state_tag slave answers FIXTURE_BLOCKS st = Some st0"
    using 2(2) by (auto split: option.splits)
  show ?case
    using 2(1) [OF s] 2(2) s capture_port_account [OF s] by simp
qed simp

text \<open>The summary of a capture accounts for every block of every port, and every block read and every bus listened to has
  its file.\<close>

theorem capture_account:
  assumes "capture_main retries state_tag secs ports = Some st"
  shows "cp_success st + cp_skipped st + cp_failed st = length FIXTURE_BLOCKS * length ports"
    "length (cp_files st) = cp_success st + length ports"
  using assms by (auto simp: capture_main_def dest!: capture_ports_account)

section \<open>The report of the probe\<close>

text \<open>One line per pack; the wording of an error is left out.\<close>

datatype probe_row = ProbeTimeout | ProbeError | ProbeShown rat rat rat rat rat

definition probe_row_of :: "probe_result \<Rightarrow> probe_row" where
  "probe_row_of r =
     (case r of
        NoReply \<Rightarrow> ProbeTimeout
      | Decoded d \<Rightarrow> ProbeShown (pr_voltage_V d) (pr_current_A d) (pr_soc_pct d) (pr_remaining_Ah d) (pr_nominal_Ah d)
      | _ \<Rightarrow> ProbeError)"

text \<open>\<open>has_fff0\<close>: whether the device has the service; \<open>notes\<close>: the notifications in the time of a pack. The exit code
  with the report and the requests written.\<close>

definition probe_main :: "bool \<Rightarrow> (nat \<Rightarrow> bytes list) \<Rightarrow> nat \<times> (nat \<times> probe_row) list \<times> bytes list" where
  "probe_main has_fff0 notes =
     (if \<not> has_fff0 then (1, [], [])
      else (0, map (\<lambda>pack. (pack, probe_row_of (probe_pack pack (notes pack)))) [1, 2, 3, 4],
        map (\<lambda>pack. dget_or PIA_FRAMES pack []) [1, 2, 3, 4]))"

text \<open>The probe asks what the bridge asks, and a pack that answers properly is shown with the values the bridge
  decodes, but for the state of charge.\<close>

theorem probe_like_bridge:
  assumes "\<forall>p \<in> {1, 2, 3, 4}. notes p = [answer p] \<and> oct_parse_response (answer p) = Inr (Pia (d p)) \<and> pia_pack (d p) = int p"
  shows "case probe_main True notes of (code, rows, sent) \<Rightarrow>
    code = 0 \<and> map Some sent = map pia_request [1, 2, 3, 4]
    \<and> rows = map (\<lambda>p. (p, ProbeShown (voltage_V (d p)) (current_A (d p)) (soh_pct (d p)) (remaining_Ah (d p)) (nominal_Ah (d p)))) [1, 2, 3, 4]"
proof -
  have "probe_row_of (probe_pack p (notes p))
      = ProbeShown (voltage_V (d p)) (current_A (d p)) (soh_pct (d p)) (remaining_Ah (d p)) (nominal_Ah (d p))" if "p \<in> {1, 2, 3, 4}" for p
  proof -
    have a: "notes p = [answer p]" "oct_parse_response (answer p) = Inr (Pia (d p))" "nat (pia_pack (d p)) = p"
      using bspec [OF assms that] by simp_all
    obtain pd where "probe_pack p [answer p] = Decoded pd" "pr_voltage_V pd = voltage_V (d p)" "pr_current_A pd = current_A (d p)"
      "pr_remaining_Ah pd = remaining_Ah (d p)" "pr_nominal_Ah pd = nominal_Ah (d p)" "pr_soc_pct pd = soh_pct (d p)"
      using probe_soc_is_soh [OF a(2)] unfolding a(3) by blast
    then show ?thesis
      by (simp add: a(1) probe_row_of_def)
  qed
  moreover have "map Some (map (\<lambda>pack. dget_or PIA_FRAMES pack []) [1, 2, 3, 4]) = map pia_request [1, 2, 3, 4]"
    using oct_self_test_passes by (simp add: self_test_def PIA_FRAMES_LITERAL_def PIA_FRAMES_def dget_or_def)
  ultimately show ?thesis
    by (simp add: probe_main_def)
qed

end
