(* ===== verification/Spec2Isabelle.thy ===== *)
theory Spec2Isabelle
  imports Bridge_Prelude Crc16 Modbus Serial_Stream Py_Float Py_Value Srne_Map Octopus Energy
    Inv_Aggregator Mqtt_Publisher Py_Parse Bms_Discovery Bms_Aggregator Ble_Client Bms_Service Bms_Runs
    Daemon Daemon_Runs Daemon_Messages Bridge_Config Cleanup_Runs Purge_Runs Rename_Runs Field_Runs
    Worker_Threads Worker_Timeout Entry_Point Tool_Reports Report_Runs Smoke_Test Field_Reports
begin

text \<open>
  This library models SolarInverter2MQTT, a bridge from SRNE solar inverters (Modbus over RS485) and a
  BlueSun battery bank (the Octopus protocol over Bluetooth) to MQTT with Home Assistant discovery, and
  the maintenance tools that clean up after it. All paths are under \<open>src/\<close>.

  \<^bold>\<open>The program.\<close> \<open>inverter_bridge/daemon.py\<close> polls every inverter in parallel, a hot set of register
  blocks every few seconds and a cold one every minute. A query (\<open>serial_io.py\<close>) writes a request of
  \<open>modbus.py\<close> to a bus that it shares with a display, and picks its answer out of the byte stream that
  comes back; \<open>parsers.py\<close> decodes the registers with the tables of \<open>srne_map.py\<close>; \<open>aggregator.py\<close> combines
  the inverters into sensors; \<open>energy_integrator.py\<close> integrates their powers into counters that survive a
  restart in a file; \<open>mqtt_publisher.py\<close> announces and publishes everything. Beside this loop
  \<open>bms/service.py\<close> polls the packs of the battery through \<open>bms/ble_client.py\<close>, decodes them with
  \<open>bms/octopus_protocol.py\<close>, aggregates them (\<open>bms/aggregator.py\<close>) and publishes them under the entities of
  \<open>bms/discovery.py\<close>. \<open>config.py\<close> loads the configuration. Three tools, \<open>cleanup_orphan_discoveries.py\<close>,
  \<open>purge_ha_zombies.py\<close> and \<open>rename_ha_entities.py\<close>, remove or rename what earlier deployments left on the
  broker and in the entity registry of Home Assistant.

  \<^bold>\<open>The theories, bottom up.\<close>
  \<^item> \<open>Bridge_Prelude\<close>: bytes, slices, registers, decimal and hexadecimal text, dictionaries as association
    lists, sequencing of fallible steps; the collections \<open>wire_simps\<close>, \<open>text_simps\<close>, \<open>dict_simps\<close>.
  \<^item> \<open>Py_Float\<close>, \<open>Py_Value\<close>, \<open>Py_Parse\<close>: the Python that the program uses. A finite float is the rational it
    denotes, and \<open>fl\<close> rounds to the nearest double with ties to even, so that every float result of the
    library is the one Python computes; \<open>round\<close> and \<open>sum\<close> (in both versions of the latter) are defined on
    them. \<open>pyval\<close> is a dynamic value, as JSON and YAML give it. The locale \<open>monotone_counter\<close> is the
    contract of the counters that must never go back.
  \<^item> \<open>Crc16\<close>, \<open>Modbus\<close>, \<open>Serial_Stream\<close>: \<open>crc.py\<close>, \<open>modbus.py\<close>, \<open>serial_io.py\<close>. The checksum is linear and detects
    every error of two adjacent bytes; the response parser accepts exactly the encodings; the stream walk
    decodes clean traffic exactly, and what \<open>query\<close> returns or raises is justified by the bytes received.
  \<^item> \<open>Srne_Map\<close>: \<open>srne_map.py\<close> and \<open>parsers.py\<close>, the tables entry by entry, and the parser, exact to the last
    bit.
  \<^item> \<open>Inv_Aggregator\<close>: \<open>aggregator.py\<close>, its four loops in the order of the code. The site totals are the
    documented means and sums, and no inverter influences the sensors of another.
  \<^item> \<open>Energy\<close>: \<open>energy_integrator.py\<close> with its file. Updates in every branch, counters that never decrease,
    atomic saving under any failing system call, exact restoring.
  \<^item> \<open>Mqtt_Publisher\<close>: \<open>mqtt_publisher.py\<close>, as the calls made on the MQTT client; topics and ids that never
    collide, reconnects that restore what the broker retains.
  \<^item> \<open>Octopus\<close>, \<open>Bms_Aggregator\<close>, \<open>Bms_Discovery\<close>, \<open>Ble_Client\<close>, \<open>Bms_Service\<close>, \<open>Bms_Runs\<close>: the battery side. The
    decoder inverts the encoding of the packs; a poll is decided by the first matching frame; the service is
    its state with one definition per method, and \<open>Bms_Runs\<close> states what whole runs keep: its locale
    is the contract of a property that every step respects, interpreted for the counters, the cache and the
    energies.
  \<^item> \<open>Daemon\<close>, \<open>Daemon_Runs\<close>, \<open>Daemon_Messages\<close>: \<open>daemon.py\<close>. The poll of all inverters refines one small
    machine per inverter; cycles are never aborted, energies never go back over runs and restarts, every
    message goes to an announced topic, and a shutdown leaves the broker as it should. \<open>Worker_Threads\<close>: the
    workers of a cycle as a step relation; every interleaving of them agrees with the sequential poll.
  \<^item> \<open>Bridge_Config\<close>: \<open>config.py\<close>, with every exception of the loader. \<open>Worker_Timeout\<close>: the limit for a worker that the
    daemon derives from its configuration, against the time a worker can take. \<open>Entry_Point\<close>: \<open>__main__.py\<close> and
    \<open>sdnotify.py\<close>, the program from its configuration document to what it leaves on the broker.
  \<^item> \<open>Cleanup_Tool\<close> and \<open>Cleanup_Runs\<close>, \<open>Ws_Client\<close> and \<open>Ws_Runs\<close>, \<open>Purge_Tool\<close> and \<open>Purge_Runs\<close>, \<open>Rename_Tool\<close> and
    \<open>Rename_Runs\<close>: the three tools, and the WebSocket client that two of them share. Each run does exactly
    what its selection says and only when told to, its exit code says how it ended, and with the
    repository's own specification (\<open>docs/MQTT_CANONICAL.json\<close>) nothing that the bridge announces is
    cleared or removed: there the tools are proved against the publisher. The locale \<open>command_loop\<close> is the
    contract of a tool that applies commands one by one, interpreted on both. \<open>Tool_Reports\<close> and \<open>Report_Runs\<close>: what
    they print; a dry run tells exactly what the run with \<open>--apply\<close> then does.
  \<^item> \<open>Field_Tools\<close> and \<open>Field_Runs\<close>: \<open>capture_fixtures.py\<close>, \<open>srne_daily_diff.py\<close>, \<open>_bms_ble_probe.py\<close> and
    \<open>_cleanup_old_bms_discovery.py\<close>, run by hand, with copies of the checksum, the reader and the decoder:
    where these agree with the bridge and where they do not. \<open>Field_Reports\<close>: the files of a capture read back as the
    bytes received, the report of two snapshots is the registers that differ, and the probe shows what the bridge
    decodes but for the state of charge. \<open>Smoke_Test\<close>: \<open>smoke_test.py\<close>, whose
    stub publisher stores exactly what the bridge publishes last.

  \<^bold>\<open>How code becomes definitions.\<close> A class is a record and its methods map the record to the new one; a
  method that calls the MQTT client returns the list of its calls. An exception is the left side of a sum, with a
  datatype of errors per component; a caught one is a branch. The properties of the daemon assume
  distinct inverter names, which the loader does not check. A loop over data is a recursion on it; the
  loop of the daemon, which has no end, recurses on the list of the inputs it meets, one entry per
  iteration, so that every finite run is one of its values; the loops of the battery service do the same.
  The loop that waits for a WebSocket answer terminates because every round uses up a frame. No definition
  has fuel. The environment is data: a serial port is the chunks its reads return, a Bluetooth link and a
  WebSocket are the events they deliver, with the times where timeouts matter, a clock is the readings it
  gives, a file is its decoded content together with the system calls that succeed, the broker is what it
  delivers and acknowledges. The properties hold for all of these.

  \<^bold>\<open>Parameters.\<close> The version of \<open>sum\<close> (before and from Python 3.12), \<open>str\<close> of a float, list or mapping where
  the code formats an arbitrary value, the reading of ISO timestamps and the validation of a bracketed host
  in the tools. Text is made of the first 256 code points.

  \<^bold>\<open>Not modelled.\<close> Threads, beyond \<open>Worker_Threads\<close>: a worker that misses its limit is taken to end between two later
  cycles, all at once, and the battery service runs beside the loop as one step of the daemon's life, because they share
  no state and each has its own MQTT client. Logging, the wording and layout of what is printed (the values are modelled),
  the thread pools, the moments of the notifications to systemd, TLS. Automatic reconnects of an MQTT client are the
  separate operation \<open>handle_connect\<close>, not an event of a run of the daemon. A signal is taken to interrupt the
  main loop.
\<close>

end
